(* ===== verification/BNG_Prelude.thy ===== *)
theory BNG_Prelude
  imports Main "HOL-Library.Word"
begin

unbundle bit_operations_syntax

text \<open>
  Shared vocabulary of the development: the machine integer types the daemon uses, the
  network byte order (\<open>htons\<close>/\<open>ntohs\<close>, \<open>htonl\<close>/\<open>ntohl\<close>, \<open>be64toh\<close>)
  as functions between words and byte lists, optional callbacks, and the generic list and
  word lemmas that the components share. The collection \<open>wire\<close> gathers the
  encode/decode equations, so that a codec proof is \<open>simp add: wire\<close>.
\<close>

named_theorems wire \<open>encode and decode equations of the wire formats\<close>
named_theorems keeps \<open>fields that an operation leaves unchanged\<close>

type_synonym u8 = "8 word"
type_synonym u16 = "16 word"
type_synonym u32 = "32 word"
type_synonym u64 = "64 word"
type_synonym bytes = "u8 list"

section \<open>Network byte order\<close>

definition put16 :: "u16 \<Rightarrow> bytes" where
  "put16 w = [ucast (drop_bit 8 w), ucast w]"

definition get16 :: "u8 \<Rightarrow> u8 \<Rightarrow> u16" where
  "get16 a b = push_bit 8 (ucast a) OR ucast b"

definition put32 :: "u32 \<Rightarrow> bytes" where
  "put32 w = [ucast (drop_bit 24 w), ucast (drop_bit 16 w), ucast (drop_bit 8 w), ucast w]"

definition get32 :: "u8 \<Rightarrow> u8 \<Rightarrow> u8 \<Rightarrow> u8 \<Rightarrow> u32" where
  "get32 a b c d =
     push_bit 24 (ucast a) OR push_bit 16 (ucast b) OR push_bit 8 (ucast c) OR ucast d"

definition put64 :: "u64 \<Rightarrow> bytes" where
  "put64 w = put32 (ucast (drop_bit 32 w)) @ put32 (ucast w)"

definition get64 :: "u32 \<Rightarrow> u32 \<Rightarrow> u64" where
  "get64 hi lo = push_bit 32 (ucast hi) OR ucast lo"

text \<open>A read through a cast pointer at the start of a buffer; the caller has checked the length.\<close>

fun rd16 :: "bytes \<Rightarrow> u16" where
  "rd16 (a # b # _) = get16 a b"
| "rd16 _ = 0"

fun rd32 :: "bytes \<Rightarrow> u32" where
  "rd32 (a # b # c # d # _) = get32 a b c d"
| "rd32 _ = 0"

definition rd64 :: "bytes \<Rightarrow> u64" where
  "rd64 bs = get64 (rd32 bs) (rd32 (drop 4 bs))"

lemma length_put16 [simp, wire]: "length (put16 w) = 2"
  by (simp add: put16_def)

lemma length_put32 [simp, wire]: "length (put32 w) = 4"
  by (simp add: put32_def)

lemma length_put64 [simp, wire]: "length (put64 w) = 8"
  by (simp add: put64_def)

lemma get16_put16: "get16 (ucast (drop_bit 8 w)) (ucast w) = w"
  unfolding get16_def
  by (rule bit_word_eqI)
    (auto simp: bit_simps)

lemma get32_put32:
  "get32 (ucast (drop_bit 24 w)) (ucast (drop_bit 16 w)) (ucast (drop_bit 8 w)) (ucast w) = w"
  unfolding get32_def
proof (rule bit_word_eqI)
  fix n assume "n < LENGTH(32)"
  then consider "n < 8" | "8 \<le> n" "n < 16" | "16 \<le> n" "n < 24" | "24 \<le> n" "n < 32"
    by fastforce
  then show "bit (push_bit 24 (ucast (ucast (drop_bit 24 w) :: u8) :: u32) OR
      push_bit 16 (ucast (ucast (drop_bit 16 w) :: u8)) OR
      push_bit 8 (ucast (ucast (drop_bit 8 w) :: u8)) OR ucast (ucast w :: u8)) n = bit w n"
    by cases (auto simp: bit_simps)
qed

lemma get64_put64: "get64 (ucast (drop_bit 32 w)) (ucast w) = w"
  unfolding get64_def
  by (rule bit_word_eqI)
    (auto simp: bit_simps)

lemma rd16_put16 [simp, wire]: "rd16 (put16 w @ bs) = w"
  by (simp add: put16_def get16_put16)

lemma rd32_put32 [simp, wire]: "rd32 (put32 w @ bs) = w"
  by (simp add: put32_def get32_put32)

lemma rd64_put64 [simp, wire]: "rd64 (put64 w @ bs) = w"
  by (simp add: rd64_def put64_def get64_put64)

lemma rd16_put16_Nil [simp, wire]: "rd16 (put16 w) = w"
  using rd16_put16 [of w "[]"] by simp

lemma rd32_put32_Nil [simp, wire]: "rd32 (put32 w) = w"
  using rd32_put32 [of w "[]"] by simp

lemma rd64_put64_Nil [simp, wire]: "rd64 (put64 w) = w"
  using rd64_put64 [of w "[]"] by simp

section \<open>Callbacks\<close>

text \<open>\<open>if (p->f) p->f(p)\<close>: a function pointer that may be null.\<close>

definition call_opt :: "('s \<Rightarrow> 's) option \<Rightarrow> 's \<Rightarrow> 's" where
  "call_opt f s = (case f of None \<Rightarrow> s | Some g \<Rightarrow> g s)"

lemma call_opt_simps [simp]:
  "call_opt None s = s" "call_opt (Some g) s = g s"
  by (simp_all add: call_opt_def)

section \<open>Words as numbers\<close>

lemma unat_u8_less: "unat (b :: u8) < 256"
proof -
  have "unat b < 2 ^ LENGTH(8)" by (rule unsigned_less)
  then show ?thesis by simp
qed

lemma unat_u16_less: "unat (b :: u16) < 65536"
proof -
  have "unat b < 2 ^ LENGTH(16)" by (rule unsigned_less)
  then show ?thesis by simp
qed

lemma unat_u32_less: "unat (b :: u32) < 4294967296"
proof -
  have "unat b < 2 ^ LENGTH(32)" by (rule unsigned_less)
  then show ?thesis by simp
qed

lemma unat_ucast_u8_u16 [simp]: "unat (ucast (b :: u8) :: u16) = unat b"
proof -
  have "unat b < 2 ^ 16"
    using unat_u8_less [of b] by simp
  then show ?thesis
    by (simp add: unsigned_ucast_eq take_bit_nat_eq_self)
qed

lemma u8_eq_iff_unat: "(a :: u8) = b \<longleftrightarrow> unat a = unat b"
  by (simp add: word_unat_eq_iff)

lemma unat_of_nat_small: "n < 2 ^ LENGTH('a) \<Longrightarrow> unat (of_nat n :: 'a::len word) = n"
  by (simp add: unat_of_nat take_bit_nat_eq_self)

section \<open>Signed integers\<close>

text \<open>A value stored in an \<open>int\<close> of 32 bits; arithmetic that leaves the range wraps around.\<close>

definition int32 :: "int \<Rightarrow> int" where
  "int32 x = (x + 2147483648) mod 4294967296 - 2147483648"

lemma int32_id: "-2147483648 \<le> x \<Longrightarrow> x < 2147483648 \<Longrightarrow> int32 x = x"
  by (simp add: int32_def)

section \<open>Buffers\<close>

text \<open>\<open>memcpy (buf + off, src, n)\<close> inside a buffer that is large enough.\<close>

definition mem_put :: "'a list \<Rightarrow> nat \<Rightarrow> 'a list \<Rightarrow> 'a list" where
  "mem_put buf off src = take off buf @ src @ drop (off + length src) buf"

lemma length_mem_put [simp]: "off + length src \<le> length buf \<Longrightarrow> length (mem_put buf off src) = length buf"
  by (simp add: mem_put_def)

lemma take_mem_put [simp]:
  "off \<le> length buf \<Longrightarrow> take (off + length src) (mem_put buf off src) = take off buf @ src"
  by (simp add: mem_put_def)

lemma mem_put_Nil [simp]: "mem_put buf off [] = buf"
  by (simp add: mem_put_def)

lemma mem_put_mem_put:
  "off + length xs \<le> length buf \<Longrightarrow> mem_put (mem_put buf off xs) (off + length xs) ys = mem_put buf off (xs @ ys)"
  by (simp add: mem_put_def ac_simps)

lemma mem_put_full: "off + length xs = length buf \<Longrightarrow> mem_put buf off xs = take off buf @ xs"
  by (simp add: mem_put_def)

end
