(* ===== verification/C_String.thy ===== *)
theory C_String
  imports BNG_Prelude
begin

text \<open>
  The string functions of the C library that the daemon uses to read numbers: character classes,
  \<open>strspn\<close>, \<open>strtol\<close> and \<open>strtoul\<close> with their saturation, \<open>atoi\<close>, the conversion \<open>%u\<close> of
  \<open>sscanf\<close>, and the decimal output of \<open>%i\<close> for numbers that are not negative. A C string is the list of its
  characters without the final null byte, so the end of the string is the empty list.
\<close>

section \<open>Characters\<close>

definition isdigit :: "char \<Rightarrow> bool" where
  "isdigit c \<longleftrightarrow> (48 :: nat) \<le> of_char c \<and> of_char c \<le> (57 :: nat)"

definition isspace :: "char \<Rightarrow> bool" where
  "isspace c \<longleftrightarrow> of_char c = (32 :: nat) \<or> (9 :: nat) \<le> of_char c \<and> of_char c \<le> (13 :: nat)"

text \<open>The value of a character as a digit of the given base; letters count from 10.\<close>

definition digit_in :: "nat \<Rightarrow> char \<Rightarrow> nat option" where
  "digit_in base c =
     (let n = of_char c :: nat;
          v = (if 48 \<le> n \<and> n \<le> 57 then n - 48 else if 97 \<le> n \<and> n \<le> 122 then n - 87
               else if 65 \<le> n \<and> n \<le> 90 then n - 55 else 36)
      in if v < base then Some v else None)"

definition digit_chr :: "nat \<Rightarrow> char" where
  "digit_chr n = char_of (48 + n)"

definition strspn :: "string \<Rightarrow> string \<Rightarrow> nat" where
  "strspn s accept = length (takeWhile (\<lambda>c. c \<in> set accept) s)"

section \<open>Reading numbers\<close>

text \<open>The digits at the start of a string: their value and what follows them.\<close>

definition number :: "nat \<Rightarrow> string \<Rightarrow> (nat \<times> string) option" where
  "number base s =
     (let ds = takeWhile (\<lambda>c. digit_in base c \<noteq> None) s
      in if ds = [] then None
         else Some (foldl (\<lambda>a c. base * a + the (digit_in base c)) 0 ds, drop (length ds) s))"

text \<open>Base 0 of \<open>strtol\<close>: the prefix decides.\<close>

definition number0 :: "string \<Rightarrow> (nat \<times> string) option" where
  "number0 s =
     (case s of
        CHR ''0'' # x # d # r \<Rightarrow>
          if x \<in> {CHR ''x'', CHR ''X''} \<and> digit_in 16 d \<noteq> None then number 16 (d # r) else number 8 s
      | CHR ''0'' # r \<Rightarrow> number 8 s
      | _ \<Rightarrow> number 10 s)"

fun sign :: "string \<Rightarrow> bool \<times> string" where
  "sign (c # s) = (if c = CHR ''-'' then (True, s) else if c = CHR ''+'' then (False, s) else (False, c # s))"
| "sign [] = (False, [])"

abbreviation (input) LONG_MAX :: int where "LONG_MAX \<equiv> 9223372036854775807"
abbreviation (input) LONG_MIN :: int where "LONG_MIN \<equiv> - 9223372036854775808"
abbreviation (input) ULONG_MAX :: nat where "ULONG_MAX \<equiv> 18446744073709551615"

text \<open>
  The value, whether it was out of range (\<open>ERANGE\<close>), and the rest of the string; without digits the rest is
  the whole string.
\<close>

definition strtol :: "(string \<Rightarrow> (nat \<times> string) option) \<Rightarrow> string \<Rightarrow> int \<times> bool \<times> string" where
  "strtol conv s =
     (let (neg, t) = sign (dropWhile isspace s)
      in case conv t of
           None \<Rightarrow> (0, False, s)
         | Some (n, r) \<Rightarrow>
             (let v = (if neg then - int n else int n)
              in (max LONG_MIN (min LONG_MAX v), v < LONG_MIN \<or> LONG_MAX < v, r)))"

definition strtoul :: "string \<Rightarrow> nat \<times> bool \<times> string" where
  "strtoul s =
     (let (neg, t) = sign (dropWhile isspace s)
      in case number 10 t of
           None \<Rightarrow> (0, False, s)
         | Some (n, r) \<Rightarrow>
             if n > ULONG_MAX then (ULONG_MAX, True, r)
             else (if neg then (ULONG_MAX + 1 - n) mod (ULONG_MAX + 1) else n, False, r))"

definition atoi :: "string \<Rightarrow> int" where
  "atoi s = int32 (fst (strtol (number 10) s))"

text \<open>The conversion \<open>%u\<close> of \<open>sscanf\<close>; \<open>None\<close> is a matching failure.\<close>

definition scan_u :: "string \<Rightarrow> (u32 \<times> string) option" where
  "scan_u s =
     (case number 10 (snd (sign (dropWhile isspace s))) of
        None \<Rightarrow> None
      | Some _ \<Rightarrow> (let (n, _, r) = strtoul s in Some (of_nat n, r)))"

section \<open>Writing numbers\<close>

fun dec :: "nat \<Rightarrow> string" where
  "dec n = (if n < 10 then [digit_chr n] else dec (n div 10) @ [digit_chr (n mod 10)])"

declare dec.simps [simp del]

lemma digit_chr_code: "n < 10 \<Longrightarrow> of_char (digit_chr n) = (48 + n :: nat)"
  by (simp add: digit_chr_def)

lemma isdigit_digit_in: "isdigit c \<longleftrightarrow> digit_in 10 c \<noteq> None"
  by (auto simp: isdigit_def digit_in_def Let_def)

lemma digit_in_chr: "n < 10 \<Longrightarrow> digit_in 10 (digit_chr n) = Some n"
  by (simp add: digit_in_def digit_chr_code Let_def)

lemma dec_digits: "c \<in> set (dec n) \<Longrightarrow> isdigit c"
proof (induction n rule: dec.induct)
  case (1 n)
  then show ?case
    by (cases "n < 10") (auto simp: dec.simps [of n] isdigit_digit_in digit_in_chr)
qed

lemma dec_not_Nil [simp]: "dec n \<noteq> []"
  by (simp add: dec.simps)

lemma dec_value: "foldl (\<lambda>a c. 10 * a + the (digit_in 10 c)) 0 (dec n) = n"
proof (induction n rule: dec.induct)
  case (1 n)
  show ?case
  proof (cases "n < 10")
    case False
    then show ?thesis
      using 1 by (subst dec.simps) (simp add: digit_in_chr)
  qed (simp add: dec.simps [of n] digit_in_chr)
qed

text \<open>What follows a number must not continue it.\<close>

abbreviation no_digit :: "string \<Rightarrow> bool" where
  "no_digit r \<equiv> r = [] \<or> \<not> isdigit (hd r)"

lemma takeWhile_all_append: "(\<And>x. x \<in> set xs \<Longrightarrow> P x) \<Longrightarrow> ys = [] \<or> \<not> P (hd ys) \<Longrightarrow> takeWhile P (xs @ ys) = xs"
  by (cases ys) (auto simp: takeWhile_append)

lemma number_10: "number 10 s = (let ds = takeWhile isdigit s in if ds = [] then None
    else Some (foldl (\<lambda>a c. 10 * a + the (digit_in 10 c)) 0 ds, drop (length ds) s))"
  by (simp add: number_def isdigit_digit_in [abs_def])

lemma number_dec: "no_digit r \<Longrightarrow> number 10 (dec n @ r) = Some (n, r)"
  using takeWhile_all_append [of "dec n" isdigit r] dec_digits [of _ n] by (simp add: number_10 dec_value)

lemma digit_not_special: "isdigit c \<Longrightarrow> \<not> isspace c \<and> c \<noteq> CHR ''-'' \<and> c \<noteq> CHR ''+'' \<and> c \<noteq> CHR ''.'' \<and> c \<noteq> CHR ''/''"
  by (auto simp: isdigit_def isspace_def)

lemma sign_digit: "s \<noteq> [] \<Longrightarrow> isdigit (hd s) \<Longrightarrow> sign (dropWhile isspace s) = (False, s)"
  using digit_not_special [of "hd s"] by (cases s) auto

lemma hd_dec: "isdigit (hd (dec n @ r))"
  using dec_digits [of "hd (dec n)" n] by simp

lemma strtoul_dec: "no_digit r \<Longrightarrow> n \<le> ULONG_MAX \<Longrightarrow> strtoul (dec n @ r) = (n, False, r)"
  using sign_digit [of "dec n @ r"] hd_dec [of n r] by (simp add: strtoul_def number_dec)

lemma atoi_dec: "n < 2147483648 \<Longrightarrow> atoi (dec n) = int n"
  using sign_digit [of "dec n"] hd_dec [of n "[]"] number_dec [of "[]" n]
  by (simp add: atoi_def strtol_def int32_id)

text \<open>A number read from a string leaves a suffix of it.\<close>

lemma number_consumes: "number base s = Some (n, r) \<Longrightarrow> \<exists>ds. ds \<noteq> [] \<and> s = ds @ r"
  unfolding number_def Let_def
  by (metis (no_types, lifting) Pair_inject append_take_drop_id option.distinct(1) option.inject takeWhile_eq_take
      take_eq_Nil)

end
