(* ===== verification/Utils.thy ===== *)
theory Utils
  imports C_String
begin

text \<open>
  The parsing helpers of \<open>micro-bngd/utils.c\<close>. A parser returns the number of bytes it has read and stores the
  value through a pointer, with 0 for a failure; here it returns the value and that number, or \<open>None\<close>. IPv4
  addresses are words in host byte order, so the calls of \<open>htonl\<close> and \<open>ntohl\<close> vanish. \<open>inet_pton\<close> for
  IPv6 is a parameter.
\<close>

section \<open>Definitions\<close>

definition octet :: "nat \<Rightarrow> u32 \<Rightarrow> nat" where
  "octet n addr = unat (drop_bit n addr AND 0xff)"

definition u_inet_ntoa :: "u32 \<Rightarrow> string" where
  "u_inet_ntoa addr = dec (octet 24 addr) @ ''.'' @ dec (octet 16 addr) @ ''.'' @ dec (octet 8 addr) @ ''.'' @
     dec (octet 0 addr)"

definition u_readlong :: "string \<Rightarrow> int \<Rightarrow> int \<Rightarrow> int option" where
  "u_readlong src lo hi =
     (if src = [] then None
      else
        (let (rv, erange, src_stop) = strtol number0 src
         in if erange \<or> src_stop \<noteq> [] \<or> rv < lo \<or> rv > hi then None else Some rv))"

definition u_parse_spaces :: "string \<Rightarrow> nat" where
  "u_parse_spaces str = strspn str '' ''"

definition u_parse_endstr :: "string \<Rightarrow> nat" where
  "u_parse_endstr str = (let n = strspn str '' '' in if drop n str \<noteq> [] then 0 else n + 1)"

definition u_parse_u8 :: "string \<Rightarrow> (u8 \<times> nat) option" where
  "u_parse_u8 str =
     (if str = [] \<or> \<not> isdigit (hd str) then None
      else
        (let (ul, _, endptr) = strtoul str
         in if ul > 255 then None else Some (of_nat ul, length str - length endptr)))"

definition u_parse_u16 :: "string \<Rightarrow> (u16 \<times> nat) option" where
  "u_parse_u16 str =
     (if str = [] \<or> \<not> isdigit (hd str) then None
      else
        (let (ul, _, endptr) = strtoul str
         in if ul > 65535 then None else Some (of_nat ul, length str - length endptr)))"

definition u_parse_u32 :: "string \<Rightarrow> (u32 \<times> nat) option" where
  "u_parse_u32 str =
     (if str = [] \<or> \<not> isdigit (hd str) then None
      else
        (let (ul, erange, endptr) = strtoul str
         in if erange \<or> ul > 4294967295 then None else Some (of_nat ul, length str - length endptr)))"

text \<open>
  \<open>inet_pton\<close> for IPv4: four decimal numbers up to 255 without leading zeros. \<open>octets\<close> are the finished
  ones, the last argument is the one being read.
\<close>

fun inet_pton4 :: "string \<Rightarrow> nat list \<Rightarrow> nat option \<Rightarrow> nat list option" where
  "inet_pton4 [] octets cur =
     (case cur of None \<Rightarrow> None | Some v \<Rightarrow> if length octets = 3 then Some (octets @ [v]) else None)"
| "inet_pton4 (c # s) octets cur =
     (case digit_in 10 c of
        Some d \<Rightarrow>
          (case cur of
             None \<Rightarrow> inet_pton4 s octets (Some d)
           | Some v \<Rightarrow> if v = 0 \<or> 10 * v + d > 255 then None else inet_pton4 s octets (Some (10 * v + d)))
      | None \<Rightarrow>
          (case cur of
             None \<Rightarrow> None
           | Some v \<Rightarrow> if c \<noteq> CHR ''.'' \<or> length octets = 3 then None else inet_pton4 s (octets @ [v]) None))"

fun addr_of :: "nat list \<Rightarrow> u32" where
  "addr_of [a, b, c, d] = get32 (of_nat a) (of_nat b) (of_nat c) (of_nat d)"
| "addr_of _ = 0"

definition u_parse_ip6addr :: "(string \<Rightarrow> bytes option) \<Rightarrow> string \<Rightarrow> (bytes \<times> nat) option" where
  "u_parse_ip6addr inet_pton6 str =
     (let len = strspn str '':0123456789abcdef''
      in if len = 0 \<or> len \<ge> 46 then None
         else map_option (\<lambda>addr. (addr, len)) (inet_pton6 (take len str)))"

definition u_parse_ip4addr :: "string \<Rightarrow> (u32 \<times> nat) option" where
  "u_parse_ip4addr str =
     (let len = strspn str ''.0123456789''
      in if len = 0 \<or> len \<ge> 16 then None
         else map_option (\<lambda>octets. (addr_of octets, len)) (inet_pton4 (take len str) [] None))"

text \<open>An address, a separator and a number of 8 bits: the common shape of the next three.\<close>

definition parse_with_u8 :: "(string \<Rightarrow> ('a \<times> nat) option) \<Rightarrow> char \<Rightarrow> string \<Rightarrow> ('a \<times> u8 \<times> nat) option" where
  "parse_with_u8 parse sep str =
     (case parse str of
        None \<Rightarrow> None
      | Some (addr, len) \<Rightarrow>
          (case drop len str of
             c # ptr \<Rightarrow>
               if c \<noteq> sep then None
               else map_option (\<lambda>(v, n). (addr, v, len + 1 + n)) (u_parse_u8 ptr)
           | [] \<Rightarrow> None))"

definition u_parse_ip6cidr :: "(string \<Rightarrow> bytes option) \<Rightarrow> string \<Rightarrow> (bytes \<times> u8 \<times> nat) option" where
  "u_parse_ip6cidr inet_pton6 str =
     (case parse_with_u8 (u_parse_ip6addr inet_pton6) CHR ''/'' str of
        None \<Rightarrow> None
      | Some (netp, plen, len) \<Rightarrow> if plen > 128 then None else Some (netp, plen, len))"

definition u_parse_ip4cidr :: "string \<Rightarrow> (u32 \<times> u8 \<times> nat) option" where
  "u_parse_ip4cidr str =
     (case parse_with_u8 u_parse_ip4addr CHR ''/'' str of
        None \<Rightarrow> None
      | Some (netp, plen, len) \<Rightarrow> if plen > 32 then None else Some (netp, plen, len))"

definition u_parse_ip4range :: "string \<Rightarrow> (u32 \<times> u8 \<times> nat) option" where
  "u_parse_ip4range str =
     (case parse_with_u8 u_parse_ip4addr CHR ''-'' str of
        None \<Rightarrow> None
      | Some (base_ip, hi, len) \<Rightarrow> if unat hi < unat (base_ip AND 0xff) then None else Some (base_ip, hi, len))"

text \<open>
  Reading random bytes. The outcomes of the calls of \<open>read\<close> are given; \<open>read\<close> returns at most the number of
  bytes asked for. \<open>Rand_more\<close> stands for a loop that needs another call.
\<close>

datatype read_res = Read_data bytes | Read_eintr | Read_err int
datatype rand_res = Rand_ok bytes | Rand_err int | Rand_more

fun u_randbuf :: "read_res list \<Rightarrow> nat \<Rightarrow> bytes \<Rightarrow> rand_res" where
  "u_randbuf rs buf_len u8buf =
     (if buf_len = 0 then Rand_ok u8buf
      else
        (case rs of
           [] \<Rightarrow> Rand_more
         | Read_eintr # rs \<Rightarrow> u_randbuf rs buf_len u8buf
         | Read_err errno # rs \<Rightarrow> Rand_err errno
         | Read_data d # rs \<Rightarrow>
             (let d = take buf_len d
              in if d = [] then Rand_err 0 else u_randbuf rs (buf_len - length d) (u8buf @ d))))"

declare u_randbuf.simps [simp del]

section \<open>Numbers\<close>

lemma u_parse_u8_dec:
  assumes "no_digit r" "n \<le> ULONG_MAX"
  shows "u_parse_u8 (dec n @ r) = (if n > 255 then None else Some (of_nat n, length (dec n)))"
  using strtoul_dec [OF assms] hd_dec [of n r] by (simp add: u_parse_u8_def)

section \<open>Addresses\<close>

lemma octet_bound: "octet n a \<le> 255"
proof -
  have "drop_bit n a AND 0xff \<le> 0xff" by (rule word_and_le1)
  then show ?thesis by (simp add: octet_def word_le_nat_alt)
qed

lemma octet_byte: "of_nat (octet n a) = (ucast (drop_bit n a) :: u8)"
proof -
  have "(0xff :: u32) = mask 8" by (simp add: mask_eq_exp_minus_1)
  then have "drop_bit n a AND 0xff = take_bit 8 (drop_bit n a)" by (simp add: take_bit_eq_mask)
  then show ?thesis unfolding octet_def by (intro bit_word_eqI) (auto simp: bit_simps)
qed

lemma addr_of_octets: "addr_of [octet 24 a, octet 16 a, octet 8 a, octet 0 a] = a"
  by (simp add: octet_byte get32_put32)

text \<open>A decimal number of at most 255 is read back, whatever has been read before.\<close>

lemma pton4_digits:
  assumes "\<And>c. c \<in> set ds \<Longrightarrow> isdigit c" "v \<noteq> 0"
    and "foldl (\<lambda>a c. 10 * a + the (digit_in 10 c)) v ds \<le> 255"
  shows "inet_pton4 (ds @ s) os (Some v) = inet_pton4 s os (Some (foldl (\<lambda>a c. 10 * a + the (digit_in 10 c)) v ds))"
  using assms
proof (induction ds arbitrary: v)
  case (Cons c ds)
  obtain d where d: "digit_in 10 c = Some d" using Cons.prems(1) [of c] by (auto simp: isdigit_digit_in)
  have mono: "w \<le> foldl (\<lambda>a c. 10 * a + the (digit_in 10 c)) w ds" for w
  proof (induction ds arbitrary: w)
    case (Cons x xs)
    from Cons.IH [of "10 * w + the (digit_in 10 x)"] show ?case by simp
  qed simp
  with Cons.prems(3) d have "10 * v + d \<le> 255" by (auto dest: order_trans [OF mono])
  with Cons d show ?case by simp
qed simp

lemma dec_leading: "0 < n \<Longrightarrow> \<exists>d. digit_in 10 (hd (dec n)) = Some d \<and> d \<noteq> 0"
proof (induction n rule: dec.induct)
  case (1 n)
  show ?case
  proof (cases "n < 10")
    case False
    with 1 have "\<exists>d. digit_in 10 (hd (dec (n div 10))) = Some d \<and> d \<noteq> 0" by simp
    with False show ?thesis by (subst dec.simps) simp
  qed (use 1 in \<open>simp add: dec.simps [of n] digit_in_chr\<close>)
qed

lemma pton4_dec:
  assumes "n \<le> 255"
  shows "inet_pton4 (dec n @ s) os None = inet_pton4 s os (Some n)"
proof (cases "n = 0")
  case True
  then show ?thesis by (simp add: dec.simps digit_in_chr)
next
  case False
  obtain c ds where cons: "dec n = c # ds" by (cases "dec n") auto
  with False obtain d where d: "digit_in 10 c = Some d" "d \<noteq> 0" using dec_leading [of n] by auto
  have val: "foldl (\<lambda>a c. 10 * a + the (digit_in 10 c)) d ds = n"
    using dec_value [of n] by (simp add: cons d(1))
  have digits: "isdigit x" if "x \<in> set ds" for x
    using that dec_digits [of x n] by (simp add: cons)
  have "inet_pton4 (dec n @ s) os None = inet_pton4 (ds @ s) os (Some d)"
    by (simp add: cons d(1))
  also have "\<dots> = inet_pton4 s os (Some n)"
    using pton4_digits [OF digits d(2), where s = s and os = os] val assms by simp
  finally show ?thesis .
qed

lemma pton4_dot: "length os < 3 \<Longrightarrow> inet_pton4 (CHR ''.'' # s) os (Some v) = inet_pton4 s (os @ [v]) None"
  by (simp add: digit_in_def)

lemma pton4_ntoa: "inet_pton4 (u_inet_ntoa a) [] None = Some [octet 24 a, octet 16 a, octet 8 a, octet 0 a]"
proof -
  have last: "inet_pton4 (dec n) os None = inet_pton4 [] os (Some n)" if "n \<le> 255" for n os
    using pton4_dec [OF that, of "[]"] by simp
  show ?thesis by (simp add: u_inet_ntoa_def pton4_dec pton4_dot last octet_bound del: inet_pton4.simps(2))
qed

lemma dec_length: "n \<le> 255 \<Longrightarrow> length (dec n) \<le> 3"
  by (subst dec.simps, subst dec.simps, subst dec.simps) simp

lemma ntoa_chars: "set (u_inet_ntoa a) \<subseteq> set ''.0123456789''"
proof -
  have "\<forall>n \<in> set [48..<58::nat]. char_of n \<in> set ''.0123456789''" by code_simp
  moreover have "of_char c \<in> set [48..<58::nat]" if "isdigit c" for c
    using that unfolding isdigit_def set_upt by auto
  ultimately have "c \<in> set ''.0123456789''" if "isdigit c" for c
    using that by (metis char_of_char)
  with dec_digits show ?thesis unfolding u_inet_ntoa_def by fastforce
qed

text \<open>What follows an address must not continue it.\<close>

abbreviation no_addr :: "string \<Rightarrow> bool" where
  "no_addr r \<equiv> r = [] \<or> hd r \<notin> set ''.0123456789''"

lemma ntoa_span:
  assumes "no_addr r"
  shows "strspn (u_inet_ntoa a @ r) ''.0123456789'' = length (u_inet_ntoa a)"
proof -
  have "takeWhile (\<lambda>c. c \<in> set ''.0123456789'') (u_inet_ntoa a @ r) = u_inet_ntoa a"
    using ntoa_chars [of a] assms by (intro takeWhile_all_append) blast+
  then show ?thesis by (simp only: strspn_def)
qed

lemma ntoa_length: "0 < length (u_inet_ntoa a)" "length (u_inet_ntoa a) < 16"
  using dec_length [OF octet_bound, of 24 a] dec_length [OF octet_bound, of 16 a]
    dec_length [OF octet_bound, of 8 a] dec_length [OF octet_bound, of 0 a]
  by (simp_all add: u_inet_ntoa_def)

lemma parse_ip4addr_ntoa: "no_addr r \<Longrightarrow> u_parse_ip4addr (u_inet_ntoa a @ r) = Some (a, length (u_inet_ntoa a))"
  using ntoa_length [of a] by (simp add: u_parse_ip4addr_def Let_def ntoa_span pton4_ntoa addr_of_octets del: addr_of.simps)

text \<open>
  C30: An IPv4 address that is printed and then parsed, in front of any text that does not continue it, comes back
  unchanged, and the parser reports exactly the length of what was printed.
\<close>

theorem ip4addr_print_parse:
  "r = [] \<or> hd r \<notin> set ''.0123456789'' \<Longrightarrow> u_parse_ip4addr (u_inet_ntoa a @ r) = Some (a, length (u_inet_ntoa a))"
  by (rule parse_ip4addr_ntoa)

theorem ip4addr_print_parse_witness: "u_parse_ip4addr (u_inet_ntoa 0xC0000201 @ ''/24'') = Some (0xC0000201, 9)"
proof -
  have "length (u_inet_ntoa 0xC0000201) = 9"
    by (simp add: u_inet_ntoa_def octet_def dec.simps)
  with ip4addr_print_parse [of "''/24''" "0xC0000201"] show ?thesis by simp
qed

lemma parse_ip4cidr_print:
  assumes "no_digit r" "n \<le> ULONG_MAX"
  shows "u_parse_ip4cidr (u_inet_ntoa a @ ''/'' @ dec n @ r) =
    (if n \<le> 32 then Some (a, of_nat n, length (u_inet_ntoa a) + 1 + length (dec n)) else None)"
proof -
  have p: "u_parse_ip4addr (u_inet_ntoa a @ CHR ''/'' # dec n @ r) = Some (a, length (u_inet_ntoa a))"
    by (rule parse_ip4addr_ntoa) simp
  have "(of_nat n :: u8) > 32 \<longleftrightarrow> 32 < n" if "n \<le> 255"
    using that by (simp add: word_less_nat_alt unat_of_nat_small)
  then show ?thesis
    by (simp add: u_parse_ip4cidr_def parse_with_u8_def p u_parse_u8_dec [OF assms])
qed

end
