(* ===== verification/Iprange.thy ===== *)
theory Iprange
  imports Utils
begin

text \<open>
  The ranges of client addresses of \<open>micro-bngd/iprange.c\<close>: parsing of the configuration entries, loading,
  and the checks of an address against the ranges. \<open>mem\<close> says whether the allocation for an entry succeeds.
\<close>

section \<open>Definitions\<close>

record iprange_t =
  ir_begin :: u32
  ir_end :: u32

datatype parse_res = Range_error | Range_disable | Range_new iprange_t

definition add_range :: "bool \<Rightarrow> string \<Rightarrow> u32 \<Rightarrow> u32 \<Rightarrow> parse_res" where
  "add_range mem ptr ip_min ip_max =
     (if u_parse_endstr ptr = 0 then Range_error
      else if ip_min = 0 \<and> ip_max = 0xffffffff then Range_disable
      else if \<not> mem then Range_error
      else Range_new \<lparr>ir_begin = ip_min, ir_end = ip_max\<rparr>)"

definition cidr_mask :: "u8 \<Rightarrow> u32" where
  "cidr_mask suffix = ucast (push_bit (32 - unat suffix) (0xffffffff :: u64))"

definition parse_iprange :: "bool \<Rightarrow> string \<Rightarrow> parse_res" where
  "parse_iprange mem str =
     (if str = ''disable'' then Range_disable
      else
        (case u_parse_ip4cidr str of
           Some (base_addr, suffix, len) \<Rightarrow>
             (let m = cidr_mask suffix
              in add_range mem (drop len str) (base_addr AND m) (base_addr OR NOT m))
         | None \<Rightarrow>
             (case u_parse_ip4range str of
                Some (base_addr, suffix, len) \<Rightarrow>
                  add_range mem (drop len str) base_addr ((base_addr AND 0xffffff00) OR ucast suffix)
              | None \<Rightarrow> Range_error)))"

fun load_entries :: "(string \<Rightarrow> bool) \<Rightarrow> string list \<Rightarrow> iprange_t list \<Rightarrow> iprange_t list \<times> bool" where
  "load_entries mem [] rs = (rs, False)"
| "load_entries mem (opt # opts) rs =
     (case parse_iprange (mem opt) opt of
        Range_error \<Rightarrow> load_entries mem opts rs
      | Range_disable \<Rightarrow> ([], True)
      | Range_new r \<Rightarrow> load_entries mem opts (rs @ [r]))"

definition load_ranges :: "(string \<Rightarrow> bool) \<Rightarrow> string list option \<Rightarrow> iprange_t list \<times> bool" where
  "load_ranges mem sect = (case sect of None \<Rightarrow> ([], False) | Some opts \<Rightarrow> load_entries mem opts [])"

record iprange_state =
  conf_disable :: bool
  client_ranges :: "iprange_t list"

datatype iprange_status = IPRANGE_DISABLED | IPRANGE_NO_RANGE | IPRANGE_ACTIVE

definition check_range :: "iprange_t list \<Rightarrow> u32 \<Rightarrow> int" where
  "check_range rs a = (if \<exists>r \<in> set rs. ir_begin r \<le> a \<and> a \<le> ir_end r then 0 else -1)"

definition iprange_check_activation :: "iprange_state \<Rightarrow> iprange_status" where
  "iprange_check_activation st =
     (if conf_disable st then IPRANGE_DISABLED
      else if client_ranges st = [] then IPRANGE_NO_RANGE else IPRANGE_ACTIVE)"

definition iprange_client_check :: "iprange_state \<Rightarrow> u32 \<Rightarrow> int" where
  "iprange_client_check st a = (if conf_disable st then 0 else check_range (client_ranges st) a)"

definition iprange_tunnel_check :: "iprange_state \<Rightarrow> u32 \<Rightarrow> int" where
  "iprange_tunnel_check st a = (if conf_disable st then 0 else of_bool (check_range (client_ranges st) a = 0))"

definition iprange_load_config :: "(string \<Rightarrow> bool) \<Rightarrow> string list option \<Rightarrow> iprange_state" where
  "iprange_load_config mem sect =
     (let (new_ranges, disable) = load_ranges mem sect
      in \<lparr>conf_disable = disable, client_ranges = new_ranges\<rparr>)"

section \<open>Prefixes as intervals\<close>

lemma cidr_mask_NOT:
  assumes "unat n \<le> 32"
  shows "cidr_mask n = NOT (mask (32 - unat n))"
proof -
  have m: "(0xffffffff :: u64) = mask 32" by (simp add: mask_eq_exp_minus_1)
  have b: "bit (0xffffffff :: u64) i \<longleftrightarrow> i < 32" for i
    unfolding m by (simp only: bit_mask_iff) auto
  show ?thesis
  proof (rule bit_word_eqI)
    fix i assume "i < LENGTH(32)"
    then show "bit (cidr_mask n) i = bit (NOT (mask (32 - unat n)) :: u32) i"
      using assms unfolding cidr_mask_def bit_unsigned_iff bit_push_bit_iff b bit_not_iff bit_mask_iff by auto
  qed
qed

lemma drop_bit_mono: "(a :: u32) \<le> b \<Longrightarrow> drop_bit k a \<le> drop_bit k b"
  by (simp add: word_le_nat_alt unat_drop_bit_eq) (simp add: drop_bit_eq_div div_le_mono)

text \<open>The addresses between the bounds of a network are those that share its prefix.\<close>

lemma prefix_interval:
  fixes a x :: u32
  shows "a AND NOT (mask k) \<le> x \<and> x \<le> a OR mask k \<longleftrightarrow> drop_bit k x = drop_bit k a"
proof
  have eq: "drop_bit k (a AND NOT (mask k)) = drop_bit k a" "drop_bit k (a OR mask k) = drop_bit k a"
    by (rule bit_word_eqI; auto simp: bit_simps dest: bit_imp_le_length)+
  assume "a AND NOT (mask k) \<le> x \<and> x \<le> a OR mask k"
  then show "drop_bit k x = drop_bit k a"
    using drop_bit_mono [of "a AND NOT (mask k)" x k] drop_bit_mono [of x "a OR mask k" k] eq by simp
next
  assume eq: "drop_bit k x = drop_bit k a"
  have bits: "bit x n = bit a n" if "k \<le> n" for n
  proof -
    have "bit (drop_bit k x) (n - k) = bit (drop_bit k a) (n - k)" by (simp add: eq)
    with that show ?thesis by (simp add: bit_drop_bit_eq)
  qed
  have "a AND NOT (mask k) = x AND NOT (mask k)" "a OR mask k = x OR mask k"
    by (rule bit_word_eqI; auto simp: bit_simps bits)+
  then show "a AND NOT (mask k) \<le> x \<and> x \<le> a OR mask k"
    by (simp add: word_and_le2 le_word_or2)
qed

section \<open>Loading a configuration\<close>

text \<open>A network as the administrator writes it, and its addresses.\<close>

definition cidr :: "u32 \<times> nat \<Rightarrow> string" where
  "cidr = (\<lambda>(net, n). u_inet_ntoa net @ ''/'' @ dec n)"

definition in_net :: "u32 \<Rightarrow> u32 \<times> nat \<Rightarrow> bool" where
  "in_net a = (\<lambda>(net, n). drop_bit (32 - n) a = drop_bit (32 - n) net)"

definition accepted :: "iprange_t list \<times> bool \<Rightarrow> u32 \<Rightarrow> bool" where
  "accepted = (\<lambda>(rs, disable) a. disable \<or> (\<exists>r \<in> set rs. ir_begin r \<le> a \<and> a \<le> ir_end r))"

lemma cidr_not_disable: "cidr (net, n) \<noteq> ''disable''"
proof -
  have "isdigit (hd (cidr (net, n)))" using hd_dec by (simp add: cidr_def u_inet_ntoa_def)
  then show ?thesis by (auto simp: isdigit_def)
qed

lemma parse_cidr:
  assumes "n \<le> 32"
  shows "parse_iprange True (cidr (net, n)) =
    (let k = 32 - n; lo = net AND NOT (mask k); hi = net OR mask k
     in if lo = 0 \<and> hi = 0xffffffff then Range_disable else Range_new \<lparr>ir_begin = lo, ir_end = hi\<rparr>)"
proof -
  have n: "unat (of_nat n :: u8) = n" using assms by (intro unat_of_nat_small) simp
  have p: "u_parse_ip4cidr (cidr (net, n)) = Some (net, of_nat n, length (cidr (net, n)))"
    using parse_ip4cidr_print [of "[]" n net] assms by (simp add: cidr_def)
  have "cidr_mask (of_nat n) = NOT (mask (32 - n))"
    using cidr_mask_NOT [of "of_nat n"] assms n by simp
  then show ?thesis
    using cidr_not_disable by (simp add: parse_iprange_def p add_range_def u_parse_endstr_def strspn_def Let_def)
qed

lemma load_accepts:
  assumes "\<forall>(net, n) \<in> set nets. n \<le> 32"
  shows "accepted (load_entries (\<lambda>_. True) (map cidr nets) rs) a \<longleftrightarrow> accepted (rs, False) a \<or> (\<exists>e \<in> set nets. in_net a e)"
  using assms
proof (induction nets arbitrary: rs)
  case (Cons e nets)
  obtain net n where e: "e = (net, n)" by fastforce
  let ?lo = "net AND NOT (mask (32 - n))" and ?hi = "net OR mask (32 - n)"
  have n: "n \<le> 32" using Cons.prems e by auto
  have inside: "in_net a e \<longleftrightarrow> ?lo \<le> a \<and> a \<le> ?hi" by (simp add: in_net_def e prefix_interval)
  show ?case
  proof (cases "?lo = 0 \<and> ?hi = 0xffffffff")
    case True
    have "a \<le> 0xffffffff" using unat_u32_less [of a] by (simp add: word_le_nat_alt)
    with True inside have "in_net a e" by simp
    with True show ?thesis by (auto simp: parse_cidr [OF n] e accepted_def Let_def)
  next
    case False
    then show ?thesis
      using Cons.IH [of "rs @ [\<lparr>ir_begin = ?lo, ir_end = ?hi\<rparr>]"] Cons.prems inside e
      by (auto simp: parse_cidr [OF n] accepted_def Let_def)
  qed
qed (simp add: accepted_def)

text \<open>
  C31: The client ranges do what the administrator writes. After loading a list of networks in CIDR notation, an
  address passes the check exactly when it shares its prefix with one of the networks; a network of length 0,
  which switches the check off, is no exception.
\<close>

theorem iprange_accepts_networks:
  assumes "\<forall>(net, n) \<in> set nets. n \<le> 32"
  shows "iprange_client_check (iprange_load_config (\<lambda>_. True) (Some (map cidr nets))) a = 0 \<longleftrightarrow>
    (\<exists>(net, n) \<in> set nets. drop_bit (32 - n) a = drop_bit (32 - n) net)"
  using load_accepts [OF assms, of "[]" a]
  by (auto simp: iprange_client_check_def iprange_load_config_def load_ranges_def check_range_def accepted_def in_net_def
      split: prod.splits if_splits)

theorem iprange_accepts_networks_witness:
  "iprange_client_check (iprange_load_config (\<lambda>_. True) (Some (map cidr [(0xC0000200, 24), (0x0A000000, 8)]))) 0x0A0B0C0D = 0"
proof -
  have "iprange_client_check (iprange_load_config (\<lambda>_. True) (Some (map cidr [(0xC0000200, 24), (0x0A000000, 8)]))) 0x0A0B0C0D = 0 \<longleftrightarrow>
    (\<exists>(net, n) \<in> set [(0xC0000200, 24), (0x0A000000, 8)]. drop_bit (32 - n) 0x0A0B0C0D = (drop_bit (32 - n) net :: u32))"
    by (rule iprange_accepts_networks) simp
  then show ?thesis by simp
qed

end
