(* ===== verification/Connlimit.thy ===== *)
theory Connlimit
  imports C_String
begin

text \<open>
  The limit on connection attempts per peer of \<open>micro-bngd/extra/connlimit.c\<close>: the list of peers seen
  recently, the check that every control protocol calls before it accepts a connection, and its
  configuration.
\<close>

section \<open>Definitions\<close>

text \<open>A time of the monotonic clock: seconds and nanoseconds.\<close>

record timespec =
  tv_sec :: int
  tv_nsec :: int

record item =
  it_key :: u64
  it_ts :: timespec
  it_count :: int

record climit_conf =
  conf_burst :: int
  conf_burst_timeout :: int
  conf_limit_timeout :: int

text \<open>Integer division of C rounds towards zero.\<close>

definition c_div :: "int \<Rightarrow> int \<Rightarrow> int" where
  "c_div a b = (if (a < 0) = (b < 0) then \<bar>a\<bar> div \<bar>b\<bar> else - (\<bar>a\<bar> div \<bar>b\<bar>))"

definition age :: "timespec \<Rightarrow> timespec \<Rightarrow> u32" where
  "age now ts = of_int ((tv_sec now - tv_sec ts) * 1000 + c_div (tv_nsec now - tv_nsec ts) 1000000)"

text \<open>The walk through the list; \<open>kept\<close> are the items passed, 1 means that the key was not found.\<close>

fun connlimit_walk :: "climit_conf \<Rightarrow> timespec \<Rightarrow> u64 \<Rightarrow> item list \<Rightarrow> item list \<Rightarrow> int \<times> item list" where
  "connlimit_walk cf ts key kept [] = (1, kept)"
| "connlimit_walk cf ts key kept (it # items) =
     (let d = age ts (it_ts it)
      in if it_key it = key then
           if d \<ge> of_int (conf_burst_timeout cf) then
             (0, it\<lparr>it_ts := ts, it_count := 0\<rparr> # kept @ items)
           else
             (let it' = it\<lparr>it_count := int32 (it_count it + 1)\<rparr>
              in if it_count it' \<ge> conf_burst cf then
                   if d \<ge> of_int (conf_limit_timeout cf) then (0, it'\<lparr>it_ts := ts\<rparr> # kept @ items)
                   else (-1, kept @ it' # items)
                 else (0, kept @ it' # items))
         else if d > of_int (conf_burst_timeout cf) then connlimit_walk cf ts key kept items
         else connlimit_walk cf ts key (kept @ [it]) items)"

definition connlimit_check :: "climit_conf \<Rightarrow> timespec \<Rightarrow> u64 \<Rightarrow> item list \<Rightarrow> int \<times> item list" where
  "connlimit_check cf ts key items =
     (let (r, items') = connlimit_walk cf ts key [] items
      in if r = 1 then (0, \<lparr>it_key = key, it_ts = ts, it_count = 0\<rparr> # items') else (r, items'))"

text \<open>The limit is written as a number, or a number of connections per seconds, minutes or hours.\<close>

definition parse_limit :: "string \<Rightarrow> (int \<times> int) option" where
  "parse_limit opt =
     (let (limit, _, endptr) = strtol (number 10) opt; limit = int32 limit
      in case endptr of
           [] \<Rightarrow> Some (limit, 1)
         | c # opt \<Rightarrow>
             if c \<noteq> CHR ''/'' then None
             else
               (let (t, _, endptr) = strtol (number 10) opt;
                    t = (if endptr = opt then 1 else int32 t)
                in case endptr of
                     [] \<Rightarrow> None
                   | u # _ \<Rightarrow>
                       if u = CHR ''s'' then Some (limit, t)
                       else if u = CHR ''m'' then Some (limit, int32 (t * 60))
                       else if u = CHR ''h'' then Some (limit, int32 (t * 3600))
                       else None))"

text \<open>\<open>None\<close> is a division by zero, which ends the process.\<close>

definition load_limits :: "(string \<Rightarrow> string option) \<Rightarrow> climit_conf \<Rightarrow> climit_conf option" where
  "load_limits opt cf =
     (let rest = (\<lambda>cf. Some (cf\<lparr>conf_burst := (case opt ''burst'' of None \<Rightarrow> conf_burst cf | Some s \<Rightarrow> atoi s),
                conf_burst_timeout := (case opt ''timeout'' of None \<Rightarrow> conf_burst_timeout cf
                  | Some s \<Rightarrow> int32 (atoi s * 1000))\<rparr>))
      in case opt ''limit'' of
           None \<Rightarrow> rest cf
         | Some s \<Rightarrow>
             (case parse_limit s of
                None \<Rightarrow> Some cf
              | Some (n, t) \<Rightarrow>
                  if n = 0 then None else rest (cf\<lparr>conf_limit_timeout := c_div (int32 (t * 1000)) n\<rparr>)))"

section \<open>One peer at a time\<close>

text \<open>What the list says about one key.\<close>

definition lookup :: "u64 \<Rightarrow> item list \<Rightarrow> item option" where
  "lookup k items = find (\<lambda>it. it_key it = k) items"

definition keys_ok :: "item list \<Rightarrow> bool" where
  "keys_ok items \<longleftrightarrow> distinct (map it_key items)"

lemma lookup_Nil [simp]: "lookup k [] = None"
  by (simp add: lookup_def)

lemma lookup_Cons [simp]: "lookup k (it # items) = (if it_key it = k then Some it else lookup k items)"
  by (simp add: lookup_def)

lemma lookup_append: "lookup k (xs @ ys) = (case lookup k xs of None \<Rightarrow> lookup k ys | Some it \<Rightarrow> Some it)"
  by (induction xs) auto

lemma lookup_None: "lookup k items = None \<longleftrightarrow> k \<notin> it_key ` set items"
  by (induction items) auto

text \<open>The verdict on a peer, from what the list says about it.\<close>

definition verdict :: "climit_conf \<Rightarrow> timespec \<Rightarrow> item option \<Rightarrow> int \<times> timespec \<times> int" where
  "verdict cf ts e =
     (case e of
        None \<Rightarrow> (0, ts, 0)
      | Some it \<Rightarrow>
          if age ts (it_ts it) \<ge> of_int (conf_burst_timeout cf) then (0, ts, 0)
          else
            (let n = int32 (it_count it + 1)
             in if n \<ge> conf_burst cf then
                  if age ts (it_ts it) \<ge> of_int (conf_limit_timeout cf) then (0, ts, n) else (-1, it_ts it, n)
                else (0, it_ts it, n)))"

text \<open>
  The walk decides by the peer's own item, and forgets another peer only when its item is older than the
  burst timeout.
\<close>

definition entry :: "u64 \<Rightarrow> timespec \<times> int \<Rightarrow> item" where
  "entry k = (\<lambda>(ts, n). \<lparr>it_key = k, it_ts = ts, it_count = n\<rparr>)"

definition forgets :: "climit_conf \<Rightarrow> timespec \<Rightarrow> item option \<Rightarrow> item option \<Rightarrow> bool" where
  "forgets cf ts e e' \<longleftrightarrow>
     e' = e \<or> e' = None \<and> (\<exists>it. e = Some it \<and> age ts (it_ts it) > of_int (conf_burst_timeout cf))"

lemma walk_keys:
  assumes "connlimit_walk cf ts key kept items = (r, items')" "keys_ok (kept @ items)"
  shows "keys_ok items' \<and> it_key ` set items' \<subseteq> it_key ` set (kept @ items)"
  using assms
proof (induction cf ts key kept items arbitrary: r items' rule: connlimit_walk.induct)
  case (2 cf ts key kept it items)
  have "keys_ok (kept @ items)" using "2.prems"(2) by (auto simp: keys_ok_def)
  with 2 show ?case
    by (auto simp: Let_def keys_ok_def split: if_splits)
qed auto

lemma walk_self:
  assumes "connlimit_walk cf ts key kept items = (r, items')" "lookup key kept = None"
  shows "case lookup key items of
      None \<Rightarrow> r = 1 \<and> lookup key items' = None
    | Some it \<Rightarrow> r = fst (verdict cf ts (Some it)) \<and> lookup key items' = Some (entry key (snd (verdict cf ts (Some it))))"
  using assms
proof (induction cf ts key kept items arbitrary: r items' rule: connlimit_walk.induct)
  case (2 cf ts key kept it items)
  show ?case
  proof (cases "it_key it = key")
    case True
    with 2(3,4) show ?thesis
      by (cases it) (auto simp: Let_def verdict_def entry_def lookup_append split: if_splits)
  next
    case False
    then have "lookup key (kept @ [it]) = None" using 2(4) by (simp add: lookup_append)
    with False 2 show ?thesis by (auto simp: Let_def split: if_splits)
  qed
qed auto

lemma walk_other:
  assumes "connlimit_walk cf ts key kept items = (r, items')" "keys_ok (kept @ items)" "k \<noteq> key"
  shows "forgets cf ts (lookup k (kept @ items)) (lookup k items')"
  using assms
proof (induction cf ts key kept items arbitrary: r items' rule: connlimit_walk.induct)
  case (2 cf ts key kept it items)
  have ok: "keys_ok (kept @ items)" using "2.prems"(2) by (auto simp: keys_ok_def)
  have fresh: "lookup (it_key it) (kept @ items) = None"
    using "2.prems"(2) by (auto simp: keys_ok_def lookup_None)
  show ?case
  proof (cases "it_key it = key")
    case True
    with 2(3,5) show ?thesis
      by (auto simp: Let_def forgets_def lookup_append split: if_splits option.splits)
  next
    case False
    show ?thesis
    proof (cases "age ts (it_ts it) > of_int (conf_burst_timeout cf)")
      case old: True
      have walk: "connlimit_walk cf ts key kept items = (r, items')" using 2(3) False old by simp
      have IH: "forgets cf ts (lookup k (kept @ items)) (lookup k items')"
        using 2(1) [OF refl False old walk ok 2(5)] .
      show ?thesis
      proof (cases "it_key it = k")
        case True
        with IH fresh have "lookup k items' = None" by (auto simp: forgets_def)
        moreover have "lookup k (kept @ it # items) = Some it"
          using True fresh by (auto simp: lookup_append split: option.splits)
        ultimately show ?thesis using old by (auto simp: forgets_def)
      next
        case other: False
        then have "lookup k (kept @ it # items) = lookup k (kept @ items)"
          by (simp add: lookup_append split: option.split)
        with IH show ?thesis by simp
      qed
    next
      case young: False
      have walk: "connlimit_walk cf ts key (kept @ [it]) items = (r, items')" using 2(3) False young by simp
      show ?thesis using 2(2) [OF refl False young walk] 2(4,5) by simp
    qed
  qed
qed (auto simp: forgets_def)

text \<open>The whole check, seen by one peer.\<close>

lemma verdict_neq_1 [simp]: "fst (verdict cf ts e) \<noteq> 1"
  by (auto simp: verdict_def Let_def split: option.splits)

lemma check_keys: "connlimit_check cf ts key items = (r, items') \<Longrightarrow> keys_ok items \<Longrightarrow> keys_ok items'"
  using walk_keys [of cf ts key "[]" items] walk_self [of cf ts key "[]" items]
  by (cases "lookup key items")
    (auto simp: connlimit_check_def keys_ok_def lookup_None split: prod.splits if_splits)

lemma check_self:
  assumes "connlimit_check cf ts key items = (r, items')"
  shows "r = fst (verdict cf ts (lookup key items)) \<and>
    lookup key items' = Some (entry key (snd (verdict cf ts (lookup key items))))"
proof -
  obtain r1 l1 where w: "connlimit_walk cf ts key [] items = (r1, l1)" by fastforce
  show ?thesis using assms walk_self [OF w]
    by (cases "lookup key items") (auto simp: connlimit_check_def w verdict_def [of _ _ None] entry_def)
qed

lemma check_other:
  assumes "connlimit_check cf ts key items = (r, items')" "keys_ok items" "k \<noteq> key"
  shows "forgets cf ts (lookup k items) (lookup k items')"
proof -
  obtain r1 l1 where w: "connlimit_walk cf ts key [] items = (r1, l1)" by fastforce
  show ?thesis using assms walk_other [OF w _ assms(3)] by (auto simp: connlimit_check_def w split: if_splits)
qed

section \<open>The clock\<close>

text \<open>The time in nanoseconds, and the difference in milliseconds that the code computes from it.\<close>

definition ns :: "timespec \<Rightarrow> int" where
  "ns ts = tv_sec ts * 1000000000 + tv_nsec ts"

definition ts_ok :: "timespec \<Rightarrow> bool" where
  "ts_ok ts \<longleftrightarrow> 0 \<le> tv_nsec ts \<and> tv_nsec ts < 1000000000"

lemma c_div_million:
  "c_div a 1000000 * 1000000 < a + 1000000" "a - 1000000 < c_div a 1000000 * 1000000"
  by (auto simp: c_div_def)

lemma age_ns:
  assumes "ns ts \<le> ns now" "uint (age now ts) \<ge> d"
  shows "(d - 1) * 1000000 \<le> ns now - ns ts"
proof -
  define v where "v = (tv_sec now - tv_sec ts) * 1000 + c_div (tv_nsec now - tv_nsec ts) 1000000"
  have v: "v * 1000000 < ns now - ns ts + 1000000" "ns now - ns ts - 1000000 < v * 1000000"
    using c_div_million [of "tv_nsec now - tv_nsec ts"] by (simp_all add: v_def ns_def algebra_simps)
  then have "0 \<le> v" using assms(1) by linarith
  moreover have "age now ts = word_of_int v" by (simp only: age_def v_def)
  ultimately have "uint (age now ts) \<le> v" by (simp add: uint_word_of_int zmod_le_nonneg_dividend)
  then show ?thesis using v assms(2) by (simp add: algebra_simps)
qed

section \<open>How many connections a peer gets\<close>

text \<open>The attempts in the order of the checks, each with its time, and those of one peer that pass.\<close>

fun passed :: "climit_conf \<Rightarrow> u64 \<Rightarrow> item list \<Rightarrow> (timespec \<times> u64) list \<Rightarrow> int" where
  "passed cf k items [] = 0"
| "passed cf k items ((ts, key) # evs) =
     (let (r, items') = connlimit_check cf ts key items
      in (if key = k \<and> r = 0 then 1 else 0) + passed cf k items' evs)"

definition conf_ok :: "climit_conf \<Rightarrow> bool" where
  "conf_ok cf \<longleftrightarrow> 1 \<le> conf_burst cf \<and> 0 \<le> conf_burst_timeout cf \<and> conf_burst_timeout cf < 2 ^ 31 \<and>
     0 \<le> conf_limit_timeout cf \<and> conf_limit_timeout cf < 2 ^ 31"

definition clock_ok :: "int \<Rightarrow> int \<Rightarrow> (timespec \<times> u64) list \<Rightarrow> bool" where
  "clock_ok t0 t1 evs \<longleftrightarrow> t0 \<le> t1 \<and> sorted (map (ns \<circ> fst) evs) \<and>
     (\<forall>(ts, _) \<in> set evs. ts_ok ts \<and> t0 \<le> ns ts \<and> ns ts \<le> t1)"

lemma sorted_between:
  assumes "sorted (map f xs)" "x \<in> set xs"
  shows "f (hd xs) \<le> f x \<and> f x \<le> f (last xs)"
proof -
  obtain i where i: "i < length xs" "x = xs ! i" using assms(2) by (auto simp: in_set_conv_nth)
  then have "xs \<noteq> []" by auto
  moreover have "f (xs ! 0) \<le> f (xs ! i)" "f (xs ! i) \<le> f (xs ! (length xs - 1))"
    using sorted_nth_mono [OF assms(1)] i(1) by fastforce+
  ultimately show ?thesis by (simp add: hd_conv_nth last_conv_nth i(2))
qed

lemma clock_ok_Cons:
  "clock_ok t0 t1 ((ts, k) # evs) \<Longrightarrow> clock_ok (ns ts) t1 evs \<and> clock_ok t0 t1 evs \<and> ts_ok ts \<and> t0 \<le> ns ts \<and> ns ts \<le> t1"
  by (auto simp: clock_ok_def)

text \<open>
  \<open>within cf t n m\<close>: at most \<open>m\<close> connections fit into \<open>t\<close> nanoseconds, when \<open>n\<close> are free of any wait. Every
  further \<open>burst\<close> connections take a burst timeout, every other one a limit timeout.
\<close>

definition within :: "climit_conf \<Rightarrow> int \<Rightarrow> int \<Rightarrow> int \<Rightarrow> bool" where
  "within cf t n m \<longleftrightarrow> (\<exists>R W :: nat. m \<le> n + conf_burst cf * int R + int W \<and>
     (int R * (conf_burst_timeout cf - 1) + int W * (conf_limit_timeout cf - 1)) * 1000000 \<le> t)"

lemma within_refl: "0 \<le> t \<Longrightarrow> m \<le> n \<Longrightarrow> within cf t n m"
  unfolding within_def by (rule exI [of _ 0], rule exI [of _ 0]) simp

lemma within_more:
  fixes r w :: nat
  assumes "within cf t n m"
    and "(int r * (conf_burst_timeout cf - 1) + int w * (conf_limit_timeout cf - 1)) * 1000000 \<le> t' - t"
    and "m' - m \<le> n' - n + conf_burst cf * int r + int w"
  shows "within cf t' n' m'"
proof -
  obtain R W :: nat where "m \<le> n + conf_burst cf * int R + int W"
    "(int R * (conf_burst_timeout cf - 1) + int W * (conf_limit_timeout cf - 1)) * 1000000 \<le> t"
    using assms(1) by (auto simp: within_def)
  with assms(2,3) show ?thesis unfolding within_def
    by (intro exI [of _ "R + r"] exI [of _ "W + w"]) (simp add: algebra_simps)
qed

lemma within_mono: "within cf t n m \<Longrightarrow> t \<le> t' \<Longrightarrow> m' - m \<le> n' - n \<Longrightarrow> within cf t' n' m'"
  by (rule within_more [where r = 0 and w = 0]) auto

lemma within_burst:
  "within cf t n m \<Longrightarrow> (conf_burst_timeout cf - 1) * 1000000 \<le> t' - t \<Longrightarrow> m' - m \<le> n' - n + conf_burst cf
    \<Longrightarrow> within cf t' n' m'"
  by (rule within_more [where r = 1 and w = 0]) auto

lemma within_wait:
  "within cf t n m \<Longrightarrow> (conf_limit_timeout cf - 1) * 1000000 \<le> t' - t \<Longrightarrow> m' - m \<le> n' - n + 1 \<Longrightarrow> within cf t' n' m'"
  by (rule within_more [where r = 0 and w = 1]) auto

lemma conf_timeouts:
  assumes "conf_ok cf"
  shows "uint (of_int (conf_burst_timeout cf) :: u32) = conf_burst_timeout cf"
    "uint (of_int (conf_limit_timeout cf) :: u32) = conf_limit_timeout cf"
  using assms by (simp_all add: conf_ok_def uint_word_of_int)

text \<open>The connections that the peer's item still allows without a wait.\<close>

definition free :: "climit_conf \<Rightarrow> item option \<Rightarrow> int" where
  "free cf e = (case e of None \<Rightarrow> conf_burst cf | Some it \<Rightarrow> max 0 (conf_burst cf - 1 - it_count it))"

definition item_ok :: "int \<Rightarrow> nat \<Rightarrow> item option \<Rightarrow> bool" where
  "item_ok t0 n e \<longleftrightarrow> (case e of None \<Rightarrow> True
     | Some it \<Rightarrow> ts_ok (it_ts it) \<and> ns (it_ts it) = t0 \<and> 0 \<le> it_count it \<and> it_count it + int n < 2 ^ 31)"

lemma verdict_within:
  assumes cf: "conf_ok cf" and e: "item_ok t0 (Suc n) e" and t: "t0 \<le> ns ts" "ts_ok ts" and n: "n < 2 ^ 31"
    and v: "verdict cf ts e = (r, ts', c)"
  shows "item_ok (ns ts') n (Some (entry k (ts', c)))" "ns ts' = ns ts \<or> ns ts' = t0"
    and "within cf (t1 - ns ts') (free cf (Some (entry k (ts', c)))) m \<Longrightarrow>
      within cf (t1 - t0) (free cf e) ((if r = 0 then 1 else 0) + m)"
proof -
  have *: "item_ok (ns ts') n (Some (entry k (ts', c))) \<and> (ns ts' = ns ts \<or> ns ts' = t0) \<and>
    (within cf (t1 - ns ts') (free cf (Some (entry k (ts', c)))) m \<longrightarrow>
      within cf (t1 - t0) (free cf e) ((if r = 0 then 1 else 0) + m))"
  proof (cases e)
    case None
    with v have "r = 0" "ts' = ts" "c = 0" by (auto simp: verdict_def)
    with None n t cf show ?thesis
      by - (intro conjI impI; (erule within_mono)?; auto simp: item_ok_def free_def entry_def conf_ok_def)
  next
    case (Some it)
    with e have it: "ts_ok (it_ts it)" "ns (it_ts it) = t0" "0 \<le> it_count it" "it_count it + 1 + int n < 2 ^ 31"
      by (auto simp: item_ok_def)
    then have c: "int32 (it_count it + 1) = it_count it + 1" by (intro int32_id) auto
    have "ns (it_ts it) \<le> ns ts" using it t by simp
    note age = age_ns [OF this, unfolded it(2)]
    consider (burst) "age ts (it_ts it) \<ge> of_int (conf_burst_timeout cf)" "(r, ts', c) = (0, ts, 0)"
      | (wait) "age ts (it_ts it) \<ge> of_int (conf_limit_timeout cf)" "(r, ts', c) = (0, ts, it_count it + 1)"
          "conf_burst cf \<le> it_count it + 1"
      | (drop) "(r, ts', c) = (-1, it_ts it, it_count it + 1)"
      | (free) "(r, ts', c) = (0, it_ts it, it_count it + 1)" "it_count it + 1 < conf_burst cf"
    proof -
      have "(r, ts', c) =
        (if age ts (it_ts it) \<ge> of_int (conf_burst_timeout cf) then (0, ts, 0)
         else if it_count it + 1 \<ge> conf_burst cf then
           if age ts (it_ts it) \<ge> of_int (conf_limit_timeout cf) then (0, ts, it_count it + 1)
           else (-1, it_ts it, it_count it + 1)
         else (0, it_ts it, it_count it + 1))"
        unfolding v [symmetric] Some verdict_def by (simp only: option.case Let_def c)
      then show thesis by (metis that linorder_not_le)
    qed
    then show ?thesis
    proof cases
      case burst
      then have "(conf_burst_timeout cf - 1) * 1000000 \<le> ns ts - t0"
        by (intro age) (simp add: word_le_def conf_timeouts [OF cf])
      with burst Some t n cf show ?thesis
        by - (intro conjI impI; (erule within_burst)?; auto simp: item_ok_def free_def entry_def conf_ok_def)
    next
      case wait
      then have "(conf_limit_timeout cf - 1) * 1000000 \<le> ns ts - t0"
        by (intro age) (simp add: word_le_def conf_timeouts [OF cf])
      with wait Some t it show ?thesis
        by - (intro conjI impI; (erule within_wait)?; auto simp: item_ok_def free_def entry_def)
    next
      case drop
      with Some it show ?thesis by - (intro conjI impI; (erule within_mono)?; auto simp: item_ok_def free_def entry_def)
    next
      case free
      with Some it show ?thesis by - (intro conjI impI; (erule within_mono)?; auto simp: item_ok_def free_def entry_def)
    qed
  qed
  then show "item_ok (ns ts') n (Some (entry k (ts', c)))" "ns ts' = ns ts \<or> ns ts' = t0"
    "within cf (t1 - ns ts') (free cf (Some (entry k (ts', c)))) m \<Longrightarrow>
      within cf (t1 - t0) (free cf e) ((if r = 0 then 1 else 0) + m)" by blast+
qed

lemma forgets_within:
  assumes cf: "conf_ok cf" and e: "item_ok t0 (Suc n) e" and t: "t0 \<le> ns ts" and f: "forgets cf ts e e'"
  obtains t' where "t' = ns ts \<or> t' = t0" "item_ok t' n e'"
    "\<And>m. within cf (t1 - t') (free cf e') m \<Longrightarrow> within cf (t1 - t0) (free cf e) m"
proof (cases "e' = e")
  case True
  then show ?thesis using that [of t0] e by (auto simp: item_ok_def split: option.splits)
next
  case False
  with f obtain it where it: "e' = None" "e = Some it" "age ts (it_ts it) > of_int (conf_burst_timeout cf)"
    by (auto simp: forgets_def)
  then have "(conf_burst_timeout cf - 1) * 1000000 \<le> ns ts - ns (it_ts it)"
    using e t by (intro age_ns) (auto simp: word_less_def conf_timeouts [OF cf] item_ok_def)
  then have "within cf (t1 - t0) (free cf e) m" if "within cf (t1 - ns ts) (free cf e') m" for m
    using that it e by - (erule within_burst; auto simp: item_ok_def free_def)
  then show ?thesis using that [of "ns ts"] it(1) by (auto simp: item_ok_def)
qed

lemma passed_within:
  assumes "conf_ok cf" "keys_ok items" "clock_ok t0 t1 evs" "item_ok t0 (length evs) (lookup k items)"
    "length evs < 2 ^ 31"
  shows "within cf (t1 - t0) (free cf (lookup k items)) (passed cf k items evs)"
  using assms(2-)
proof (induction evs arbitrary: items t0)
  case Nil
  then show ?case using assms(1)
    by (intro within_refl) (auto simp: clock_ok_def free_def conf_ok_def split: option.splits)
next
  case (Cons ev evs)
  obtain ts key where ev: "ev = (ts, key)" by fastforce
  obtain r items' where c: "connlimit_check cf ts key items = (r, items')" by fastforce
  note clk = clock_ok_Cons [OF Cons.prems(2) [unfolded ev]]
  note ok' = check_keys [OF c Cons.prems(1)]
  have len: "length evs < 2 ^ 31" using Cons.prems(4) by simp
  have e: "item_ok t0 (Suc (length evs)) (lookup k items)" using Cons.prems(3) by simp
  show ?case
  proof (cases "key = k")
    case True
    obtain r' ts' n where v: "verdict cf ts (lookup k items) = (r', ts', n)" by (metis prod_cases3)
    with check_self [OF c] True have l: "r = r'" "lookup k items' = Some (entry k (ts', n))" by auto
    have tv: "t0 \<le> ns ts" "ts_ok ts" using clk by auto
    note w = verdict_within [OF assms(1) e tv len v]
    have "clock_ok (ns ts') t1 evs" using w(2) clk by auto
    from Cons.IH [OF ok' this _ len] w(1) have
      "within cf (t1 - ns ts') (free cf (Some (entry k (ts', n)))) (passed cf k items' evs)" by (simp add: l)
    from w(3) [OF this] show ?thesis by (simp add: ev True c [unfolded True] l)
  next
    case False
    have f: "forgets cf ts (lookup k items) (lookup k items')"
      using check_other [OF c Cons.prems(1) False [symmetric]] .
    have tv: "t0 \<le> ns ts" using clk by auto
    obtain t' where t': "t' = ns ts \<or> t' = t0" "item_ok t' (length evs) (lookup k items')"
      "\<And>m. within cf (t1 - t') (free cf (lookup k items')) m \<Longrightarrow> within cf (t1 - t0) (free cf (lookup k items)) m"
      using forgets_within [OF assms(1) e tv f] by blast
    then have "clock_ok t' t1 evs" using clk by auto
    from t'(3) [OF Cons.IH [OF ok' this t'(2) len]] show ?thesis by (simp add: ev c False)
  qed
qed

lemma clock_ok_span:
  assumes "evs \<noteq> []" "\<forall>(ts, _) \<in> set evs. ts_ok ts" "sorted (map (\<lambda>e. ns (fst e)) evs)"
  shows "clock_ok (ns (fst (hd evs))) (ns (fst (last evs))) evs"
proof -
  have "ns (fst (hd evs)) \<le> ns ts \<and> ns ts \<le> ns (fst (last evs))" if "(ts, x) \<in> set evs" for ts x
    using sorted_between [OF assms(3) that] by simp
  moreover have "hd evs \<in> set evs" using assms(1) by simp
  ultimately show ?thesis
    using assms(2,3) by (cases "hd evs") (auto simp: clock_ok_def comp_def)
qed

lemma passed_within_start:
  assumes "conf_ok cf" "clock_ok t0 t1 evs" "length evs < 2 ^ 31"
  shows "within cf (t1 - t0) (conf_burst cf) (passed cf k [] evs)"
  using passed_within [OF assms(1) _ assms(2) _ assms(3), of "[]" k] by (simp add: keys_ok_def item_ok_def free_def)

text \<open>
  C24: No peer gets past the limit. Whatever the attempts of all peers are, in any order on a clock that does not
  go back, the connections of one peer that pass are at most the first burst, one more burst for every burst
  timeout and one more connection for every limit timeout that lies between the first and the last attempt,
  where the rounding of the code's clock costs a millisecond of each timeout.
\<close>

theorem connlimit_bounds_peer:
  assumes "evs \<noteq> []" "length evs < 2 ^ 31" "\<forall>(ts, _) \<in> set evs. 0 \<le> tv_nsec ts \<and> tv_nsec ts < 1000000000"
    and "sorted (map (\<lambda>(ts, _). tv_sec ts * 1000000000 + tv_nsec ts) evs)"
    and "1 \<le> conf_burst cf" "0 \<le> conf_burst_timeout cf" "conf_burst_timeout cf < 2 ^ 31"
    and "0 \<le> conf_limit_timeout cf" "conf_limit_timeout cf < 2 ^ 31"
  shows "\<exists>bursts waits :: nat.
    passed cf k [] evs \<le> conf_burst cf * (1 + int bursts) + int waits \<and>
    (int bursts * (conf_burst_timeout cf - 1) + int waits * (conf_limit_timeout cf - 1)) * 1000000
      \<le> ns (fst (last evs)) - ns (fst (hd evs))"
proof -
  have clk: "clock_ok (ns (fst (hd evs))) (ns (fst (last evs))) evs"
    using assms(1,3,4) by (intro clock_ok_span) (simp_all add: ts_ok_def ns_def case_prod_unfold)
  have "conf_ok cf" using assms by (simp add: conf_ok_def)
  from passed_within_start [OF this clk assms(2)] show ?thesis by (auto simp: within_def algebra_simps)
qed

definition demo_attempt :: "nat \<Rightarrow> timespec \<times> u64" where
  "demo_attempt n = (\<lparr>tv_sec = int n, tv_nsec = 0\<rparr>, 7)"

definition demo_limits :: climit_conf where
  "demo_limits = \<lparr>conf_burst = 3, conf_burst_timeout = 60000, conf_limit_timeout = 5000\<rparr>"

theorem connlimit_bounds_peer_witness:
  "passed demo_limits 7 [] (map demo_attempt [0, 1, 2, 3, 4]) = 3 \<and> (\<exists>bursts waits :: nat.
    passed demo_limits 7 [] (map demo_attempt [0, 1, 2, 3, 4]) \<le> 3 * (1 + int bursts) + int waits \<and>
    (int bursts * 59999 + int waits * 4999) * 1000000 \<le> 4000000000)"
proof -
  have "passed demo_limits 7 [] (map demo_attempt [0, 1, 2, 3, 4]) = 3" by code_simp
  moreover have "\<exists>bursts waits :: nat.
    passed demo_limits 7 [] (map demo_attempt [0, 1, 2, 3, 4]) \<le> conf_burst demo_limits * (1 + int bursts) + int waits \<and>
    (int bursts * (conf_burst_timeout demo_limits - 1) + int waits * (conf_limit_timeout demo_limits - 1)) * 1000000
      \<le> ns (fst (last (map demo_attempt [0, 1, 2, 3, 4]))) - ns (fst (hd (map demo_attempt [0, 1, 2, 3, 4])))"
    by (rule connlimit_bounds_peer) (simp_all add: demo_attempt_def demo_limits_def)
  ultimately show ?thesis by (simp add: demo_limits_def demo_attempt_def ns_def)
qed

section \<open>The configured limit\<close>

text \<open>A limit of no connections divides by zero.\<close>

lemma limit_zero_faults: "opt ''limit'' = Some ''0/s'' \<Longrightarrow> load_limits opt cf = None"
proof -
  have "parse_limit ''0/s'' = Some (0, 1)" by code_simp
  then show "opt ''limit'' = Some ''0/s'' \<Longrightarrow> load_limits opt cf = None" by (simp add: load_limits_def)
qed

end
