(* ===== verification/Crypto_Hash.thy ===== *)
theory Crypto_Hash
  imports BNG_Prelude
begin

text \<open>
  The hash functions of \<open>crypto/\<close>: the block buffering that the macro \<open>HASH_PROCESS\<close>
  of \<open>tomcrypt_hash.h\<close> generates, the padding of \<open>md5_done\<close>, \<open>md4_done\<close> and
  \<open>sha1_done\<close>, and the three compression functions. The daemon feeds a hash in pieces (a
  secret, a vector, a password); the specification hashes one message, padded as RFC 1321 says
  and cut into blocks. The main lemma is that the pieces do not matter. The locale
  \<open>digest\<close> is what the users of a hash rely on, namely the length of its output.
\<close>

section \<open>Words in memory\<close>

definition STORE32L :: "u32 \<Rightarrow> bytes" where
  "STORE32L x = rev (put32 x)"

definition STORE32H :: "u32 \<Rightarrow> bytes" where
  "STORE32H x = put32 x"

definition LOAD32L :: "bytes \<Rightarrow> u32" where
  "LOAD32L y = get32 (y ! 3) (y ! 2) (y ! 1) (y ! 0)"

definition LOAD32H :: "bytes \<Rightarrow> u32" where
  "LOAD32H y = get32 (y ! 0) (y ! 1) (y ! 2) (y ! 3)"

definition STORE64L :: "u64 \<Rightarrow> bytes" where
  "STORE64L x = rev (put64 x)"

definition STORE64H :: "u64 \<Rightarrow> bytes" where
  "STORE64H x = put64 x"

definition ROL :: "u32 \<Rightarrow> nat \<Rightarrow> u32" where
  "ROL x n = push_bit n x OR drop_bit (32 - n) x"

lemma length_STORE [simp]:
  "length (STORE32L x) = 4" "length (STORE32H x) = 4"
  "length (STORE64L y) = 8" "length (STORE64H y) = 8"
  by (simp_all add: STORE32L_def STORE32H_def STORE64L_def STORE64H_def)

section \<open>Block buffering\<close>

text \<open>
  \<open>struct md5_state\<close>, \<open>struct md4_state\<close> and \<open>struct sha1_state\<close> differ only in the
  number of chaining words. \<open>length\<close> counts bits and wraps at 64 bits.
\<close>

record hash_state =
  hs_length :: u64
  hs_state :: "u32 list"
  hs_curlen :: nat
  hs_buf :: bytes

datatype crypt_err = CRYPT_OK | CRYPT_INVALID_ARG

type_synonym compress = "u32 list \<Rightarrow> bytes \<Rightarrow> u32 list"

text \<open>
  The loop of \<open>HASH_PROCESS\<close>. Its caller has excluded \<open>curlen > 64\<close>; the guard keeps
  the recursion total.
\<close>

function hash_loop :: "compress \<Rightarrow> hash_state \<Rightarrow> bytes \<Rightarrow> hash_state" where
  "hash_loop cmp md inp =
     (if inp = [] \<or> 64 < hs_curlen md then md
      else if hs_curlen md = 0 \<and> 64 \<le> length inp then
        hash_loop cmp (md\<lparr>hs_state := cmp (hs_state md) (take 64 inp),
                          hs_length := hs_length md + 64 * 8\<rparr>) (drop 64 inp)
      else
        (let n = min (length inp) (64 - hs_curlen md);
             md1 = md\<lparr>hs_buf := mem_put (hs_buf md) (hs_curlen md) (take n inp),
                      hs_curlen := hs_curlen md + n\<rparr>;
             md2 = (if hs_curlen md1 = 64 then
                      md1\<lparr>hs_state := cmp (hs_state md1) (hs_buf md1),
                          hs_length := hs_length md1 + 8 * 64, hs_curlen := 0\<rparr>
                    else md1)
         in hash_loop cmp md2 (drop n inp)))"
  by pat_completeness auto
termination
  by (relation "measures [\<lambda>(_, _, inp). length inp, \<lambda>(_, md, _). hs_curlen md]")
    (auto simp: Let_def)

declare hash_loop.simps [simp del]

definition hash_process :: "compress \<Rightarrow> hash_state \<Rightarrow> bytes \<Rightarrow> crypt_err \<times> hash_state" where
  "hash_process cmp md inp =
     (if hs_curlen md > 64 then (CRYPT_INVALID_ARG, md) else (CRYPT_OK, hash_loop cmp md inp))"

text \<open>The three \<open>_done\<close> functions, over the byte order of the length and of the output.\<close>

definition hash_done ::
    "compress \<Rightarrow> (u64 \<Rightarrow> bytes) \<Rightarrow> (u32 \<Rightarrow> bytes) \<Rightarrow> hash_state \<Rightarrow> (crypt_err \<times> bytes)" where
  "hash_done cmp store64 store32 md =
     (if hs_curlen md \<ge> 64 then (CRYPT_INVALID_ARG, [])
      else
        (let len = hs_length md + of_nat (hs_curlen md) * 8;
             buf = mem_put (hs_buf md) (hs_curlen md) [0x80];
             cur = hs_curlen md + 1;
             (st, buf, cur) =
               (if cur > 56 then
                  (let b = mem_put buf cur (replicate (64 - cur) 0) in (cmp (hs_state md) b, b, 0))
                else (hs_state md, buf, cur));
             buf = mem_put buf cur (replicate (56 - cur) 0);
             buf = mem_put buf 56 (store64 len);
             st = cmp st buf
         in (CRYPT_OK, concat (map store32 st))))"

section \<open>MD5\<close>

text \<open>The tables and the loop of the \<open>LTC_SMALL_CODE\<close> variant, which \<open>tomcrypt_custom.h\<close> selects.\<close>

definition Worder :: "nat list" where
  "Worder = [
     0, 1, 2, 3, 4, 5, 6, 7, 8, 9, 10, 11, 12, 13, 14, 15,
     1, 6, 11, 0, 5, 10, 15, 4, 9, 14, 3, 8, 13, 2, 7, 12,
     5, 8, 11, 14, 1, 4, 7, 10, 13, 0, 3, 6, 9, 12, 15, 2,
     0, 7, 14, 5, 12, 3, 10, 1, 8, 15, 6, 13, 4, 11, 2, 9]"

definition Rorder :: "nat list" where
  "Rorder = [
     7, 12, 17, 22, 7, 12, 17, 22, 7, 12, 17, 22, 7, 12, 17, 22,
     5, 9, 14, 20, 5, 9, 14, 20, 5, 9, 14, 20, 5, 9, 14, 20,
     4, 11, 16, 23, 4, 11, 16, 23, 4, 11, 16, 23, 4, 11, 16, 23,
     6, 10, 15, 21, 6, 10, 15, 21, 6, 10, 15, 21, 6, 10, 15, 21]"

definition Korder :: "u32 list" where
  "Korder = [
     0xd76aa478, 0xe8c7b756, 0x242070db, 0xc1bdceee, 0xf57c0faf, 0x4787c62a,
     0xa8304613, 0xfd469501, 0x698098d8, 0x8b44f7af, 0xffff5bb1, 0x895cd7be,
     0x6b901122, 0xfd987193, 0xa679438e, 0x49b40821, 0xf61e2562, 0xc040b340,
     0x265e5a51, 0xe9b6c7aa, 0xd62f105d, 0x02441453, 0xd8a1e681, 0xe7d3fbc8,
     0x21e1cde6, 0xc33707d6, 0xf4d50d87, 0x455a14ed, 0xa9e3e905, 0xfcefa3f8,
     0x676f02d9, 0x8d2a4c8a, 0xfffa3942, 0x8771f681, 0x6d9d6122, 0xfde5380c,
     0xa4beea44, 0x4bdecfa9, 0xf6bb4b60, 0xbebfbc70, 0x289b7ec6, 0xeaa127fa,
     0xd4ef3085, 0x04881d05, 0xd9d4d039, 0xe6db99e5, 0x1fa27cf8, 0xc4ac5665,
     0xf4292244, 0x432aff97, 0xab9423a7, 0xfc93a039, 0x655b59c3, 0x8f0ccc92,
     0xffeff47d, 0x85845dd1, 0x6fa87e4f, 0xfe2ce6e0, 0xa3014314, 0x4e0811a1,
     0xf7537e82, 0xbd3af235, 0x2ad7d2bb, 0xeb86d391]"

definition md5_F :: "u32 \<Rightarrow> u32 \<Rightarrow> u32 \<Rightarrow> u32" where
  "md5_F x y z = z XOR (x AND (y XOR z))"

definition md5_G :: "u32 \<Rightarrow> u32 \<Rightarrow> u32 \<Rightarrow> u32" where
  "md5_G x y z = y XOR (z AND (y XOR x))"

definition md5_H :: "u32 \<Rightarrow> u32 \<Rightarrow> u32 \<Rightarrow> u32" where
  "md5_H x y z = x XOR y XOR z"

definition md5_I :: "u32 \<Rightarrow> u32 \<Rightarrow> u32 \<Rightarrow> u32" where
  "md5_I x y z = y XOR (x OR NOT z)"

type_synonym regs4 = "u32 \<times> u32 \<times> u32 \<times> u32"

definition md5_round :: "(u32 \<Rightarrow> u32 \<Rightarrow> u32 \<Rightarrow> u32) \<Rightarrow> u32 list \<Rightarrow> nat \<Rightarrow> regs4 \<Rightarrow> regs4" where
  "md5_round f W i = (\<lambda>(a, b, c, d).
     (let a = a + f b c d + W ! (Worder ! i) + Korder ! i;
          a = ROL a (Rorder ! i) + b
      in (d, a, b, c)))"

definition load_block :: "(bytes \<Rightarrow> u32) \<Rightarrow> bytes \<Rightarrow> u32 list" where
  "load_block load buf = map (\<lambda>i. load (drop (4 * i) buf)) [0..<16]"

definition md5_compress :: compress where
  "md5_compress st buf =
     (let W = load_block LOAD32L buf;
          r = (st ! 0, st ! 1, st ! 2, st ! 3);
          r = fold (md5_round md5_F W) [0..<16] r;
          r = fold (md5_round md5_G W) [16..<32] r;
          r = fold (md5_round md5_H W) [32..<48] r;
          (a, b, c, d) = fold (md5_round md5_I W) [48..<64] r
      in [st ! 0 + a, st ! 1 + b, st ! 2 + c, st ! 3 + d])"

definition md5_init :: hash_state where
  "md5_init = \<lparr>hs_length = 0, hs_state = [0x67452301, 0xefcdab89, 0x98badcfe, 0x10325476],
     hs_curlen = 0, hs_buf = replicate 64 0\<rparr>"

definition md5_process :: "hash_state \<Rightarrow> bytes \<Rightarrow> crypt_err \<times> hash_state" where
  "md5_process = hash_process md5_compress"

definition md5_done :: "hash_state \<Rightarrow> crypt_err \<times> bytes" where
  "md5_done = hash_done md5_compress STORE64L STORE32L"

section \<open>MD4\<close>

definition md4_G :: "u32 \<Rightarrow> u32 \<Rightarrow> u32 \<Rightarrow> u32" where
  "md4_G x y z = (x AND y) OR (z AND (x OR y))"

definition md4_FF :: "u32 \<Rightarrow> u32 \<Rightarrow> u32 \<Rightarrow> u32 \<Rightarrow> u32 \<Rightarrow> nat \<Rightarrow> u32" where
  "md4_FF a b c d x s = ROL (a + (md5_F b c d + x)) s"

definition md4_GG :: "u32 \<Rightarrow> u32 \<Rightarrow> u32 \<Rightarrow> u32 \<Rightarrow> u32 \<Rightarrow> nat \<Rightarrow> u32" where
  "md4_GG a b c d x s = ROL (a + (md4_G b c d + x + 0x5a827999)) s"

definition md4_HH :: "u32 \<Rightarrow> u32 \<Rightarrow> u32 \<Rightarrow> u32 \<Rightarrow> u32 \<Rightarrow> nat \<Rightarrow> u32" where
  "md4_HH a b c d x s = ROL (a + (md5_H b c d + x + 0x6ed9eba1)) s"

definition md4_compress :: compress where
  "md4_compress st buf =
     (let a = st ! 0; b = st ! 1; c = st ! 2; d = st ! 3;
          x = load_block LOAD32L buf;
          a = md4_FF a b c d (x ! 0) 3; d = md4_FF d a b c (x ! 1) 7;
          c = md4_FF c d a b (x ! 2) 11; b = md4_FF b c d a (x ! 3) 19;
          a = md4_FF a b c d (x ! 4) 3; d = md4_FF d a b c (x ! 5) 7;
          c = md4_FF c d a b (x ! 6) 11; b = md4_FF b c d a (x ! 7) 19;
          a = md4_FF a b c d (x ! 8) 3; d = md4_FF d a b c (x ! 9) 7;
          c = md4_FF c d a b (x ! 10) 11; b = md4_FF b c d a (x ! 11) 19;
          a = md4_FF a b c d (x ! 12) 3; d = md4_FF d a b c (x ! 13) 7;
          c = md4_FF c d a b (x ! 14) 11; b = md4_FF b c d a (x ! 15) 19;
          a = md4_GG a b c d (x ! 0) 3; d = md4_GG d a b c (x ! 4) 5;
          c = md4_GG c d a b (x ! 8) 9; b = md4_GG b c d a (x ! 12) 13;
          a = md4_GG a b c d (x ! 1) 3; d = md4_GG d a b c (x ! 5) 5;
          c = md4_GG c d a b (x ! 9) 9; b = md4_GG b c d a (x ! 13) 13;
          a = md4_GG a b c d (x ! 2) 3; d = md4_GG d a b c (x ! 6) 5;
          c = md4_GG c d a b (x ! 10) 9; b = md4_GG b c d a (x ! 14) 13;
          a = md4_GG a b c d (x ! 3) 3; d = md4_GG d a b c (x ! 7) 5;
          c = md4_GG c d a b (x ! 11) 9; b = md4_GG b c d a (x ! 15) 13;
          a = md4_HH a b c d (x ! 0) 3; d = md4_HH d a b c (x ! 8) 9;
          c = md4_HH c d a b (x ! 4) 11; b = md4_HH b c d a (x ! 12) 15;
          a = md4_HH a b c d (x ! 2) 3; d = md4_HH d a b c (x ! 10) 9;
          c = md4_HH c d a b (x ! 6) 11; b = md4_HH b c d a (x ! 14) 15;
          a = md4_HH a b c d (x ! 1) 3; d = md4_HH d a b c (x ! 9) 9;
          c = md4_HH c d a b (x ! 5) 11; b = md4_HH b c d a (x ! 13) 15;
          a = md4_HH a b c d (x ! 3) 3; d = md4_HH d a b c (x ! 11) 9;
          c = md4_HH c d a b (x ! 7) 11; b = md4_HH b c d a (x ! 15) 15
      in [st ! 0 + a, st ! 1 + b, st ! 2 + c, st ! 3 + d])"

definition md4_init :: hash_state where
  "md4_init = \<lparr>hs_length = 0, hs_state = [0x67452301, 0xefcdab89, 0x98badcfe, 0x10325476],
     hs_curlen = 0, hs_buf = replicate 64 0\<rparr>"

definition md4_process :: "hash_state \<Rightarrow> bytes \<Rightarrow> crypt_err \<times> hash_state" where
  "md4_process = hash_process md4_compress"

definition md4_done :: "hash_state \<Rightarrow> crypt_err \<times> bytes" where
  "md4_done = hash_done md4_compress STORE64L STORE32L"

section \<open>SHA-1\<close>

definition sha1_expand :: "u32 list \<Rightarrow> u32 list" where
  "sha1_expand W0 = fold (\<lambda>i W. W @
     [ROL (W ! (i - 3) XOR W ! (i - 8) XOR W ! (i - 14) XOR W ! (i - 16)) 1]) [16..<80] W0"

type_synonym regs5 = "u32 \<times> u32 \<times> u32 \<times> u32 \<times> u32"

definition sha1_round ::
    "(u32 \<Rightarrow> u32 \<Rightarrow> u32 \<Rightarrow> u32) \<Rightarrow> u32 \<Rightarrow> u32 list \<Rightarrow> nat \<Rightarrow> regs5 \<Rightarrow> regs5" where
  "sha1_round f k W i = (\<lambda>(a, b, c, d, e).
     (let e = ROL a 5 + f b c d + e + W ! i + k; b = ROL b 30
      in (e, a, b, c, d)))"

definition sha1_compress :: compress where
  "sha1_compress st buf =
     (let W = sha1_expand (load_block LOAD32H buf);
          r = (st ! 0, st ! 1, st ! 2, st ! 3, st ! 4);
          r = fold (sha1_round md5_F 0x5a827999 W) [0..<20] r;
          r = fold (sha1_round md5_H 0x6ed9eba1 W) [20..<40] r;
          r = fold (sha1_round md4_G 0x8f1bbcdc W) [40..<60] r;
          (a, b, c, d, e) = fold (sha1_round md5_H 0xca62c1d6 W) [60..<80] r
      in [st ! 0 + a, st ! 1 + b, st ! 2 + c, st ! 3 + d, st ! 4 + e])"

definition sha1_init :: hash_state where
  "sha1_init = \<lparr>hs_length = 0,
     hs_state = [0x67452301, 0xefcdab89, 0x98badcfe, 0x10325476, 0xc3d2e1f0],
     hs_curlen = 0, hs_buf = replicate 64 0\<rparr>"

definition sha1_process :: "hash_state \<Rightarrow> bytes \<Rightarrow> crypt_err \<times> hash_state" where
  "sha1_process = hash_process sha1_compress"

definition sha1_done :: "hash_state \<Rightarrow> crypt_err \<times> bytes" where
  "sha1_done = hash_done sha1_compress STORE64H STORE32H"

text \<open>A digest computed the way the daemon does: one init, any number of updates, one final.\<close>

definition digest_pieces ::
    "hash_state \<Rightarrow> (hash_state \<Rightarrow> bytes \<Rightarrow> crypt_err \<times> hash_state) \<Rightarrow>
     (hash_state \<Rightarrow> crypt_err \<times> bytes) \<Rightarrow> bytes list \<Rightarrow> crypt_err \<times> bytes" where
  "digest_pieces init process done ps = done (fold (\<lambda>p md. snd (process md p)) ps init)"

definition md5 :: "bytes \<Rightarrow> bytes" where
  "md5 m = snd (digest_pieces md5_init md5_process md5_done [m])"

definition md4 :: "bytes \<Rightarrow> bytes" where
  "md4 m = snd (digest_pieces md4_init md4_process md4_done [m])"

definition sha1 :: "bytes \<Rightarrow> bytes" where
  "sha1 m = snd (digest_pieces sha1_init sha1_process sha1_done [m])"

section \<open>The message as one padded string\<close>

text \<open>The reference: fold the compression function over the 64 byte blocks of the padded message.\<close>

function fold_blocks :: "compress \<Rightarrow> u32 list \<Rightarrow> bytes \<Rightarrow> u32 list" where
  "fold_blocks cmp st bs =
     (if length bs < 64 then st else fold_blocks cmp (cmp st (take 64 bs)) (drop 64 bs))"
  by pat_completeness auto
termination by (relation "measure (\<lambda>(_, _, bs). length bs)") auto

declare fold_blocks.simps [simp del]

definition md_pad :: "(u64 \<Rightarrow> bytes) \<Rightarrow> bytes \<Rightarrow> bytes" where
  "md_pad store64 m =
     m @ [0x80] @ replicate ((119 - length m mod 64) mod 64) 0 @ store64 (of_nat (8 * length m))"

definition hash_ref ::
    "compress \<Rightarrow> (u64 \<Rightarrow> bytes) \<Rightarrow> (u32 \<Rightarrow> bytes) \<Rightarrow> u32 list \<Rightarrow> bytes \<Rightarrow> bytes" where
  "hash_ref cmp store64 store32 iv m =
     concat (map store32 (fold_blocks cmp iv (md_pad store64 m)))"

lemma fold_blocks_short: "length bs < 64 \<Longrightarrow> fold_blocks cmp st bs = st"
  by (simp add: fold_blocks.simps)

lemma fold_blocks_block:
  "length b = 64 \<Longrightarrow> fold_blocks cmp st (b @ bs) = fold_blocks cmp (cmp st b) bs"
  by (subst fold_blocks.simps) simp

lemma fold_blocks_append:
  "64 dvd length a \<Longrightarrow> fold_blocks cmp st (a @ b) = fold_blocks cmp (fold_blocks cmp st a) b"
proof (induction cmp st a rule: fold_blocks.induct)
  case (1 cmp st a)
  show ?case
  proof (cases "length a < 64")
    case True
    with 1(2) have "a = []" by (auto dest: dvd_imp_le)
    then show ?thesis by (simp add: fold_blocks_short)
  next
    case False
    then have "64 dvd length (drop 64 a)"
      using 1(2) by (simp add: dvd_diff_nat)
    from 1(1) [OF False this] False show ?thesis
      by (simp add: fold_blocks.simps [of cmp st "a @ b"] fold_blocks.simps [of cmp st a])
  qed
qed

text \<open>
  The state after the message bytes \<open>m\<close>: the whole blocks are compressed, the rest is in
  the buffer.
\<close>

definition hash_absorbed :: "compress \<Rightarrow> u32 list \<Rightarrow> bytes \<Rightarrow> hash_state \<Rightarrow> bool" where
  "hash_absorbed cmp iv m md \<longleftrightarrow>
     (\<exists>a b. m = a @ b \<and> 64 dvd length a \<and> length b < 64 \<and>
        hs_state md = fold_blocks cmp iv a \<and> hs_length md = of_nat (8 * length a) \<and>
        hs_curlen md = length b \<and> length (hs_buf md) = 64 \<and> take (length b) (hs_buf md) = b)"

lemma hash_absorbedI:
  assumes "m = a @ b" "64 dvd length a" "length b < 64" "hs_state md = fold_blocks cmp iv a"
    "hs_length md = of_nat (8 * length a)" "hs_curlen md = length b" "length (hs_buf md) = 64"
    "take (length b) (hs_buf md) = b"
  shows "hash_absorbed cmp iv m md"
  using assms unfolding hash_absorbed_def by blast

lemma fold_blocks_one: "length b = 64 \<Longrightarrow> fold_blocks cmp st b = cmp st b"
  using fold_blocks_block [of b cmp st "[]"] by (simp add: fold_blocks_short)

text \<open>One round of the loop, in its two branches.\<close>

lemma absorb_block:
  assumes "hash_absorbed cmp iv m md" "hs_curlen md = 0" "length blk = 64"
  shows "hash_absorbed cmp iv (m @ blk)
    (md\<lparr>hs_state := cmp (hs_state md) blk, hs_length := hs_length md + 64 * 8\<rparr>)"
proof -
  from assms(1,2) have "64 dvd length m" "hs_state md = fold_blocks cmp iv m"
    "hs_length md = of_nat (8 * length m)" "length (hs_buf md) = 64"
    unfolding hash_absorbed_def by auto
  with assms(2,3) show ?thesis
    by (intro hash_absorbedI [of _ "m @ blk" "[]"])
      (simp_all add: fold_blocks_append fold_blocks_one)
qed

lemma absorb_part:
  assumes "hash_absorbed cmp iv m md" and "hs_curlen md + length xs \<le> 64"
  defines "md1 \<equiv> md\<lparr>hs_buf := mem_put (hs_buf md) (hs_curlen md) xs,
                    hs_curlen := hs_curlen md + length xs\<rparr>"
  shows "hash_absorbed cmp iv (m @ xs)
    (if hs_curlen md1 = 64 then
       md1\<lparr>hs_state := cmp (hs_state md1) (hs_buf md1), hs_length := hs_length md1 + 8 * 64,
           hs_curlen := 0\<rparr>
     else md1)"
proof -
  from assms(1) obtain a b where m: "m = a @ b" "64 dvd length a" "length b < 64"
    and st: "hs_state md = fold_blocks cmp iv a" "hs_length md = of_nat (8 * length a)"
      "hs_curlen md = length b" "length (hs_buf md) = 64" "take (length b) (hs_buf md) = b"
    unfolding hash_absorbed_def by blast
  have tk: "take (length b + length xs) (hs_buf md1) = b @ xs" and len: "length (hs_buf md1) = 64"
    using take_mem_put [of "length b" "hs_buf md" xs] m(3) st assms(2) by (simp_all add: md1_def)
  show ?thesis
  proof (cases "hs_curlen md1 = 64")
    case True
    then have "hs_buf md1 = b @ xs" "length (b @ xs) = 64"
      using tk len st(3) by (simp_all add: md1_def)
    with True m st show ?thesis
      by (intro hash_absorbedI [of _ "a @ b @ xs" "[]"])
        (simp_all add: fold_blocks_append fold_blocks_one md1_def)
  next
    case False
    with m st tk len assms(2) show ?thesis
      by (intro hash_absorbedI [of _ a "b @ xs"]) (simp_all add: md1_def)
  qed
qed

lemma hash_loop_absorbs:
  "hash_absorbed cmp iv m md \<Longrightarrow> hash_absorbed cmp iv (m @ inp) (hash_loop cmp md inp)"
proof (induction cmp md inp arbitrary: m rule: hash_loop.induct)
  case (1 cmp md inp)
  from 1(3) have cur: "hs_curlen md < 64" unfolding hash_absorbed_def by auto
  show ?case
  proof (cases "inp = []")
    case True
    with 1(3) show ?thesis by (simp add: hash_loop.simps)
  next
    case ne: False
    with cur have run: "\<not> (inp = [] \<or> 64 < hs_curlen md)" by simp
    show ?thesis
    proof (cases "hs_curlen md = 0 \<and> 64 \<le> length inp")
      case True
      from absorb_block [OF 1(3), of "take 64 inp"] True
      have "hash_absorbed cmp iv (m @ take 64 inp)
        (md\<lparr>hs_state := cmp (hs_state md) (take 64 inp), hs_length := hs_length md + 64 * 8\<rparr>)"
        by simp
      from 1(1) [OF run True this] run True show ?thesis
        by (simp add: hash_loop.simps [of cmp md inp])
    next
      case False
      define n where "n = min (length inp) (64 - hs_curlen md)"
      have len: "length (take n inp) = n" "hs_curlen md + length (take n inp) \<le> 64"
        using cur by (simp_all add: n_def)
      note step = 1(2) [OF run False n_def refl refl absorb_part [OF 1(3) len(2), unfolded len(1)]]
      show ?thesis
        unfolding hash_loop.simps [of cmp md inp] if_not_P [OF run] if_not_P [OF False] Let_def
        using step unfolding append_assoc append_take_drop_id n_def .
    qed
  qed
qed

lemma hash_done_absorbed:
  assumes "hash_absorbed cmp iv m md" and s64: "\<And>w. length (store64 w) = 8"
  shows "hash_done cmp store64 store32 md = (CRYPT_OK, hash_ref cmp store64 store32 iv m)"
proof -
  from assms(1) obtain a b where m: "m = a @ b" "64 dvd length a" "length b < 64"
    and st: "hs_state md = fold_blocks cmp iv a" "hs_length md = of_nat (8 * length a)"
      "hs_curlen md = length b" "length (hs_buf md) = 64" "take (length b) (hs_buf md) = b"
    unfolding hash_absorbed_def by blast
  let ?L = "store64 (of_nat (8 * length m))" and ?r = "length b"
  have len: "hs_length md + of_nat (hs_curlen md) * 8 = of_nat (8 * length m)"
    using m(1) st(2,3) by (simp add: algebra_simps)
  have r: "length m mod 64 = ?r"
    using m by auto
  have pad: "fold_blocks cmp iv (md_pad store64 m) = fold_blocks cmp (hs_state md)
      (b @ [0x80] @ replicate ((119 - ?r) mod 64) 0 @ ?L)"
    unfolding md_pad_def r using m(1,2) st(1) by (simp add: fold_blocks_append del: replicate_0)
  show ?thesis
  proof (cases "?r + 1 > 56")
    case False
    then have k: "(119 - ?r) mod 64 = 55 - ?r" by (simp add: mod_if)
    let ?B = "b @ [0x80] @ replicate (55 - ?r) 0 @ ?L"
    have B: "length ?B = 64" using False s64 by simp
    have buf: "mem_put (mem_put (mem_put (hs_buf md) ?r [0x80]) (?r + 1) (replicate (55 - ?r) 0)) 56 ?L = ?B"
      using mem_put_mem_put [of ?r "[0x80]" "hs_buf md" "replicate (55 - ?r) 0"]
        mem_put_mem_put [of ?r "0x80 # replicate (55 - ?r) 0" "hs_buf md" ?L]
        mem_put_full [of ?r "0x80 # replicate (55 - ?r) 0 @ ?L" "hs_buf md"] False s64 st(4,5)
      by simp
    show ?thesis
      unfolding hash_done_def hash_ref_def pad k fold_blocks_one [OF B]
      using False m(3) st(3) len buf by (simp add: Let_def)
  next
    case True
    then have k: "(119 - ?r) mod 64 = (63 - ?r) + 56" using m(3) by (simp add: mod_if)
    let ?B = "b @ [0x80] @ replicate (63 - ?r) 0" and ?C = "replicate 56 0 @ ?L"
    have B: "length ?B = 64" and C: "length ?C = 64" using True m(3) s64 by simp_all
    have buf: "mem_put (mem_put (hs_buf md) ?r [0x80]) (?r + 1) (replicate (63 - ?r) 0) = ?B"
      using mem_put_mem_put [of ?r "[0x80]" "hs_buf md" "replicate (63 - ?r) 0"]
        mem_put_full [of ?r "0x80 # replicate (63 - ?r) 0" "hs_buf md"] True m(3) st(4,5)
      by simp
    have buf2: "mem_put (mem_put ?B 0 (replicate 56 0)) 56 ?L = ?C"
      using mem_put_mem_put [of 0 "replicate 56 0" ?B ?L] mem_put_full [of 0 ?C ?B] B C by simp
    have split: "b @ [0x80] @ replicate ((63 - ?r) + 56) 0 @ ?L = ?B @ ?C"
      by (simp add: replicate_add)
    show ?thesis
      unfolding hash_done_def hash_ref_def pad k split fold_blocks_block [OF B] fold_blocks_one [OF C]
      using True m(3) st(3) len buf buf2 by (simp add: Let_def)
  qed
qed

section \<open>The contract of a hash function\<close>

text \<open>
  What a hash needs of its initial state and of its byte order for the generic code to compute
  the digest of the concatenated pieces, proved once and instantiated for the three hashes.
\<close>

locale merkle_damgard =
  fixes cmp :: compress and store64 :: "u64 \<Rightarrow> bytes" and store32 :: "u32 \<Rightarrow> bytes"
    and init :: hash_state
  assumes init_empty: "hs_length init = 0" "hs_curlen init = 0" "length (hs_buf init) = 64"
    and store64_length: "length (store64 w) = 8"
begin

lemma init_absorbed: "hash_absorbed cmp (hs_state init) [] init"
  using init_empty by (intro hash_absorbedI [of _ "[]" "[]"]) (simp_all add: fold_blocks_short)

lemma process_absorbs:
  assumes "hash_absorbed cmp iv m md"
  shows "fst (hash_process cmp md p) = CRYPT_OK"
    and "hash_absorbed cmp iv (m @ p) (snd (hash_process cmp md p))"
proof -
  from assms have "hs_curlen md \<le> 64" unfolding hash_absorbed_def by auto
  then show "fst (hash_process cmp md p) = CRYPT_OK"
    and "hash_absorbed cmp iv (m @ p) (snd (hash_process cmp md p))"
    using hash_loop_absorbs [OF assms] by (simp_all add: hash_process_def)
qed

lemma pieces_absorbed:
  "hash_absorbed cmp iv m md \<Longrightarrow>
   hash_absorbed cmp iv (m @ concat ps) (fold (\<lambda>p md. snd (hash_process cmp md p)) ps md)"
proof (induction ps arbitrary: m md)
  case (Cons p ps)
  from Cons.IH [OF process_absorbs(2) [OF Cons.prems, of p]] show ?case by simp
qed simp

lemma pieces_digest:
  "digest_pieces init (hash_process cmp) (hash_done cmp store64 store32) ps =
     (CRYPT_OK, hash_ref cmp store64 store32 (hs_state init) (concat ps))"
  unfolding digest_pieces_def
  using hash_done_absorbed [OF pieces_absorbed [OF init_absorbed], of store64 store32]
    store64_length by simp

end

lemma length_md5_init [simp]: "length (hs_state md5_init) = 4"
  by (simp add: md5_init_def)

lemma length_md4_init [simp]: "length (hs_state md4_init) = 4"
  by (simp add: md4_init_def)

lemma length_sha1_init [simp]: "length (hs_state sha1_init) = 5"
  by (simp add: sha1_init_def)

interpretation md5h: merkle_damgard md5_compress STORE64L STORE32L md5_init
  by unfold_locales (simp_all add: md5_init_def)

interpretation md4h: merkle_damgard md4_compress STORE64L STORE32L md4_init
  by unfold_locales (simp_all add: md4_init_def)

interpretation sha1h: merkle_damgard sha1_compress STORE64H STORE32H sha1_init
  by unfold_locales (simp_all add: sha1_init_def)

lemma fold_blocks_length:
  assumes "\<And>st b. length (cmp st b) = n"
  shows "length st = n \<Longrightarrow> length (fold_blocks cmp st bs) = n"
proof (induction bs arbitrary: st rule: measure_induct_rule [where f = length])
  case (less bs)
  then show ?case
    using assms by (cases "length bs < 64") (simp_all add: fold_blocks.simps [of cmp st bs])
qed

lemma length_concat_map:
  "(\<And>x. length (f x) = k) \<Longrightarrow> length (concat (map f xs)) = k * length xs"
  by (induction xs) simp_all

lemma hash_ref_length:
  assumes "\<And>st b. length (cmp st b) = n" "length iv = n" "\<And>w. length (store32 w) = 4"
  shows "length (hash_ref cmp store64 store32 iv m) = 4 * n"
  using assms by (simp add: hash_ref_def length_concat_map [of store32 4] fold_blocks_length)

lemma length_Let: "(\<And>x. length (f x) = n) \<Longrightarrow> length (Let a f) = n"
  by (simp add: Let_def)

lemma length_md5_compress [simp]: "length (md5_compress st b) = 4"
  unfolding md5_compress_def by (rule length_Let)+ (simp split: prod.split)

lemma length_md4_compress [simp]: "length (md4_compress st b) = 4"
  unfolding md4_compress_def by (rule length_Let)+ simp

lemma length_sha1_compress [simp]: "length (sha1_compress st b) = 5"
  unfolding sha1_compress_def by (rule length_Let)+ (simp split: prod.split)

text \<open>What the users of a digest rely on: the output fills the digest buffer exactly.\<close>

locale digest =
  fixes H :: "bytes \<Rightarrow> bytes" and dlen :: nat
  assumes digest_length: "length (H m) = dlen"

lemmas digest_defs = md5_def md5_process_def md5_done_def md4_def md4_process_def md4_done_def
  sha1_def sha1_process_def sha1_done_def

interpretation md5d: digest md5 16
  by unfold_locales
    (simp add: digest_defs md5h.pieces_digest hash_ref_length [of _ 4] length_md5_init)

interpretation md4d: digest md4 16
  by unfold_locales
    (simp add: digest_defs md4h.pieces_digest hash_ref_length [of _ 4] length_md4_init)

interpretation sha1d: digest sha1 20
  by unfold_locales
    (simp add: digest_defs sha1h.pieces_digest hash_ref_length [of _ 5] length_sha1_init)

section \<open>Properties\<close>

text \<open>
  C20: However a message is cut into pieces, init, one update per piece and final succeed and give
  the digest of the whole message: the chaining value of its padded 64 byte blocks, for MD5,
  MD4 and SHA-1.
\<close>

theorem digest_of_pieces:
  "digest_pieces md5_init md5_process md5_done ps =
     (CRYPT_OK, hash_ref md5_compress STORE64L STORE32L (hs_state md5_init) (concat ps)) \<and>
   digest_pieces md4_init md4_process md4_done ps =
     (CRYPT_OK, hash_ref md4_compress STORE64L STORE32L (hs_state md4_init) (concat ps)) \<and>
   digest_pieces sha1_init sha1_process sha1_done ps =
     (CRYPT_OK, hash_ref sha1_compress STORE64H STORE32H (hs_state sha1_init) (concat ps))"
  by (simp add: digest_defs md5h.pieces_digest md4h.pieces_digest sha1h.pieces_digest)

end
