(* ===== verification/L2tp_Avp.thy ===== *)
theory L2tp_Avp
  imports Crypto_Hash
begin

text \<open>
  The hiding of L2TP attribute values in \<open>micro-bngd/ctrl/l2tp/packet.c\<close>: \<open>memxor\<close>,
  the cipher inside \<open>encode_attr\<close> and its inverse \<open>decode_avp\<close>. The hash is the
  parameter \<open>H\<close>, since the build chooses between OpenSSL and the functions of
  \<open>Crypto_Hash\<close>; the lemmas about the cipher are proved in the locale \<open>digest\<close> and hold
  for MD5 by its interpretation.
\<close>

section \<open>Exclusive or of memory areas\<close>

text \<open>
  \<open>memxor\<close> works on \<open>uintmax_t\<close> words and finishes with 4, 2 and 1 byte steps. The words
  are read and written in the same byte order, so the order does not show in the result; the
  model uses the network order.
\<close>

primrec memxor_umax :: "nat \<Rightarrow> bytes \<Rightarrow> bytes \<Rightarrow> bytes" where
  "memxor_umax 0 dst src = []"
| "memxor_umax (Suc k) dst src =
     put64 (rd64 dst XOR rd64 src) @ memxor_umax k (drop 8 dst) (drop 8 src)"

function memxor_left :: "nat \<Rightarrow> bytes \<Rightarrow> bytes \<Rightarrow> bytes" where
  "memxor_left left dst src =
     (if left = 0 then []
      else if 4 \<le> left then
        put32 (rd32 dst XOR rd32 src) @ memxor_left (left - 4) (drop 4 dst) (drop 4 src)
      else if 2 \<le> left then
        put16 (rd16 dst XOR rd16 src) @ memxor_left (left - 2) (drop 2 dst) (drop 2 src)
      else (hd dst XOR hd src) # memxor_left (left - 1) (drop 1 dst) (drop 1 src))"
  by pat_completeness auto
termination by (relation "measure (\<lambda>(left, _, _). left)") auto

declare memxor_left.simps [simp del]

definition memxor :: "bytes \<Rightarrow> bytes \<Rightarrow> nat \<Rightarrow> bytes" where
  "memxor dst src sz =
     (let left = sz mod 8
      in memxor_umax (sz div 8) dst src @
         memxor_left left (drop (sz - left) dst) (drop (sz - left) src) @ drop sz dst)"

text \<open>The reference: byte by byte.\<close>

definition xor_bytes :: "bytes \<Rightarrow> bytes \<Rightarrow> bytes" where
  "xor_bytes xs ys = map2 (XOR) xs ys"

lemma length_xor_bytes [simp]: "length (xor_bytes xs ys) = min (length xs) (length ys)"
  by (simp add: xor_bytes_def)

lemma xor_bytes_append:
  "length a = length c \<Longrightarrow> xor_bytes (a @ b) (c @ d) = xor_bytes a c @ xor_bytes b d"
  by (simp add: xor_bytes_def)

lemma xor_bytes_nth: "i < length a \<Longrightarrow> i < length b \<Longrightarrow> xor_bytes a b ! i = a ! i XOR b ! i"
  by (simp add: xor_bytes_def)

lemma put16_xor: "put16 (get16 a b XOR get16 c d) = [a XOR c, b XOR d]"
proof -
  have "ucast (drop_bit 8 (get16 a b XOR get16 c d)) = a XOR c"
    unfolding get16_def by (rule bit_word_eqI) (auto simp: bit_simps dest: bit_imp_le_length)
  moreover have "ucast (get16 a b XOR get16 c d) = b XOR d"
    unfolding get16_def by (rule bit_word_eqI) (auto simp: bit_simps dest: bit_imp_le_length)
  ultimately show ?thesis by (simp add: put16_def)
qed

lemma put32_xor:
  "put32 (get32 a b c d XOR get32 e f g h) = [a XOR e, b XOR f, c XOR g, d XOR h]"
proof -
  let ?w = "get32 a b c d XOR get32 e f g h"
  have "ucast (drop_bit 24 ?w) = a XOR e" "ucast (drop_bit 16 ?w) = b XOR f"
    "ucast (drop_bit 8 ?w) = c XOR g" "ucast ?w = d XOR h"
    unfolding get32_def by (rule bit_word_eqI, auto simp: bit_simps dest: bit_imp_le_length)+
  then show ?thesis by (simp add: put32_def)
qed

lemma put64_xor:
  "put64 (get64 a b XOR get64 c d) = put32 (a XOR c) @ put32 (b XOR d)"
proof -
  have "ucast (drop_bit 32 (get64 a b XOR get64 c d)) = a XOR c"
    unfolding get64_def by (rule bit_word_eqI) (auto simp: bit_simps dest: bit_imp_le_length)
  moreover have "ucast (get64 a b XOR get64 c d) = b XOR d"
    unfolding get64_def by (rule bit_word_eqI) (auto simp: bit_simps dest: bit_imp_le_length)
  ultimately show ?thesis by (simp add: put64_def)
qed

lemma put16_rd16_xor:
  assumes "2 \<le> length d" "2 \<le> length s"
  shows "put16 (rd16 d XOR rd16 s) = xor_bytes (take 2 d) (take 2 s)"
  using assms
  by (cases d rule: rd16.cases; cases s rule: rd16.cases) (simp_all add: put16_xor xor_bytes_def)

lemma put32_rd32_xor:
  assumes "4 \<le> length d" "4 \<le> length s"
  shows "put32 (rd32 d XOR rd32 s) = xor_bytes (take 4 d) (take 4 s)"
  using assms
  by (cases d rule: rd32.cases; cases s rule: rd32.cases) (simp_all add: put32_xor xor_bytes_def)

lemma xor_bytes_take_add:
  assumes "n \<le> length d" "n \<le> length s"
  shows "xor_bytes (take (n + m) d) (take (n + m) s) =
    xor_bytes (take n d) (take n s) @ xor_bytes (take m (drop n d)) (take m (drop n s))"
  using assms by (simp add: take_add xor_bytes_append)

lemma put64_rd64_xor:
  assumes "8 \<le> length d" "8 \<le> length s"
  shows "put64 (rd64 d XOR rd64 s) = xor_bytes (take 8 d) (take 8 s)"
  using assms xor_bytes_take_add [of 4 d s 4]
  by (simp add: rd64_def put64_xor put32_rd32_xor)

lemma memxor_umax_xor:
  "8 * k \<le> length d \<Longrightarrow> 8 * k \<le> length s \<Longrightarrow>
   memxor_umax k d s = xor_bytes (take (8 * k) d) (take (8 * k) s)"
proof (induction k arbitrary: d s)
  case (Suc k)
  then show ?case
    using xor_bytes_take_add [of 8 d s "8 * k"] by (simp add: put64_rd64_xor)
qed (simp add: xor_bytes_def)

lemma memxor_left_xor:
  "n \<le> length d \<Longrightarrow> n \<le> length s \<Longrightarrow> memxor_left n d s = xor_bytes (take n d) (take n s)"
proof (induction n d s rule: memxor_left.induct)
  case (1 n d s)
  consider "n = 0" | "4 \<le> n" | "2 \<le> n" "n < 4" | "n = 1" by fastforce
  then show ?case
  proof cases
    case 1
    then show ?thesis by (simp add: memxor_left.simps xor_bytes_def)
  next
    case 2
    then show ?thesis
      using "1.IH"(1) "1.prems" xor_bytes_take_add [of 4 d s "n - 4"]
      by (simp add: memxor_left.simps [of n] put32_rd32_xor)
  next
    case 3
    then have n: "2 + (n - 2) = n" by simp
    from 3 show ?thesis
      using "1.IH"(2) "1.prems" xor_bytes_take_add [of 2 d s "n - 2", unfolded n]
      by (simp add: memxor_left.simps [of n] put16_rd16_xor)
  next
    case 4
    then show ?thesis
      using "1.prems" by (cases d; cases s) (simp_all add: memxor_left.simps xor_bytes_def)
  qed
qed

lemma memxor_xor_bytes:
  assumes "sz \<le> length dst" "sz \<le> length src"
  shows "memxor dst src sz = xor_bytes (take sz dst) (take sz src) @ drop sz dst"
proof -
  define left where "left = sz mod 8"
  have sz: "8 * (sz div 8) = sz - left" "left \<le> sz" by (simp_all add: left_def minus_mod_eq_mult_div)
  show ?thesis
    using assms sz xor_bytes_take_add [of "sz - left" dst src left]
    by (simp add: memxor_def Let_def memxor_umax_xor memxor_left_xor flip: left_def)
qed

lemma length_memxor [simp]:
  "sz \<le> length dst \<Longrightarrow> sz \<le> length src \<Longrightarrow> length (memxor dst src sz) = length dst"
  by (simp add: memxor_xor_bytes)

lemma nth_memxor:
  assumes "sz \<le> length dst" "sz \<le> length src" "i < length dst"
  shows "memxor dst src sz ! i = (if i < sz then dst ! i XOR src ! i else dst ! i)"
  using assms by (simp add: memxor_xor_bytes nth_append xor_bytes_nth)

text \<open>\<open>memxor (buf + off, src, n)\<close>\<close>

definition memxor_at :: "bytes \<Rightarrow> nat \<Rightarrow> bytes \<Rightarrow> nat \<Rightarrow> bytes" where
  "memxor_at buf off src n = take off buf @ memxor (drop off buf) src n"

lemma length_memxor_at [simp]:
  "off + n \<le> length buf \<Longrightarrow> n \<le> length src \<Longrightarrow> length (memxor_at buf off src n) = length buf"
  by (simp add: memxor_at_def)

lemma nth_memxor_at:
  assumes "off + n \<le> length buf" "n \<le> length src" "i < length buf"
  shows "memxor_at buf off src n ! i =
    (if off \<le> i \<and> i < off + n then buf ! i XOR src ! (i - off) else buf ! i)"
  using assms by (auto simp: memxor_at_def nth_append nth_memxor)

section \<open>Hiding and revealing attribute values\<close>

text \<open>
  \<open>decode_avp\<close> works in place on the bytes \<open>val\<close> of the attribute, whose number is in the ten bits of the
  length field of \<open>flags\<close>; \<open>None\<close> is the return value \<open>-1\<close>. What it does with these \<open>attr_len\<close> bytes is
  \<open>decode_attr\<close>. The pointer \<open>prev_block\<close> that runs down to the start of the value is the index of a
  block here.
\<close>

abbreviation (input) L2TP_AVP_LEN_MASK :: u16 where "L2TP_AVP_LEN_MASK \<equiv> 0x03ff"

primrec decode_loop :: "(bytes \<Rightarrow> bytes) \<Rightarrow> bytes \<Rightarrow> nat \<Rightarrow> bytes \<Rightarrow> bytes" where
  "decode_loop H secret 0 val = val"
| "decode_loop H secret (Suc k) val =
     decode_loop H secret k
       (memxor_at val (k * 16 + 16) (H (secret @ take 16 (drop (k * 16) val))) 16)"

definition decode_attr ::
    "(bytes \<Rightarrow> bytes) \<Rightarrow> u16 \<Rightarrow> bytes \<Rightarrow> bytes \<Rightarrow> bytes \<Rightarrow> bytes option" where
  "decode_attr H typ val RV secret =
     (let p1 = H (put16 typ @ secret @ RV)
      in if length val \<le> 16 then Some (memxor val p1 (length val))
         else
           (let p1 = memxor p1 val 16;
                orig_attr_len = unat (rd16 p1)
            in if orig_attr_len \<le> 14 then Some (mem_put val 0 p1)
               else if orig_attr_len > length val - 2 then None
               else
                 (let bytes_left = orig_attr_len + 2 - 16;
                      last_block_len = bytes_left mod 16;
                      blocks_left = bytes_left div 16;
                      val = (if last_block_len \<noteq> 0 then
                               memxor_at val (blocks_left * 16 + 16)
                                 (H (secret @ take 16 (drop (blocks_left * 16) val)))
                                 last_block_len
                             else val)
                  in Some (mem_put (decode_loop H secret blocks_left val) 0 p1))))"

definition decode_avp ::
    "(bytes \<Rightarrow> bytes) \<Rightarrow> u16 \<Rightarrow> u16 \<Rightarrow> bytes \<Rightarrow> bytes \<Rightarrow> bytes \<Rightarrow> bytes option" where
  "decode_avp H flags typ val RV secret =
     (let avp_len = unat (flags AND L2TP_AVP_LEN_MASK)
      in if avp_len < 6 + 2 then None else decode_attr H typ (take (avp_len - 6) val) RV secret)"

text \<open>The cipher of \<open>encode_attr\<close>, on the bytes of the hidden subformat.\<close>

primrec encode_loop ::
    "(bytes \<Rightarrow> bytes) \<Rightarrow> bytes \<Rightarrow> nat \<Rightarrow> bytes \<Rightarrow> nat \<Rightarrow> bytes \<times> nat" where
  "encode_loop H secret 0 val ptr = (val, ptr)"
| "encode_loop H secret (Suc k) val ptr =
     encode_loop H secret k
       (memxor_at val (ptr + 16) (H (secret @ take 16 (drop ptr val))) 16) (ptr + 16)"

definition encode_cipher ::
    "(bytes \<Rightarrow> bytes) \<Rightarrow> u16 \<Rightarrow> bytes \<Rightarrow> bytes \<Rightarrow> bytes \<Rightarrow> bytes" where
  "encode_cipher H typ octets RV secret =
     (let md5 = H (put16 typ @ secret @ RV)
      in if length octets \<le> 16 then memxor octets md5 (length octets)
         else
           (let octets = memxor octets md5 16;
                blocks_left = length octets div 16 - 1;
                last_block_len = length octets mod 16;
                (octets, ptr) = encode_loop H secret blocks_left octets 0
            in if last_block_len \<noteq> 0 then
                 memxor_at octets (ptr + 16) (H (secret @ take 16 (drop ptr octets))) last_block_len
               else octets))"

text \<open>
  The key stream of RFC 2661, section 4.3, over the ciphered bytes \<open>c\<close>: the first block is the
  hash of type, secret and random vector, the next ones hash the secret and the ciphered block
  before.
\<close>

definition key_stream ::
    "(bytes \<Rightarrow> bytes) \<Rightarrow> u16 \<Rightarrow> bytes \<Rightarrow> bytes \<Rightarrow> bytes \<Rightarrow> nat \<Rightarrow> u8" where
  "key_stream H typ RV secret c i =
     (if i < 16 then H (put16 typ @ secret @ RV) ! i
      else H (secret @ take 16 (drop (16 * (i div 16 - 1)) c)) ! (i mod 16))"

definition ciphered :: "(bytes \<Rightarrow> bytes) \<Rightarrow> u16 \<Rightarrow> bytes \<Rightarrow> bytes \<Rightarrow> bytes \<Rightarrow> bytes \<Rightarrow> bool" where
  "ciphered H typ RV secret clear c \<longleftrightarrow>
     length c = length clear \<and>
     (\<forall>i < length clear. c ! i = clear ! i XOR key_stream H typ RV secret c i)"

lemma block_cong:
  assumes "\<And>i. i < n \<Longrightarrow> a ! i = b ! i" "n \<le> length a" "n \<le> length b" "off + 16 \<le> n"
  shows "take 16 (drop off a) = take 16 (drop off b)"
  using assms by (intro nth_equalityI) simp_all

lemma block_index:
  assumes "16 * m \<le> i" "i < 16 * (m + 1)"
  shows "i div 16 = m" "i mod 16 = i - 16 * (m :: nat)"
proof -
  show d: "i div 16 = m" using assms by (intro div_nat_eqI) simp_all
  show "i mod 16 = i - 16 * m" using minus_mult_div_eq_mod [of i 16] by (simp add: d)
qed

lemma key_stream_cong:
  assumes "\<And>i. i < 16 * m \<Longrightarrow> a ! i = b ! i" "16 * m \<le> length a" "16 * m \<le> length b"
    and "i < 16 * (m + 1)"
  shows "key_stream H typ RV secret a i = key_stream H typ RV secret b i"
proof (cases "i < 16")
  case True
  then show ?thesis by (simp add: key_stream_def)
next
  case False
  moreover from assms(4) have "i div 16 < m + 1"
    by (intro less_mult_imp_div_less) (simp add: mult.commute)
  ultimately have "16 * (i div 16 - 1) + 16 \<le> 16 * m" by linarith
  then show ?thesis
    using False block_cong [OF assms(1-3), of "16 * (i div 16 - 1)"]
    by (simp add: key_stream_def)
qed

lemma xor_cancel [simp]: "(x XOR k) XOR k = (x :: u8)" "k XOR (x XOR k) = x"
proof -
  show "(x XOR k) XOR k = x" by (simp add: xor.assoc)
  then show "k XOR (x XOR k) = x" by (simp add: xor.commute)
qed

locale digest16 = digest H 16 for H :: "bytes \<Rightarrow> bytes"
begin

lemma encode_loop_spec:
  assumes "16 * (j + k + 1) \<le> length v" and "encode_loop H secret k v (16 * j) = (out, ptr)"
  shows "ptr = 16 * (j + k) \<and> length out = length v \<and>
    (\<forall>i < length v. out ! i = (if 16 * (j + 1) \<le> i \<and> i < 16 * (j + k + 1)
       then v ! i XOR key_stream H typ RV secret out i else v ! i))"
  using assms
proof (induction k arbitrary: v j)
  case 0
  then show ?case by auto
next
  case (Suc k)
  define v1 where "v1 = memxor_at v (16 * j + 16) (H (secret @ take 16 (drop (16 * j) v))) 16"
  have len: "length v1 = length v"
    using Suc.prems(1) by (simp add: v1_def digest_length)
  have v1: "v1 ! i = (if 16 * (j + 1) \<le> i \<and> i < 16 * (j + 2)
      then v ! i XOR H (secret @ take 16 (drop (16 * j) v)) ! (i - 16 * (j + 1)) else v ! i)"
    if "i < length v" for i
    using Suc.prems(1) that by (auto simp: v1_def nth_memxor_at digest_length ac_simps)
  have "encode_loop H secret k v1 (16 * (j + 1)) = (out, ptr)"
    using Suc.prems(2) by (simp add: v1_def algebra_simps)
  from Suc.IH [OF _ this] Suc.prems(1) len
  have ih: "ptr = 16 * (j + 1 + k)" "length out = length v"
    "\<And>i. i < length v \<Longrightarrow> out ! i = (if 16 * (j + 2) \<le> i \<and> i < 16 * (j + k + 2)
       then v1 ! i XOR key_stream H typ RV secret out i else v1 ! i)"
    by auto
  have mid: "out ! i = v ! i XOR key_stream H typ RV secret out i"
    if i: "16 * (j + 1) \<le> i" "i < 16 * (j + 2)" for i
  proof -
    have "take 16 (drop (16 * j) out) = take 16 (drop (16 * j) v)"
      by (rule block_cong [of "16 * (j + 1)"]) (use Suc.prems(1) ih(2,3) v1 in auto)
    moreover have "i div 16 = j + 1" "i mod 16 = i - 16 * (j + 1)"
      using i block_index [of "j + 1" i] by simp_all
    ultimately show ?thesis
      using i ih(3) [of i] v1 [of i] Suc.prems(1) by (simp add: key_stream_def)
  qed
  have "out ! i = (if 16 * (j + 1) \<le> i \<and> i < 16 * (j + Suc k + 1)
      then v ! i XOR key_stream H typ RV secret out i else v ! i)" if "i < length v" for i
    by (cases "16 * (j + 1) \<le> i \<and> i < 16 * (j + 2)")
      (use mid ih(3) [OF that] v1 [OF that] in auto)
  with ih show ?case by auto
qed

lemma encode_cipher_ciphered: "ciphered H typ RV secret clear (encode_cipher H typ clear RV secret)"
proof (cases "length clear \<le> 16")
  case True
  then show ?thesis
    by (auto simp: ciphered_def encode_cipher_def nth_memxor digest_length key_stream_def)
next
  case False
  let ?d = "H (put16 typ @ secret @ RV)" and ?n = "length clear"
  define v k where "v = memxor clear ?d 16" and "k = ?n div 16 - 1"
  have len: "length v = ?n" and v: "\<And>i. i < ?n \<Longrightarrow> v ! i = (if i < 16 then clear ! i XOR ?d ! i else clear ! i)"
    using False by (simp_all add: v_def nth_memxor digest_length)
  have k: "16 * (k + 1) + ?n mod 16 = ?n" "16 * (k + 1) \<le> ?n"
    using False by (auto simp: k_def)
  obtain out ptr where loop: "encode_loop H secret k v 0 = (out, ptr)" by fastforce
  with encode_loop_spec [of 0 k v secret out ptr "typ" RV] k(2) len
  have out: "ptr = 16 * k" "length out = ?n"
    "\<And>i. i < ?n \<Longrightarrow> out ! i = (if 16 \<le> i \<and> i < 16 * (k + 1)
       then v ! i XOR key_stream H typ RV secret out i else v ! i)"
    by auto
  define c where "c = encode_cipher H typ clear RV secret"
  have c_eq: "c = (if ?n mod 16 \<noteq> 0 then
      memxor_at out (16 * k + 16) (H (secret @ take 16 (drop (16 * k) out))) (?n mod 16) else out)"
    using False loop out(1) len by (simp add: c_def encode_cipher_def Let_def k_def flip: v_def)
  have c: "length c = ?n" "\<And>i. i < ?n \<Longrightarrow> c ! i = (if 16 * (k + 1) \<le> i
      then out ! i XOR H (secret @ take 16 (drop (16 * k) out)) ! (i - 16 * (k + 1)) else out ! i)"
    using k out(2) by (auto simp: c_eq nth_memxor_at digest_length ac_simps)
  have ks: "key_stream H typ RV secret c i = key_stream H typ RV secret out i" if "i < ?n" for i
    by (rule key_stream_cong [of "k + 1"]) (use c out(2) k that in auto)
  have "c ! i = clear ! i XOR key_stream H typ RV secret c i" if i: "i < ?n" for i
  proof (cases "16 * (k + 1) \<le> i")
    case True
    then have "i div 16 = k + 1" "i mod 16 = i - 16 * (k + 1)"
      using i k block_index [of "k + 1" i] by simp_all
    with True show ?thesis
      unfolding ks [OF i] using c(2) [OF i] out(3) [OF i] v [OF i] by (simp add: key_stream_def)
  next
    case False
    with c(2) [OF i] out(3) [OF i] v [OF i] show ?thesis
      unfolding ks [OF i] by (cases "i < 16") (simp_all add: key_stream_def)
  qed
  with c(1) show ?thesis by (simp add: ciphered_def flip: c_def)
qed

lemma decode_loop_spec:
  assumes "16 * (k + 1) \<le> length v"
  shows "length (decode_loop H secret k v) = length v \<and>
    (\<forall>i < length v. decode_loop H secret k v ! i = (if 16 \<le> i \<and> i < 16 * (k + 1)
       then v ! i XOR key_stream H typ RV secret v i else v ! i))"
  using assms
proof (induction k arbitrary: v)
  case (Suc k)
  define v1 where "v1 = memxor_at v (16 * (k + 1)) (H (secret @ take 16 (drop (16 * k) v))) 16"
  have len: "length v1 = length v"
    using Suc.prems by (simp add: v1_def digest_length)
  have v1: "v1 ! i = (if 16 * (k + 1) \<le> i \<and> i < 16 * (k + 2)
      then v ! i XOR H (secret @ take 16 (drop (16 * k) v)) ! (i - 16 * (k + 1)) else v ! i)"
    if "i < length v" for i
    using Suc.prems that by (auto simp: v1_def nth_memxor_at digest_length ac_simps)
  have step: "decode_loop H secret (Suc k) v = decode_loop H secret k v1"
    by (simp add: v1_def ac_simps)
  have ks: "key_stream H typ RV secret v1 i = key_stream H typ RV secret v i" if "i < 16 * (k + 2)" for i
    by (rule key_stream_cong [of "k + 1"]) (use v1 Suc.prems len that in auto)
  have top: "key_stream H typ RV secret v i = H (secret @ take 16 (drop (16 * k) v)) ! (i - 16 * (k + 1))"
    if "16 * (k + 1) \<le> i" "i < 16 * (k + 2)" for i
  proof -
    have "i div 16 = k + 1" "i mod 16 = i - 16 * (k + 1)"
      using that block_index [of "k + 1" i] by simp_all
    with that show ?thesis by (simp add: key_stream_def)
  qed
  have ih: "length (decode_loop H secret k v1) = length v"
    "\<And>i. i < length v \<Longrightarrow> decode_loop H secret k v1 ! i = (if 16 \<le> i \<and> i < 16 * (k + 1)
       then v1 ! i XOR key_stream H typ RV secret v1 i else v1 ! i)"
    using Suc.IH [of v1] Suc.prems len by simp_all
  have "decode_loop H secret k v1 ! i = (if 16 \<le> i \<and> i < 16 * (Suc k + 1)
      then v ! i XOR key_stream H typ RV secret v i else v ! i)" if i: "i < length v" for i
  proof (cases "16 * (k + 1) \<le> i \<and> i < 16 * (k + 2)")
    case True
    with ih(2) [OF i] v1 [OF i] top [of i] show ?thesis by simp
  next
    case False
    with ih(2) [OF i] v1 [OF i] ks [of i] show ?thesis by auto
  qed
  with ih(1) show ?case unfolding step by simp
qed auto

text \<open>Deciphering uses the key stream of the ciphered bytes, block by block from the end.\<close>

lemma decode_blocks:
  assumes c: "ciphered H typ RV secret clear c" and bl: "16 + bl \<le> length clear"
  defines "k \<equiv> bl div 16" and "l \<equiv> bl mod 16"
  defines "v \<equiv> if l \<noteq> 0 then
      memxor_at c (k * 16 + 16) (H (secret @ take 16 (drop (k * 16) c))) l else c"
  shows "length (decode_loop H secret k v) = length c"
    and "\<And>i. 16 \<le> i \<Longrightarrow> i < 16 + bl \<Longrightarrow> decode_loop H secret k v ! i = clear ! i"
proof -
  have kl: "16 * k + l = bl" by (simp add: k_def l_def)
  have l16: "l < 16" by (simp add: l_def)
  have len: "length c = length clear"
    and ci: "\<And>i. i < length clear \<Longrightarrow> c ! i = clear ! i XOR key_stream H typ RV secret c i"
    using c by (auto simp: ciphered_def)
  have v: "length v = length c" "\<And>i. i < length c \<Longrightarrow> v ! i = (if 16 * (k + 1) \<le> i \<and> i < 16 + bl
      then c ! i XOR H (secret @ take 16 (drop (16 * k) c)) ! (i - 16 * (k + 1)) else c ! i)"
    using bl kl l16 len by (auto simp: v_def nth_memxor_at digest_length ac_simps)
  have ks: "key_stream H typ RV secret v i = key_stream H typ RV secret c i" if "i < 16 * (k + 2)" for i
    by (rule key_stream_cong [of "k + 1"]) (use v bl kl len that in auto)
  have fits: "16 * (k + 1) \<le> length v" using bl kl len v(1) by simp
  note loop = decode_loop_spec [OF fits, of secret "typ" RV]
  from loop v(1) show "length (decode_loop H secret k v) = length c" by simp
  fix i assume i: "16 \<le> i" "i < 16 + bl"
  then have il: "i < length clear" using bl by simp
  have loop_i: "decode_loop H secret k v ! i = (if i < 16 * (k + 1)
      then v ! i XOR key_stream H typ RV secret c i else v ! i)"
    using loop i(1) il len v(1) ks [of i] by simp
  show "decode_loop H secret k v ! i = clear ! i"
  proof (cases "i < 16 * (k + 1)")
    case True
    then show ?thesis using loop_i v(2) [of i] ci [OF il] il len by simp
  next
    case False
    with i kl l16 have "i div 16 = k + 1" "i mod 16 = i - 16 * (k + 1)"
      using block_index [of "k + 1" i] by simp_all
    with i have "key_stream H typ RV secret c i =
        H (secret @ take 16 (drop (16 * k) c)) ! (i - 16 * (k + 1))"
      by (simp add: key_stream_def)
    then show ?thesis using False i loop_i v(2) [of i] ci [OF il] il len by simp
  qed
qed

lemma first_block:
  assumes "ciphered H typ RV secret clear c" "16 \<le> length clear"
  shows "memxor (H (put16 typ @ secret @ RV)) c 16 = take 16 clear"
  using assms
  by (intro nth_equalityI) (auto simp: ciphered_def nth_memxor digest_length key_stream_def)

lemma decode_ciphered:
  assumes c: "ciphered H typ RV secret (put16 n @ v @ pad) c" and n: "length v = unat n"
  shows "\<exists>out. decode_attr H typ c RV secret = Some out \<and> length out = length c \<and>
    take (2 + length v) out = put16 n @ v"
proof -
  define clear where "clear = put16 n @ v @ pad"
  note c' = c [folded clear_def]
  have len: "length c = length clear" "2 + length v \<le> length clear"
    and tk: "take (2 + length v) clear = put16 n @ v"
    using c' by (simp_all add: ciphered_def clear_def)
  consider "length clear \<le> 16" | "16 < length clear" "length v \<le> 14" | "16 < length clear" "14 < length v"
    by linarith
  then show ?thesis
  proof cases
    case 1
    then have "memxor c (H (put16 typ @ secret @ RV)) (length c) = clear"
      using c' by (intro nth_equalityI)
        (auto simp: ciphered_def nth_memxor digest_length key_stream_def)
    then show ?thesis using 1 len tk by (simp add: decode_attr_def)
  next
    case 2
    note p1 = first_block [OF c' less_imp_le [OF 2(1)]]
    have "unat (rd16 (take 16 clear)) = length v"
      using n by (simp add: clear_def numeral_2_eq_2)
    moreover have "take (2 + length v) (mem_put c 0 (take 16 clear)) = put16 n @ v"
      using 2 len tk by (simp add: mem_put_def min_def)
    ultimately show ?thesis
      using 2 len p1 by (simp add: decode_attr_def Let_def)
  next
    case 3
    define bl where "bl = length v + 2 - 16"
    have bl: "16 + bl = 2 + length v" "16 + bl \<le> length clear" using 3 len(2) by (simp_all add: bl_def)
    note p1 = first_block [OF c' less_imp_le [OF 3(1)]]
    have orig: "unat (rd16 (take 16 clear)) = length v"
      using n by (simp add: clear_def numeral_2_eq_2)
    define u where "u = (if bl mod 16 \<noteq> 0 then memxor_at c (bl div 16 * 16 + 16)
        (H (secret @ take 16 (drop (bl div 16 * 16) c))) (bl mod 16) else c)"
    note blocks = decode_blocks [OF c' bl(2), folded u_def]
    define out where "out = mem_put (decode_loop H secret (bl div 16) u) 0 (take 16 clear)"
    have "\<not> length clear - 2 < length v" using len(2) by linarith
    then have "decode_attr H typ c RV secret = Some out"
      using 3 len p1 orig by (simp add: decode_attr_def Let_def out_def u_def bl_def)
    moreover have "length out = length c"
      using blocks(1) 3 len by (simp add: out_def)
    moreover have "take (2 + length v) out = take (2 + length v) clear"
      using blocks 3 len bl by (intro nth_equalityI) (auto simp: out_def mem_put_def nth_append)
    ultimately show ?thesis using tk by auto
  qed
qed

lemma decode_encode:
  assumes "length v = unat n"
  obtains out where "decode_attr H typ (encode_cipher H typ (put16 n @ v @ pad) RV secret) RV secret = Some out"
    "length out = 2 + length v + length pad" "take (2 + length v) out = put16 n @ v"
proof -
  note c = encode_cipher_ciphered [of "typ" RV secret "put16 n @ v @ pad"]
  with decode_ciphered [OF this assms] that show thesis by (auto simp: ciphered_def)
qed

lemma length_encode_cipher: "length (encode_cipher H typ clear RV secret) = length clear"
  using encode_cipher_ciphered [of "typ" RV secret clear] by (simp add: ciphered_def)

end

interpretation md5_hide: digest16 md5
  by unfold_locales

section \<open>Properties\<close>

text \<open>
  C4: The word-wise \<open>memxor\<close> is the bytewise exclusive or of the first \<open>sz\<close> bytes and leaves
  the rest of the destination alone.
\<close>

theorem memxor_bytewise:
  assumes "sz \<le> length dst" "sz \<le> length src"
  shows "memxor dst src sz = map2 (XOR) (take sz dst) (take sz src) @ drop sz dst"
  using memxor_xor_bytes [OF assms] by (simp add: xor_bytes_def)

theorem memxor_bytewise_witness:
  "memxor [1, 2, 3, 4, 5, 6, 7, 8, 9, 10, 11, 12, 13, 14, 15, 16]
     [255, 255, 255, 255, 255, 255, 255, 255, 1, 1, 1, 1, 2, 2, 4] 15 =
   [254, 253, 252, 251, 250, 249, 248, 247, 8, 11, 10, 13, 15, 12, 11, 16]"
  using memxor_bytewise [of 15 "[1, 2, 3, 4, 5, 6, 7, 8, 9, 10, 11, 12, 13, 14, 15, 16]"
      "[255, 255, 255, 255, 255, 255, 255, 255, 1, 1, 1, 1, 2, 2, 4]"]
  by simp

text \<open>
  C8: Revealing a hidden attribute value gives back its length and its bytes: for every value
  \<open>v\<close> whose length is stored in front of it, every padding, secret and random vector, with MD5 as
  the hash, deciphering accepts what \<open>encode_attr\<close> ciphered and its first bytes are the
  length field and the value; and so does \<open>decode_avp\<close> on an attribute whose ten-bit length field
  counts these bytes.
\<close>

theorem reveal_hidden_value:
  fixes t :: u16 and v pad RV secret :: bytes
  assumes "length v = unat n"
  defines "hidden \<equiv> encode_cipher md5 t (put16 n @ v @ pad) RV secret"
  shows "map_option (take (2 + length v)) (decode_attr md5 t hidden RV secret) = Some (put16 n @ v) \<and>
    (unat (flags AND L2TP_AVP_LEN_MASK) = 6 + length hidden \<longrightarrow>
      map_option (take (2 + length v)) (decode_avp md5 flags t hidden RV secret) = Some (put16 n @ v))"
proof -
  obtain out where out: "decode_attr md5 t hidden RV secret = Some out" "take (2 + length v) out = put16 n @ v"
    unfolding hidden_def using md5_hide.decode_encode [OF assms(1)] by blast
  moreover have "2 \<le> length hidden" by (simp add: hidden_def md5_hide.length_encode_cipher)
  ultimately show ?thesis by (simp add: decode_avp_def Let_def)
qed

theorem reveal_hidden_value_witness:
  "map_option (take 22) (decode_avp md5 0xc02c 14
      (encode_cipher md5 14 (put16 20 @ replicate 20 65 @ replicate 16 7) [1, 2, 3] [115]) [1, 2, 3] [115]) =
    Some (put16 20 @ replicate 20 65)"
  using reveal_hidden_value [where v = "replicate 20 65" and n = 20 and t = 14 and pad = "replicate 16 7" and RV = "[1, 2, 3]"
      and secret = "[115]" and flags = "0xc02c"]
  by (simp add: md5_hide.length_encode_cipher)

end
