(* ===== verification/L2tp_Packet.thy ===== *)
theory L2tp_Packet
  imports L2tp_Avp
begin

text \<open>
  L2TP control messages, \<open>micro-bngd/ctrl/l2tp/packet.c\<close>: building a message attribute by
  attribute, serialising it (\<open>l2tp_packet_send\<close>) and parsing it (\<open>l2tp_recv\<close>), with the
  attribute dictionary of \<open>dict.c\<close>. Socket calls are left out: \<open>l2tp_packet_send\<close> gives
  the bytes it would hand to \<open>sendto\<close>, \<open>l2tp_recv\<close> takes the bytes that \<open>recvfrom\<close>
  returned. Memory allocation succeeds, except for sizes that \<open>malloc\<close> cannot serve. Header
  fields are kept in host order. The main result is that parsing inverts serialising, hidden
  attributes included.
\<close>

section \<open>Data\<close>

datatype attr_type = ATTR_TYPE_NONE | ATTR_TYPE_INT16 | ATTR_TYPE_INT32 | ATTR_TYPE_INT64
  | ATTR_TYPE_OCTETS | ATTR_TYPE_STRING

text \<open>A dictionary entry; \<open>M\<close> and \<open>H\<close> are 0, 1, or -1 when the dictionary leaves them open.\<close>

record l2tp_dict_attr_t =
  da_id :: int
  da_type :: attr_type
  da_M :: int
  da_H :: int

text \<open>The union \<open>l2tp_value_t\<close>, tagged by the member in use.\<close>

datatype l2tp_value_t = V_none | V_int16 u16 | V_int32 u32 | V_int64 u64 | V_octets bytes | V_string bytes

record l2tp_attr_t =
  la_attr :: l2tp_dict_attr_t
  la_M :: bool
  la_H :: bool
  la_length :: int
  la_val :: l2tp_value_t

record l2tp_hdr_t =
  h_flags :: u16
  h_length :: u16
  h_tid :: u16
  h_sid :: u16
  h_Ns :: u16
  h_Nr :: u16

record l2tp_packet_t =
  pk_addr :: "u32 \<times> u16"
  pk_hdr :: l2tp_hdr_t
  pk_attrs :: "l2tp_attr_t list"
  pk_last_RV :: "l2tp_attr_t option"
  pk_secret :: bytes
  pk_hide_avps :: bool

text \<open>The daemon's settings the functions read: dictionary, \<open>conf_avp_permissive\<close>, and the hash.\<close>

record l2tp_env =
  env_dict :: "l2tp_dict_attr_t list"
  env_permissive :: bool
  env_md5 :: "bytes \<Rightarrow> bytes"

abbreviation (input) Message_Type :: int where "Message_Type \<equiv> 0"
abbreviation (input) Random_Vector :: int where "Random_Vector \<equiv> 36"

abbreviation (input) L2TP_FLAG_T :: u16 where "L2TP_FLAG_T \<equiv> 0x8000"
abbreviation (input) L2TP_FLAG_L :: u16 where "L2TP_FLAG_L \<equiv> 0x4000"
abbreviation (input) L2TP_FLAG_S :: u16 where "L2TP_FLAG_S \<equiv> 0x0800"
abbreviation (input) L2TP_FLAG_O :: u16 where "L2TP_FLAG_O \<equiv> 0x0200"
abbreviation (input) L2TP_VER_MASK :: u16 where "L2TP_VER_MASK \<equiv> 0x000f"
abbreviation (input) L2TP_AVP_FLAG_M :: u16 where "L2TP_AVP_FLAG_M \<equiv> 0x8000"
abbreviation (input) L2TP_AVP_FLAG_H :: u16 where "L2TP_AVP_FLAG_H \<equiv> 0x4000"

definition l2tp_dict_find_attr_by_id :: "l2tp_dict_attr_t list \<Rightarrow> int \<Rightarrow> l2tp_dict_attr_t option" where
  "l2tp_dict_find_attr_by_id dict i = find (\<lambda>da. da_id da = i) dict"

fun val_octets :: "l2tp_value_t \<Rightarrow> bytes" where
  "val_octets (V_octets b) = b"
| "val_octets (V_string b) = b"
| "val_octets _ = []"

section \<open>Receiving\<close>

text \<open>
  Reading a value. \<open>orig_avp_len\<close> is a 16 bit sum, so a hidden attribute whose length field
  is near 65535 makes \<open>attr->length\<close> negative; \<open>malloc\<close> refuses negative sizes, which
  it sees as sizes above \<open>PTRDIFF_MAX\<close>. \<open>Val_fault\<close> marks a copy that leaves the bytes
  \<open>av\<close> of the attribute.
\<close>

datatype val_res = Val_err | Val_fault | Val_ok l2tp_value_t

definition recv_value :: "attr_type \<Rightarrow> u16 \<Rightarrow> bytes \<Rightarrow> val_res" where
  "recv_value ty orig_avp_len av =
     (let len = int (unat orig_avp_len) - 6;
          int_val = (\<lambda>n v. if orig_avp_len \<noteq> 6 + of_nat n then Val_err
                            else if length av < n then Val_fault else Val_ok v)
      in case ty of
           ATTR_TYPE_INT16 \<Rightarrow> int_val 2 (V_int16 (rd16 av))
         | ATTR_TYPE_INT32 \<Rightarrow> int_val 4 (V_int32 (rd32 av))
         | ATTR_TYPE_INT64 \<Rightarrow> int_val 8 (V_int64 (rd64 av))
         | ATTR_TYPE_OCTETS \<Rightarrow>
             if len < 0 then Val_err
             else if int (length av) < len then Val_fault else Val_ok (V_octets (take (nat len) av))
         | ATTR_TYPE_STRING \<Rightarrow>
             if len + 1 < 0 then Val_err
             else if len < 0 \<or> int (length av) < len then Val_fault
             else Val_ok (V_string (take (nat len) av))
         | ATTR_TYPE_NONE \<Rightarrow> Val_ok V_none)"

text \<open>One attribute: the body of the loop of \<open>l2tp_recv\<close> after the length checks.\<close>

datatype avp_res = Avp_skip | Avp_err | Avp_fault | Avp_attr l2tp_attr_t

definition avp_refused :: "l2tp_env \<Rightarrow> l2tp_dict_attr_t \<Rightarrow> bool \<Rightarrow> bool \<Rightarrow> bool" where
  "avp_refused env da M H \<longleftrightarrow>
     (da_M da \<noteq> -1 \<and> (da_M da = 0) \<noteq> (\<not> M) \<or> da_H da \<noteq> -1 \<and> (da_H da = 0) \<noteq> (\<not> H)) \<and>
     \<not> env_permissive env"

definition avp_reveal ::
    "l2tp_env \<Rightarrow> bytes \<Rightarrow> l2tp_attr_t option \<Rightarrow> u16 \<Rightarrow> u16 \<Rightarrow> bytes \<Rightarrow> (u16 \<times> bytes) option" where
  "avp_reveal env secret RV flags typ av =
     (if flags AND L2TP_AVP_FLAG_H \<noteq> 0 then
        (case RV of
           None \<Rightarrow> None
         | Some rv \<Rightarrow>
             if secret = [] then None
             else case decode_avp (env_md5 env) flags typ av (val_octets (la_val rv)) secret of
                    None \<Rightarrow> None
                  | Some out \<Rightarrow> Some (rd16 out + 6, drop 2 out))
      else Some (flags AND L2TP_AVP_LEN_MASK, av))"

definition recv_avp ::
    "l2tp_env \<Rightarrow> bytes \<Rightarrow> l2tp_attr_t option \<Rightarrow> u16 \<Rightarrow> u16 \<Rightarrow> u16 \<Rightarrow> bytes \<Rightarrow> avp_res" where
  "recv_avp env secret RV flags vendor typ av =
     (let M = (flags AND L2TP_AVP_FLAG_M \<noteq> 0); H = (flags AND L2TP_AVP_FLAG_H \<noteq> 0)
      in if vendor \<noteq> 0 then Avp_skip
         else case l2tp_dict_find_attr_by_id (env_dict env) (uint typ) of
           None \<Rightarrow> if M \<and> \<not> env_permissive env then Avp_err else Avp_skip
         | Some da \<Rightarrow>
             if avp_refused env da M H then Avp_err
             else case avp_reveal env secret RV flags typ av of
                    None \<Rightarrow> Avp_err
                  | Some (orig_avp_len, orig_avp_val) \<Rightarrow>
                      (case recv_value (da_type da) orig_avp_len orig_avp_val of
                         Val_err \<Rightarrow> Avp_err
                       | Val_fault \<Rightarrow> Avp_fault
                       | Val_ok v \<Rightarrow>
                           Avp_attr \<lparr>la_attr = da, la_M = M, la_H = False,
                             la_length = int (unat orig_avp_len) - 6, la_val = v\<rparr>))"

datatype rx = Rx_drop | Rx_fault | Rx_attrs "l2tp_attr_t list"

function recv_avps ::
    "l2tp_env \<Rightarrow> bytes \<Rightarrow> l2tp_attr_t option \<Rightarrow> bytes \<Rightarrow> l2tp_attr_t list \<Rightarrow> rx" where
  "recv_avps env secret RV bs attrs =
     (if bs = [] then Rx_attrs attrs
      else if length bs < 6 then Rx_drop
      else
        (let flags = rd16 bs; avp_len = unat (flags AND L2TP_AVP_LEN_MASK)
         in if avp_len < 6 then Rx_drop
            else if length bs < avp_len then Rx_drop
            else case recv_avp env secret RV flags (rd16 (drop 2 bs)) (rd16 (drop 4 bs))
                        (take (avp_len - 6) (drop 6 bs)) of
              Avp_skip \<Rightarrow> recv_avps env secret RV (drop avp_len bs) attrs
            | Avp_err \<Rightarrow> Rx_drop
            | Avp_fault \<Rightarrow> Rx_fault
            | Avp_attr a \<Rightarrow>
                recv_avps env secret (if da_id (la_attr a) = Random_Vector then Some a else RV)
                  (drop avp_len bs) (attrs @ [a])))"
  by pat_completeness auto
termination by (relation "measure (\<lambda>(_, _, _, bs, _). length bs)") auto

declare recv_avps.simps [simp del]

datatype recv_res = Recv_drop | Recv_fault | Recv_pack l2tp_packet_t

definition hdr_ok :: "u16 \<Rightarrow> bool" where
  "hdr_ok flags \<longleftrightarrow>
     flags AND L2TP_FLAG_T \<noteq> 0 \<and> flags AND L2TP_FLAG_L \<noteq> 0 \<and> flags AND L2TP_FLAG_S \<noteq> 0 \<and>
     (flags AND L2TP_VER_MASK = 2 \<and> flags AND L2TP_FLAG_O = 0 \<or> flags AND L2TP_VER_MASK = 3)"

definition rd_hdr :: "bytes \<Rightarrow> l2tp_hdr_t" where
  "rd_hdr b = \<lparr>h_flags = rd16 b, h_length = rd16 (drop 2 b), h_tid = rd16 (drop 4 b),
     h_sid = rd16 (drop 6 b), h_Ns = rd16 (drop 8 b), h_Nr = rd16 (drop 10 b)\<rparr>"

definition l2tp_recv :: "l2tp_env \<Rightarrow> bytes \<Rightarrow> u32 \<times> u16 \<Rightarrow> bytes \<Rightarrow> recv_res" where
  "l2tp_recv env secret addr buf =
     (if length buf < 12 then Recv_drop
      else
        (let hdr = rd_hdr buf; len = unat (h_length hdr)
         in if \<not> hdr_ok (h_flags hdr) then Recv_drop
            else if len < 12 then Recv_drop
            else if length buf < len then Recv_drop
            else case recv_avps env secret None (take (len - 12) (drop 12 buf)) [] of
                   Rx_drop \<Rightarrow> Recv_drop
                 | Rx_fault \<Rightarrow> Recv_fault
                 | Rx_attrs attrs \<Rightarrow>
                     Recv_pack \<lparr>pk_addr = addr, pk_hdr = hdr, pk_attrs = attrs, pk_last_RV = None,
                       pk_secret = [], pk_hide_avps = False\<rparr>))"

section \<open>Sending\<close>

text \<open>
  Each attribute advances the write pointer by its length over a zeroed buffer, so a value
  shorter than the length is followed by zeros.
\<close>

definition avp_flags :: "l2tp_attr_t \<Rightarrow> u16" where
  "avp_flags a = (if la_M a then L2TP_AVP_FLAG_M else 0) OR (if la_H a then L2TP_AVP_FLAG_H else 0) OR
     (of_int (6 + la_length a) AND L2TP_AVP_LEN_MASK)"

text \<open>
  The value as its dictionary type says. The add functions below are called with the type the
  dictionary has, so the union is read through the member it was written through; the last
  equation is the attribute without value.
\<close>

fun plain_value :: "attr_type \<Rightarrow> l2tp_value_t \<Rightarrow> bytes" where
  "plain_value ATTR_TYPE_INT16 (V_int16 w) = put16 w"
| "plain_value ATTR_TYPE_INT32 (V_int32 w) = put32 w"
| "plain_value ATTR_TYPE_INT64 (V_int64 w) = put64 w"
| "plain_value ATTR_TYPE_OCTETS v = val_octets v"
| "plain_value ATTR_TYPE_STRING v = val_octets v"
| "plain_value _ _ = []"

definition attr_raw :: "l2tp_attr_t \<Rightarrow> bytes" where
  "attr_raw a = (if la_H a then val_octets (la_val a) else plain_value (da_type (la_attr a)) (la_val a))"

definition avp_value :: "l2tp_attr_t \<Rightarrow> bytes" where
  "avp_value a = (let n = nat (la_length a) in take n (attr_raw a @ replicate n 0))"

definition avp_bytes :: "l2tp_attr_t \<Rightarrow> bytes" where
  "avp_bytes a = put16 (avp_flags a) @ put16 0 @ put16 (of_int (da_id (la_attr a))) @ avp_value a"

fun send_avps :: "int \<Rightarrow> l2tp_attr_t list \<Rightarrow> bytes option" where
  "send_avps len [] = Some []"
| "send_avps len (a # as) =
     (if len + 6 + la_length a \<ge> 65536 then None
      else map_option (\<lambda>bs. avp_bytes a @ bs) (send_avps (len + 6 + la_length a) as))"

definition put_hdr :: "l2tp_hdr_t \<Rightarrow> bytes" where
  "put_hdr h = put16 (h_flags h) @ put16 (h_length h) @ put16 (h_tid h) @ put16 (h_sid h) @
     put16 (h_Ns h) @ put16 (h_Nr h)"

text \<open>The datagram of \<open>l2tp_packet_send\<close>; \<open>None\<close> when the message exceeds the buffer.\<close>

definition l2tp_packet_send :: "l2tp_packet_t \<Rightarrow> bytes option" where
  "l2tp_packet_send p =
     (case send_avps 12 (pk_attrs p) of
        None \<Rightarrow> None
      | Some bs \<Rightarrow> Some (put_hdr ((pk_hdr p)\<lparr>h_length := of_nat (12 + length bs)\<rparr>) @ bs))"

section \<open>Building\<close>

text \<open>
  The random bytes an operation draws through \<open>u_randbuf\<close>: the length and the bytes of a random
  vector and of a padding. \<open>None\<close> is a failed read.
\<close>

record l2tp_rand =
  rnd_rv_len :: "u16 option"
  rnd_rv :: "(nat \<Rightarrow> u8) option"
  rnd_pad_len :: "u16 option"
  rnd_pad :: "(nat \<Rightarrow> u8) option"

definition attr_alloc :: "l2tp_env \<Rightarrow> int \<Rightarrow> bool \<Rightarrow> bool \<Rightarrow> l2tp_attr_t option" where
  "attr_alloc env i M H =
     map_option (\<lambda>da. \<lparr>la_attr = da, la_M = (if da_M da \<noteq> -1 then odd (da_M da) else M),
         la_H = (if da_H da \<noteq> -1 then odd (da_H da) else H), la_length = 0, la_val = V_none\<rparr>)
       (l2tp_dict_find_attr_by_id (env_dict env) i)"

definition list_add_tail :: "l2tp_attr_t \<Rightarrow> l2tp_packet_t \<Rightarrow> l2tp_packet_t" where
  "list_add_tail a p = p\<lparr>pk_attrs := pk_attrs p @ [a]\<rparr>"

definition l2tp_packet_add_random_vector ::
    "l2tp_env \<Rightarrow> l2tp_rand \<Rightarrow> l2tp_packet_t \<Rightarrow> l2tp_packet_t option" where
  "l2tp_packet_add_random_vector env rnd p =
     (case (attr_alloc env Random_Vector True False, rnd_rv_len rnd, rnd_rv rnd) of
        (Some a, Some w, Some f) \<Rightarrow>
          (let n = unat (w AND 0x007F) + 16;
               a = a\<lparr>la_length := int n, la_val := V_octets (map f [0..<n])\<rparr>
           in Some ((list_add_tail a p)\<lparr>pk_last_RV := Some a\<rparr>))
      | _ \<Rightarrow> None)"

definition encode_attr ::
    "l2tp_env \<Rightarrow> l2tp_rand \<Rightarrow> l2tp_packet_t \<Rightarrow> l2tp_attr_t \<Rightarrow> bytes \<Rightarrow> l2tp_attr_t option" where
  "encode_attr env rnd p a v =
     (if pk_secret p = [] then None
      else case (pk_last_RV p, rnd_pad_len rnd, rnd_pad rnd) of
        (Some rv, Some w, Some f) \<Rightarrow>
          (let val_len = of_nat (length v) :: u16;
               pad_len = unat (w AND 0x007F) + 16;
               clear = put16 val_len @ take (unat val_len) v @ map f [0..<pad_len]
           in Some (a\<lparr>la_length := 2 + int (unat val_len) + int pad_len,
                      la_val := V_octets (encode_cipher (env_md5 env) (of_int (da_id (la_attr a))) clear
                                  (val_octets (la_val rv)) (pk_secret p))\<rparr>))
      | _ \<Rightarrow> None)"

text \<open>The common part of the five \<open>add\<close> functions: hide the bytes, or store the plain value.\<close>

definition add_attr ::
    "l2tp_env \<Rightarrow> l2tp_rand \<Rightarrow> l2tp_packet_t \<Rightarrow> l2tp_attr_t \<Rightarrow> bytes \<Rightarrow> l2tp_value_t \<Rightarrow> l2tp_packet_t option"
where
  "add_attr env rnd p a v plain =
     (if la_H a then
        (case (if pk_last_RV p = None then l2tp_packet_add_random_vector env rnd p else Some p) of
           None \<Rightarrow> None
         | Some p \<Rightarrow> map_option (\<lambda>a. list_add_tail a p) (encode_attr env rnd p a v))
      else Some (list_add_tail (a\<lparr>la_length := int (length v), la_val := plain\<rparr>) p))"

definition l2tp_packet_add_int16 ::
    "l2tp_env \<Rightarrow> l2tp_rand \<Rightarrow> l2tp_packet_t \<Rightarrow> int \<Rightarrow> u16 \<Rightarrow> bool \<Rightarrow> l2tp_packet_t option" where
  "l2tp_packet_add_int16 env rnd p i w M =
     (case attr_alloc env i M (pk_hide_avps p) of None \<Rightarrow> None
      | Some a \<Rightarrow> add_attr env rnd p a (put16 w) (V_int16 w))"

definition l2tp_packet_add_int32 ::
    "l2tp_env \<Rightarrow> l2tp_rand \<Rightarrow> l2tp_packet_t \<Rightarrow> int \<Rightarrow> u32 \<Rightarrow> bool \<Rightarrow> l2tp_packet_t option" where
  "l2tp_packet_add_int32 env rnd p i w M =
     (case attr_alloc env i M (pk_hide_avps p) of None \<Rightarrow> None
      | Some a \<Rightarrow> add_attr env rnd p a (put32 w) (V_int32 w))"

definition l2tp_packet_add_int64 ::
    "l2tp_env \<Rightarrow> l2tp_rand \<Rightarrow> l2tp_packet_t \<Rightarrow> int \<Rightarrow> u64 \<Rightarrow> bool \<Rightarrow> l2tp_packet_t option" where
  "l2tp_packet_add_int64 env rnd p i w M =
     (case attr_alloc env i M (pk_hide_avps p) of None \<Rightarrow> None
      | Some a \<Rightarrow> add_attr env rnd p a (put64 w) (V_int64 w))"

definition l2tp_packet_add_string ::
    "l2tp_env \<Rightarrow> l2tp_rand \<Rightarrow> l2tp_packet_t \<Rightarrow> int \<Rightarrow> bytes \<Rightarrow> bool \<Rightarrow> l2tp_packet_t option" where
  "l2tp_packet_add_string env rnd p i v M =
     (case attr_alloc env i M (pk_hide_avps p) of None \<Rightarrow> None
      | Some a \<Rightarrow> add_attr env rnd p a v (V_string v))"

definition l2tp_packet_add_octets ::
    "l2tp_env \<Rightarrow> l2tp_rand \<Rightarrow> l2tp_packet_t \<Rightarrow> int \<Rightarrow> bytes \<Rightarrow> bool \<Rightarrow> l2tp_packet_t option" where
  "l2tp_packet_add_octets env rnd p i v M =
     (case attr_alloc env i M (pk_hide_avps p) of None \<Rightarrow> None
      | Some a \<Rightarrow>
          if v = [] then Some (list_add_tail (a\<lparr>la_length := 0, la_val := V_octets []\<rparr>) p)
          else add_attr env rnd p a v (V_octets v))"

definition l2tp_packet_alloc ::
    "l2tp_env \<Rightarrow> l2tp_rand \<Rightarrow> u16 \<Rightarrow> u16 \<Rightarrow> u32 \<times> u16 \<Rightarrow> bool \<Rightarrow> bytes \<Rightarrow> l2tp_packet_t option" where
  "l2tp_packet_alloc env rnd ver msg_type addr H secret =
     (let p = \<lparr>pk_addr = addr,
                pk_hdr = \<lparr>h_flags = L2TP_FLAG_T OR L2TP_FLAG_L OR L2TP_FLAG_S OR (ver AND L2TP_VER_MASK),
                  h_length = 0, h_tid = 0, h_sid = 0, h_Ns = 0, h_Nr = 0\<rparr>,
                pk_attrs = [], pk_last_RV = None, pk_secret = secret, pk_hide_avps = H\<rparr>
      in if msg_type \<noteq> 0 then l2tp_packet_add_int16 env rnd p Message_Type msg_type True
         else Some p)"

section \<open>One attribute on the wire\<close>

lemma avp_flags_bits:
  "avp_flags a AND L2TP_AVP_FLAG_M \<noteq> 0 \<longleftrightarrow> la_M a"
  "avp_flags a AND L2TP_AVP_FLAG_H \<noteq> 0 \<longleftrightarrow> la_H a"
  "avp_flags a AND L2TP_AVP_LEN_MASK = of_int (6 + la_length a) AND L2TP_AVP_LEN_MASK"
  by (auto simp: avp_flags_def bit.conj_disj_distrib2 and.assoc)

lemma avp_flags_len:
  assumes "0 \<le> la_length a" "la_length a \<le> 1017"
  shows "unat (avp_flags a AND L2TP_AVP_LEN_MASK) = nat (6 + la_length a)"
    and "avp_flags a AND L2TP_AVP_LEN_MASK = of_int (6 + la_length a)"
proof -
  define n where "n = nat (6 + la_length a)"
  have n: "6 + la_length a = int n" "n < 1024" using assms by (simp_all add: n_def)
  have "(of_nat n :: u16) AND 0x3ff = take_bit 10 (of_nat n)"
    by (simp add: take_bit_eq_mask mask_eq_exp_minus_1)
  also have "\<dots> = of_nat n"
    using n(2) by (simp add: take_bit_of_nat take_bit_nat_eq_self)
  finally have "avp_flags a AND L2TP_AVP_LEN_MASK = of_nat n"
    unfolding avp_flags_bits(3) n(1) by simp
  then show "avp_flags a AND L2TP_AVP_LEN_MASK = of_int (6 + la_length a)"
    and "unat (avp_flags a AND L2TP_AVP_LEN_MASK) = nat (6 + la_length a)"
    unfolding n(1) using n(2) by (simp_all add: unat_of_nat_small)
qed

text \<open>An attribute whose value has the length its field says.\<close>

definition attr_sized :: "l2tp_attr_t \<Rightarrow> bool" where
  "attr_sized a \<longleftrightarrow> 0 \<le> la_length a \<and> la_length a \<le> 1017 \<and> 0 \<le> da_id (la_attr a) \<and>
     da_id (la_attr a) < 65536 \<and> int (length (attr_raw a)) = la_length a"

lemma avp_value_sized:
  assumes "attr_sized a"
  shows "avp_value a = attr_raw a" and "int (length (avp_value a)) = la_length a"
proof -
  from assms have "length (attr_raw a) = nat (la_length a)"
    by (auto simp: attr_sized_def)
  then show "avp_value a = attr_raw a" and "int (length (avp_value a)) = la_length a"
    using assms by (auto simp: avp_value_def Let_def attr_sized_def)
qed

lemma recv_avps_attr:
  assumes "attr_sized a"
    and "recv_avp env secret RV (avp_flags a) 0 (of_int (da_id (la_attr a))) (avp_value a) = Avp_attr b"
  shows "recv_avps env secret RV (avp_bytes a @ rest) acc =
    recv_avps env secret (if da_id (la_attr b) = Random_Vector then Some b else RV) rest (acc @ [b])"
proof -
  have len: "unat (avp_flags a AND L2TP_AVP_LEN_MASK) = 6 + length (avp_value a)"
    using avp_flags_len(1) [of a] avp_value_sized(2) [OF assms(1)] assms(1)
    by (simp add: attr_sized_def)
  have rd: "rd16 (avp_bytes a @ rest) = avp_flags a" "rd16 (drop 2 (avp_bytes a @ rest)) = 0"
    "rd16 (drop 4 (avp_bytes a @ rest)) = of_int (da_id (la_attr a))"
    "drop 6 (avp_bytes a @ rest) = avp_value a @ rest" "length (avp_bytes a) = 6 + length (avp_value a)"
    by (simp_all add: avp_bytes_def)
  show ?thesis
    by (subst recv_avps.simps) (use assms(2) len rd in \<open>auto simp: Let_def\<close>)
qed

text \<open>A plain attribute is read back as it was written.\<close>

definition type_matches :: "attr_type \<Rightarrow> l2tp_value_t \<Rightarrow> bool" where
  "type_matches ty v \<longleftrightarrow> (case v of V_int16 _ \<Rightarrow> ty = ATTR_TYPE_INT16 | V_int32 _ \<Rightarrow> ty = ATTR_TYPE_INT32
     | V_int64 _ \<Rightarrow> ty = ATTR_TYPE_INT64 | V_octets _ \<Rightarrow> ty = ATTR_TYPE_OCTETS
     | V_string _ \<Rightarrow> ty = ATTR_TYPE_STRING | V_none \<Rightarrow> ty = ATTR_TYPE_NONE)"

lemma recv_value_plain:
  assumes "type_matches ty v" "length (plain_value ty v) = n" "n \<le> 1017"
  shows "recv_value ty (6 + of_nat n) (plain_value ty v @ rest) = Val_ok v"
proof -
  have "unat (6 + of_nat n :: u16) = 6 + n"
    using assms(3) unat_of_nat_small [of "6 + n", where 'a = 16] by simp
  then show ?thesis
    using assms by (cases v) (auto simp: recv_value_def type_matches_def Let_def)
qed

definition da_allows :: "l2tp_dict_attr_t \<Rightarrow> bool \<Rightarrow> bool \<Rightarrow> bool" where
  "da_allows da M H \<longleftrightarrow> (da_M da = -1 \<or> (da_M da = 0) = (\<not> M)) \<and> (da_H da = -1 \<or> (da_H da = 0) = (\<not> H))"

lemma da_allows_not_refused: "da_allows da M H \<Longrightarrow> \<not> avp_refused env da M H"
  by (auto simp: da_allows_def avp_refused_def)

lemma find_attr_id: "l2tp_dict_find_attr_by_id dict i = Some da \<Longrightarrow> da_id da = i"
  by (auto simp: l2tp_dict_find_attr_by_id_def find_Some_iff)

lemma uint_of_id: "0 \<le> i \<Longrightarrow> i < 65536 \<Longrightarrow> uint (of_int i :: u16) = i"
  by (simp add: uint_word_of_int_eq take_bit_int_eq_self)

text \<open>What \<open>recv_avp\<close> makes of a sized attribute, once its value is revealed.\<close>

lemma recv_avp_sized:
  assumes "attr_sized a" "da_allows (la_attr a) (la_M a) (la_H a)"
    and "l2tp_dict_find_attr_by_id (env_dict env) (da_id (la_attr a)) = Some (la_attr a)"
    and "avp_reveal env secret RV (avp_flags a) (of_int (da_id (la_attr a))) (avp_value a) =
      Some (6 + of_nat n, plain_value (da_type (la_attr a)) v @ rest)"
    and "type_matches (da_type (la_attr a)) v" "length (plain_value (da_type (la_attr a)) v) = n" "n \<le> 1017"
  shows "recv_avp env secret RV (avp_flags a) 0 (of_int (da_id (la_attr a))) (avp_value a) =
    Avp_attr \<lparr>la_attr = la_attr a, la_M = la_M a, la_H = False, la_length = int n, la_val = v\<rparr>"
proof -
  have id: "uint (of_int (da_id (la_attr a)) :: u16) = da_id (la_attr a)"
    using assms(1) by (simp add: uint_of_id attr_sized_def)
  have len: "unat (6 + of_nat n :: u16) = 6 + n"
    using assms(7) unat_of_nat_small [of "6 + n", where 'a = 16] by simp
  show ?thesis
    unfolding recv_avp_def Let_def id avp_flags_bits assms(3,4)
    using da_allows_not_refused [OF assms(2), of env] recv_value_plain [OF assms(5-7), of rest] len
    by simp
qed

lemma recv_avp_plain:
  assumes "attr_sized a" "\<not> la_H a" "type_matches (da_type (la_attr a)) (la_val a)"
    and "l2tp_dict_find_attr_by_id (env_dict env) (da_id (la_attr a)) = Some (la_attr a)"
    and "da_allows (la_attr a) (la_M a) False"
  shows "recv_avp env secret RV (avp_flags a) 0 (of_int (da_id (la_attr a))) (avp_value a) = Avp_attr a"
proof -
  define n where "n = length (plain_value (da_type (la_attr a)) (la_val a))"
  have n: "la_length a = int n" "n \<le> 1017" "avp_value a = plain_value (da_type (la_attr a)) (la_val a)"
    using assms(1,2) avp_value_sized(1) [OF assms(1)] by (simp_all add: attr_sized_def attr_raw_def n_def)
  have "avp_reveal env secret RV (avp_flags a) (of_int (da_id (la_attr a))) (avp_value a) =
      Some (6 + of_nat n, plain_value (da_type (la_attr a)) (la_val a) @ [])"
    using avp_flags_len(2) [of a] assms(2) n by (simp add: avp_reveal_def avp_flags_bits(2))
  from recv_avp_sized [OF assms(1) _ assms(4) this assms(3) n_def [symmetric] n(2)] assms(2,5) n(1)
  show ?thesis by simp
qed

section \<open>A whole message\<close>

text \<open>A request to add an attribute, dispatched to the function for its kind of value.\<close>

datatype l2tp_req = Req (rq_id: int) (rq_val: l2tp_value_t) (rq_M: bool)

fun l2tp_packet_add :: "l2tp_env \<Rightarrow> l2tp_rand \<times> l2tp_req \<Rightarrow> l2tp_packet_t \<Rightarrow> l2tp_packet_t option" where
  "l2tp_packet_add env (rnd, Req i (V_int16 w) M) p = l2tp_packet_add_int16 env rnd p i w M"
| "l2tp_packet_add env (rnd, Req i (V_int32 w) M) p = l2tp_packet_add_int32 env rnd p i w M"
| "l2tp_packet_add env (rnd, Req i (V_int64 w) M) p = l2tp_packet_add_int64 env rnd p i w M"
| "l2tp_packet_add env (rnd, Req i (V_octets b) M) p = l2tp_packet_add_octets env rnd p i b M"
| "l2tp_packet_add env (rnd, Req i (V_string b) M) p = l2tp_packet_add_string env rnd p i b M"
| "l2tp_packet_add env (rnd, Req i V_none M) p = None"

fun l2tp_packet_add_all ::
    "l2tp_env \<Rightarrow> (l2tp_rand \<times> l2tp_req) list \<Rightarrow> l2tp_packet_t \<Rightarrow> l2tp_packet_t option" where
  "l2tp_packet_add_all env [] p = Some p"
| "l2tp_packet_add_all env (r # rs) p =
     (case l2tp_packet_add env r p of None \<Rightarrow> None | Some q \<Rightarrow> l2tp_packet_add_all env rs q)"

text \<open>
  What the caller and the dictionary must agree on. The bound on the length keeps a hidden
  attribute, with its length field and up to 143 bytes of padding, within the ten bits of the length
  field; an empty octet string is excluded, since the code marks it hidden without a length field.
\<close>

definition dict_ok :: "l2tp_env \<Rightarrow> bool" where
  "dict_ok env \<longleftrightarrow>
     (\<forall>da \<in> set (env_dict env). da_M da \<in> {-1, 0, 1} \<and> da_H da \<in> {-1, 0, 1}) \<and>
     (case l2tp_dict_find_attr_by_id (env_dict env) Random_Vector of
        None \<Rightarrow> False | Some rv \<Rightarrow> da_type rv = ATTR_TYPE_OCTETS \<and> da_H rv \<in> {-1, 0})"

definition req_ok :: "l2tp_env \<Rightarrow> l2tp_req \<Rightarrow> bool" where
  "req_ok env r \<longleftrightarrow> rq_id r \<noteq> Random_Vector \<and> 0 \<le> rq_id r \<and> rq_id r < 65536 \<and>
     (case l2tp_dict_find_attr_by_id (env_dict env) (rq_id r) of
        None \<Rightarrow> False
      | Some da \<Rightarrow> type_matches (da_type da) (rq_val r) \<and> rq_val r \<noteq> V_none \<and> rq_val r \<noteq> V_octets [] \<and>
          length (plain_value (da_type da) (rq_val r)) \<le> 872)"

text \<open>The attribute the receiver is meant to see.\<close>

definition req_attr :: "l2tp_env \<Rightarrow> l2tp_req \<Rightarrow> l2tp_attr_t" where
  "req_attr env r = (let da = the (l2tp_dict_find_attr_by_id (env_dict env) (rq_id r)) in
     \<lparr>la_attr = da, la_M = (if da_M da \<noteq> -1 then odd (da_M da) else rq_M r), la_H = False,
      la_length = int (length (plain_value (da_type da) (rq_val r))), la_val = rq_val r\<rparr>)"

text \<open>The attributes other than the random vectors that hiding needs.\<close>

definition visible :: "l2tp_attr_t list \<Rightarrow> l2tp_attr_t list" where
  "visible as = filter (\<lambda>a. da_id (la_attr a) \<noteq> Random_Vector) as"

definition carries ::
    "l2tp_env \<Rightarrow> l2tp_packet_t \<Rightarrow> l2tp_attr_t option \<Rightarrow> l2tp_attr_t list \<Rightarrow> bool" where
  "carries env p RV exp \<longleftrightarrow> map_option la_val RV = map_option la_val (pk_last_RV p) \<and>
     (\<forall>rest acc. recv_avps env (pk_secret p) None (concat (map avp_bytes (pk_attrs p)) @ rest) acc =
        recv_avps env (pk_secret p) RV rest (acc @ exp)) \<and>
     (\<forall>a \<in> set (pk_attrs p). 0 \<le> la_length a)"

lemma carries_add:
  assumes "carries env p RV exp" "attr_sized a"
    and "recv_avp env (pk_secret p) RV (avp_flags a) 0 (of_int (da_id (la_attr a))) (avp_value a) = Avp_attr b"
    and "da_id (la_attr b) \<noteq> Random_Vector"
  shows "carries env (list_add_tail a p) RV (exp @ [b])"
  using assms recv_avps_attr [OF assms(2,3)]
  by (simp add: carries_def list_add_tail_def attr_sized_def)

lemma attr_allocD:
  assumes "attr_alloc env i M H = Some a"
  obtains da where "l2tp_dict_find_attr_by_id (env_dict env) i = Some da" "da_id da = i"
    "a = \<lparr>la_attr = da, la_M = (if da_M da \<noteq> -1 then odd (da_M da) else M),
         la_H = (if da_H da \<noteq> -1 then odd (da_H da) else H), la_length = 0, la_val = V_none\<rparr>"
  using assms find_attr_id by (auto simp: attr_alloc_def)

lemma attr_alloc_allowed:
  assumes "dict_ok env" "l2tp_dict_find_attr_by_id (env_dict env) i = Some da"
  shows "da_allows da (if da_M da \<noteq> -1 then odd (da_M da) else M) (if da_H da \<noteq> -1 then odd (da_H da) else H)"
proof -
  from assms(2) have "da \<in> set (env_dict env)"
    by (auto simp: l2tp_dict_find_attr_by_id_def find_Some_iff)
  with assms(1) have "da_M da \<in> {-1, 0, 1}" "da_H da \<in> {-1, 0, 1}"
    by (auto simp: dict_ok_def)
  then show ?thesis by (auto simp: da_allows_def)
qed

lemma unat_and_7F: "unat (w AND 0x007F :: u16) \<le> 127"
proof -
  have "w AND 0x007F = take_bit 7 w"
    by (simp add: take_bit_eq_mask mask_eq_exp_minus_1)
  then have "unat (w AND 0x007F) = take_bit 7 (unat w)"
    by (simp add: unsigned_take_bit_eq)
  then show ?thesis
    using take_bit_nat_less_exp [of 7 "unat w"] by simp
qed

lemma add_random_vectorD:
  assumes "l2tp_packet_add_random_vector env rnd p = Some q"
  obtains a b rv where "attr_alloc env Random_Vector True False = Some a" "length b \<le> 143"
    "rv = a\<lparr>la_length := int (length b), la_val := V_octets b\<rparr>"
    "q = (list_add_tail rv p)\<lparr>pk_last_RV := Some rv\<rparr>"
proof (cases "attr_alloc env Random_Vector True False"; cases "rnd_rv_len rnd"; cases "rnd_rv rnd")
  fix a w f
  assume "attr_alloc env Random_Vector True False = Some a" "rnd_rv_len rnd = Some w" "rnd_rv rnd = Some f"
  with assms that [of a "map f [0..<unat (w AND 0x007F) + 16]"] unat_and_7F [of w] show thesis
    by (simp add: l2tp_packet_add_random_vector_def Let_def)
qed (use assms in \<open>simp_all add: l2tp_packet_add_random_vector_def\<close>)

lemma carries_random_vector:
  assumes "dict_ok env" "carries env p RV exp" "l2tp_packet_add_random_vector env rnd p = Some q"
  obtains rv where "carries env q (Some rv) (exp @ [rv])" "da_id (la_attr rv) = Random_Vector"
    "pk_secret q = pk_secret p" "pk_hdr q = pk_hdr p"
proof -
  from assms(3) obtain a b rv where a: "attr_alloc env Random_Vector True False = Some a"
    and b: "length b \<le> 143" and rv: "rv = a\<lparr>la_length := int (length b), la_val := V_octets b\<rparr>"
    and q: "q = (list_add_tail rv p)\<lparr>pk_last_RV := Some rv\<rparr>"
    by (rule add_random_vectorD)
  obtain da where da: "l2tp_dict_find_attr_by_id (env_dict env) Random_Vector = Some da"
    "da_id da = Random_Vector" "la_attr a = da" "la_M a = (if da_M da \<noteq> -1 then odd (da_M da) else True)"
    "la_H a = (if da_H da \<noteq> -1 then odd (da_H da) else False)"
    by (rule attr_allocD [OF a]) auto
  have ty: "da_type da = ATTR_TYPE_OCTETS" "\<not> la_H a"
    using assms(1) da(1,5) by (auto simp: dict_ok_def)
  have sized: "attr_sized rv"
    using b da ty by (simp add: attr_sized_def attr_raw_def rv)
  have "da_allows da (la_M a) False"
    using attr_alloc_allowed [OF assms(1) da(1), of True False] da(4,5) ty by simp
  then have "recv_avp env (pk_secret p) RV (avp_flags rv) 0 (of_int (da_id (la_attr rv))) (avp_value rv) =
      Avp_attr rv"
    using da ty sized by (intro recv_avp_plain) (simp_all add: rv type_matches_def)
  from recv_avps_attr [OF sized this] assms(2)
  have "carries env q (Some rv) (exp @ [rv])"
    by (simp add: carries_def list_add_tail_def q rv da)
  then show thesis
    using that q da by (simp add: list_add_tail_def rv)
qed

lemma encode_attrD:
  assumes "encode_attr env rnd p a v = Some b" "unat (of_nat (length v) :: u16) = length v"
  obtains rv pad where "pk_secret p \<noteq> []" "pk_last_RV p = Some rv" "length pad \<le> 143"
    "b = a\<lparr>la_length := 2 + int (length v) + int (length pad),
        la_val := V_octets (encode_cipher (env_md5 env) (of_int (da_id (la_attr a)))
          (put16 (of_nat (length v)) @ v @ pad) (val_octets (la_val rv)) (pk_secret p))\<rparr>"
proof (cases "pk_secret p = []"; cases "pk_last_RV p"; cases "rnd_pad_len rnd"; cases "rnd_pad rnd")
  fix rv u f
  assume "pk_secret p \<noteq> []" "pk_last_RV p = Some rv" "rnd_pad_len rnd = Some u" "rnd_pad rnd = Some f"
  moreover have "uint (of_nat (length v) :: u16) = int (length v)"
    using arg_cong [OF assms(2), of int] by simp
  ultimately show thesis
    using assms that [of rv "map f [0..<unat (u AND 0x007F) + 16]"] unat_and_7F [of u]
    by (simp add: encode_attr_def Let_def)
qed (use assms in \<open>simp_all add: encode_attr_def\<close>)

context digest16
begin

lemma carries_hidden:
  assumes env: "env_md5 env = H" and p: "carries env p RV exp" and enc: "encode_attr env rnd p a v = Some b"
    and a: "la_H a" "da_id (la_attr a) \<noteq> Random_Vector" "0 \<le> da_id (la_attr a)" "da_id (la_attr a) < 65536"
      "l2tp_dict_find_attr_by_id (env_dict env) (da_id (la_attr a)) = Some (la_attr a)"
      "da_allows (la_attr a) (la_M a) True"
    and v: "type_matches (da_type (la_attr a)) w" "v = plain_value (da_type (la_attr a)) w" "length v \<le> 872"
  shows "carries env (list_add_tail b p) RV (exp @
    [\<lparr>la_attr = la_attr a, la_M = la_M a, la_H = False, la_length = int (length v), la_val = w\<rparr>])"
proof -
  have vl: "unat (of_nat (length v) :: u16) = length v"
    using v(3) by (intro unat_of_nat_small) simp
  from enc vl obtain rv pad where sec: "pk_secret p \<noteq> []" and rv: "pk_last_RV p = Some rv"
    and pad: "length pad \<le> 143"
    and b: "b = a\<lparr>la_length := 2 + int (length v) + int (length pad),
        la_val := V_octets (encode_cipher H (of_int (da_id (la_attr a))) (put16 (of_nat (length v)) @ v @ pad)
          (val_octets (la_val rv)) (pk_secret p))\<rparr>"
    unfolding env [symmetric] by (rule encode_attrD)
  let ?c = "encode_cipher H (of_int (da_id (la_attr a))) (put16 (of_nat (length v)) @ v @ pad)
          (val_octets (la_val rv)) (pk_secret p)"
  have sized: "attr_sized b" and val: "avp_value b = ?c"
  proof -
    show s: "attr_sized b"
      using a pad v(3) by (simp add: attr_sized_def attr_raw_def b length_encode_cipher)
    show "avp_value b = ?c"
      using avp_value_sized(1) [OF s] a(1) by (simp add: attr_raw_def b)
  qed
  obtain out where out: "decode_attr H (of_int (da_id (la_attr a))) ?c (val_octets (la_val rv)) (pk_secret p) = Some out"
    "length out = 2 + length v + length pad" "take (2 + length v) out = put16 (of_nat (length v)) @ v"
    using decode_encode [OF vl [symmetric]] by blast
  have "unat (avp_flags b AND L2TP_AVP_LEN_MASK) = 6 + (2 + length v + length pad)"
    using avp_flags_len(1) [of b] sized by (simp add: attr_sized_def b)
  then have dec: "decode_avp H (avp_flags b) (of_int (da_id (la_attr a))) ?c (val_octets (la_val rv)) (pk_secret p) = Some out"
    using out(1) by (simp add: decode_avp_def Let_def length_encode_cipher)
  from out have split: "out = put16 (of_nat (length v)) @ v @ drop (2 + length v) out"
    using append_take_drop_id [of "2 + length v" out] by simp
  obtain rv' where rv': "RV = Some rv'" "la_val rv' = la_val rv"
    using p rv by (auto simp: carries_def)
  have rd: "rd16 out = of_nat (length v)" "drop 2 out = v @ drop (2 + length v) out"
    by (subst split, simp)+
  have "avp_reveal env (pk_secret p) RV (avp_flags b) (of_int (da_id (la_attr b))) (avp_value b) =
      Some (6 + of_nat (length v), plain_value (da_type (la_attr b)) w @ drop (2 + length v) out)"
    unfolding avp_reveal_def avp_flags_bits val using sec rv' dec rd a(1) v(2) env
    by (simp add: b)
  from recv_avp_sized [OF sized _ _ this] a v
  have "recv_avp env (pk_secret p) RV (avp_flags b) 0 (of_int (da_id (la_attr b))) (avp_value b) =
      Avp_attr \<lparr>la_attr = la_attr a, la_M = la_M a, la_H = False, la_length = int (length v), la_val = w\<rparr>"
    by (simp add: b)
  from carries_add [OF p sized this] a(2) show ?thesis by simp
qed

text \<open>Adding one requested attribute adds the attribute the receiver is meant to see.\<close>

lemma packet_add_attr:
  assumes "req_ok env r"
  obtains a da where "l2tp_packet_add env (rnd, r) p = add_attr env rnd p a (plain_value (da_type da) (rq_val r)) (rq_val r)"
    "l2tp_dict_find_attr_by_id (env_dict env) (rq_id r) = Some da" "da_id da = rq_id r"
    "a = \<lparr>la_attr = da, la_M = (if da_M da \<noteq> -1 then odd (da_M da) else rq_M r),
         la_H = (if da_H da \<noteq> -1 then odd (da_H da) else pk_hide_avps p), la_length = 0, la_val = V_none\<rparr>"
    "type_matches (da_type da) (rq_val r)" "length (plain_value (da_type da) (rq_val r)) \<le> 872"
proof -
  from assms obtain da where da: "l2tp_dict_find_attr_by_id (env_dict env) (rq_id r) = Some da"
    "type_matches (da_type da) (rq_val r)" "length (plain_value (da_type da) (rq_val r)) \<le> 872"
    "rq_val r \<noteq> V_none" "rq_val r \<noteq> V_octets []"
    by (auto simp: req_ok_def split: option.splits)
  define a where "a = \<lparr>la_attr = da, la_M = (if da_M da \<noteq> -1 then odd (da_M da) else rq_M r),
         la_H = (if da_H da \<noteq> -1 then odd (da_H da) else pk_hide_avps p), la_length = 0, la_val = V_none\<rparr>"
  have al: "attr_alloc env (rq_id r) (rq_M r) (pk_hide_avps p) = Some a"
    using da(1) by (simp add: attr_alloc_def a_def)
  have "l2tp_packet_add env (rnd, r) p = add_attr env rnd p a (plain_value (da_type da) (rq_val r)) (rq_val r)"
    using da al
    by (cases r; cases "rq_val r")
      (simp_all add: type_matches_def l2tp_packet_add_int16_def l2tp_packet_add_int32_def
        l2tp_packet_add_int64_def l2tp_packet_add_octets_def l2tp_packet_add_string_def)
  with that da find_attr_id [OF da(1)] a_def show thesis by blast
qed

text \<open>The packet at the moment an attribute is hidden: a random vector has been added before.\<close>

lemma hidden_prepared:
  assumes "dict_ok env" "carries env p RV exp" "la_H a" "add_attr env rnd p a v plain = Some q"
  obtains p1 RV1 exp1 b where "carries env p1 RV1 exp1" "visible exp1 = visible exp"
    "pk_secret p1 = pk_secret p" "pk_hdr p1 = pk_hdr p" "encode_attr env rnd p1 a v = Some b"
    "q = list_add_tail b p1"
proof (cases "pk_last_RV p")
  case None
  then obtain p1 b where 1: "l2tp_packet_add_random_vector env rnd p = Some p1"
    "encode_attr env rnd p1 a v = Some b" "q = list_add_tail b p1"
    using assms(3,4) by (auto simp: add_attr_def split: option.splits)
  from carries_random_vector [OF assms(1,2) 1(1)] obtain rv where
    "carries env p1 (Some rv) (exp @ [rv])" "da_id (la_attr rv) = Random_Vector"
    "pk_secret p1 = pk_secret p" "pk_hdr p1 = pk_hdr p" by blast
  with 1 that [of p1 "Some rv" "exp @ [rv]" b] show thesis by (simp add: visible_def)
next
  case (Some rv)
  with assms that show thesis by (auto simp: add_attr_def)
qed

lemma carries_request:
  assumes env: "env_md5 env = H" "dict_ok env" and r: "req_ok env r" and p: "carries env p RV exp"
    and q: "l2tp_packet_add env (rnd, r) p = Some q"
  shows "\<exists>RV' exp'. carries env q RV' exp' \<and> visible exp' = visible exp @ [req_attr env r] \<and>
    pk_secret q = pk_secret p \<and> pk_hdr q = pk_hdr p"
proof -
  obtain a da where add: "l2tp_packet_add env (rnd, r) p =
      add_attr env rnd p a (plain_value (da_type da) (rq_val r)) (rq_val r)"
    and da: "l2tp_dict_find_attr_by_id (env_dict env) (rq_id r) = Some da" "da_id da = rq_id r"
    and a: "a = \<lparr>la_attr = da, la_M = (if da_M da \<noteq> -1 then odd (da_M da) else rq_M r),
         la_H = (if da_H da \<noteq> -1 then odd (da_H da) else pk_hide_avps p), la_length = 0, la_val = V_none\<rparr>"
    and v: "type_matches (da_type da) (rq_val r)" "length (plain_value (da_type da) (rq_val r)) \<le> 872"
    by (rule packet_add_attr [OF r])
  let ?v = "plain_value (da_type da) (rq_val r)"
  have ids: "rq_id r \<noteq> Random_Vector" "0 \<le> rq_id r" "rq_id r < 65536"
    using r by (simp_all add: req_ok_def)
  have allow: "da_allows da (la_M a) (la_H a)"
    using attr_alloc_allowed [OF env(2) da(1), of "rq_M r" "pk_hide_avps p"] by (simp add: a)
  have seen: "req_attr env r = \<lparr>la_attr = da, la_M = la_M a, la_H = False,
      la_length = int (length ?v), la_val = rq_val r\<rparr>"
    by (simp add: req_attr_def da(1) a)
  show ?thesis
  proof (cases "la_H a")
    case False
    let ?b = "a\<lparr>la_length := int (length ?v), la_val := rq_val r\<rparr>"
    have q_eq: "q = list_add_tail ?b p" using q add False by (simp add: add_attr_def)
    have sized: "attr_sized ?b" using ids v da a False by (auto simp: attr_sized_def attr_raw_def)
    have "recv_avp env (pk_secret p) RV (avp_flags ?b) 0 (of_int (da_id (la_attr ?b))) (avp_value ?b) = Avp_attr ?b"
      by (rule recv_avp_plain [OF sized]) (use False v da allow a in auto)
    from carries_add [OF p sized this] q_eq ids da a False seen show ?thesis
      by (intro exI [of _ RV] exI [of _ "exp @ [?b]"]) (auto simp: visible_def list_add_tail_def)
  next
    case True
    from q add True have "add_attr env rnd p a ?v (rq_val r) = Some q" by simp
    from hidden_prepared [OF env(2) p True this]
    obtain p1 RV1 exp1 b where p1: "carries env p1 RV1 exp1" "visible exp1 = visible exp"
      "pk_secret p1 = pk_secret p" "pk_hdr p1 = pk_hdr p" "encode_attr env rnd p1 a ?v = Some b"
      "q = list_add_tail b p1" by blast
    have "la_attr a = da" by (simp add: a)
    moreover have "da_allows da (la_M a) True" using allow True by simp
    ultimately have "carries env q RV1 (exp1 @ [req_attr env r])"
      unfolding p1(6) seen using carries_hidden [OF env(1) p1(1,5) True, of "rq_val r"] ids da v by simp
    with p1 ids da a seen show ?thesis
      by (intro exI [of _ RV1] exI [of _ "exp1 @ [req_attr env r]"])
        (simp add: visible_def list_add_tail_def)
  qed
qed

lemma carries_requests:
  assumes "env_md5 env = H" "dict_ok env"
  shows "carries env p RV exp \<Longrightarrow> \<forall>r \<in> set rs. req_ok env (snd r) \<Longrightarrow>
    l2tp_packet_add_all env rs p = Some q \<Longrightarrow>
    \<exists>RV' exp'. carries env q RV' exp' \<and> visible exp' = visible exp @ map (req_attr env) (map snd rs) \<and>
      pk_secret q = pk_secret p \<and> pk_hdr q = pk_hdr p"
proof (induction rs arbitrary: p RV exp)
  case Nil
  then show ?case by auto
next
  case (Cons r rs)
  obtain rnd rq where r: "r = (rnd, rq)" by fastforce
  obtain p1 where p1: "l2tp_packet_add env (rnd, rq) p = Some p1" "l2tp_packet_add_all env rs p1 = Some q"
    using Cons.prems(3) by (auto simp: r split: option.splits)
  from carries_request [OF assms _ Cons.prems(1) p1(1)] Cons.prems(2) r
  obtain RV1 exp1 where 1: "carries env p1 RV1 exp1" "visible exp1 = visible exp @ [req_attr env rq]"
    "pk_secret p1 = pk_secret p" "pk_hdr p1 = pk_hdr p" by auto
  from Cons.IH [OF 1(1) _ p1(2)] Cons.prems(2) 1 r show ?case by fastforce
qed

end

section \<open>Properties\<close>

lemma send_avps_concat:
  "send_avps len as = Some bs \<Longrightarrow> \<forall>a \<in> set as. 0 \<le> la_length a \<Longrightarrow> 0 \<le> len \<Longrightarrow> len < 65536 \<Longrightarrow>
   bs = concat (map avp_bytes as) \<and> len + int (length bs) < 65536"
proof (induction as arbitrary: len bs)
  case (Cons a as)
  then obtain cs where cs: "send_avps (len + 6 + la_length a) as = Some cs" "bs = avp_bytes a @ cs"
    "len + 6 + la_length a < 65536"
    by (auto split: if_splits)
  have "length (avp_bytes a) = 6 + nat (la_length a)"
    by (simp add: avp_bytes_def avp_value_def Let_def)
  with Cons.IH [OF cs(1)] Cons.prems(2-4) cs(2,3) show ?case by auto
qed simp

text \<open>
  C3: A control message is received as it was built and addressed. Whatever attributes a caller adds to a version 2
  message (of the dictionary's types, no empty octet string, at most 872 bytes of value), hidden or not, and
  whatever tunnel id, session id, \<open>Ns\<close> and \<open>Nr\<close> are then written into its header, if the message can be
  serialised then the datagram starts with these fields in the order of RFC 2661, and parsing it with the same
  secret gives every one of them back, the length of the datagram, and, apart from the random vectors added
  for hiding, exactly the requested attributes with their values, in order.
\<close>

theorem l2tp_message_roundtrip:
  assumes env: "env_md5 env = md5" "dict_ok env"
    and alloc: "l2tp_packet_alloc env rnd ver 0 addr hide secret = Some p" "ver AND L2TP_VER_MASK = 2"
    and add: "l2tp_packet_add_all env rs p = Some q" "\<forall>r \<in> set rs. req_ok env (snd r)"
    and send: "l2tp_packet_send (q\<lparr>pk_hdr := (pk_hdr q)\<lparr>h_tid := tid, h_sid := sid, h_Ns := Ns, h_Nr := Nr\<rparr>\<rparr>) = Some datagram"
  shows "take 12 datagram = [0xc8, 0x02] @ put16 (of_nat (length datagram)) @ put16 tid @ put16 sid @ put16 Ns @ put16 Nr \<and>
    (\<exists>r. l2tp_recv env secret from datagram = Recv_pack r \<and>
      pk_hdr r = \<lparr>h_flags = 0xc802, h_length = of_nat (length datagram), h_tid = tid, h_sid = sid, h_Ns = Ns, h_Nr = Nr\<rparr> \<and>
      visible (pk_attrs r) = map (req_attr env) (map snd rs))"
proof -
  have p: "pk_attrs p = []" "pk_secret p = secret" "pk_last_RV p = None"
    and hdr: "pk_hdr p = \<lparr>h_flags = 0xc802, h_length = 0, h_tid = 0, h_sid = 0, h_Ns = 0, h_Nr = 0\<rparr>"
    using alloc by (auto simp: l2tp_packet_alloc_def)
  have "carries env p None []" by (simp add: carries_def p)
  from md5_hide.carries_requests [OF env this add(2,1)]
  obtain RV exp where q: "carries env q RV exp" "visible exp = map (req_attr env) (map snd rs)"
    "pk_secret q = secret" "pk_hdr q = pk_hdr p"
    by (auto simp: visible_def p)
  define h where "h n = \<lparr>h_flags = 0xc802, h_length = n, h_tid = tid, h_sid = sid, h_Ns = Ns, h_Nr = Nr\<rparr>" for n
  from send obtain bs where bs: "send_avps 12 (pk_attrs q) = Some bs" "datagram = put_hdr (h (of_nat (12 + length bs))) @ bs"
    by (auto simp: l2tp_packet_send_def q(4) hdr h_def split: option.splits)
  from send_avps_concat [OF bs(1)] q(1)
  have cat: "bs = concat (map avp_bytes (pk_attrs q))" "12 + length bs < 65536"
    by (auto simp: carries_def)
  then have len: "unat (of_nat (12 + length bs) :: u16) = 12 + length bs"
    by (intro unat_of_nat_small) simp
  have rd: "rd_hdr datagram = h (of_nat (12 + length bs))" "drop 12 datagram = bs" "length datagram = 12 + length bs"
    by (simp_all add: bs(2) rd_hdr_def put_hdr_def h_def)
  from q(1,3) cat(1) have "recv_avps env secret None (bs @ []) [] = recv_avps env secret RV [] ([] @ exp)"
    unfolding carries_def by blast
  then have "recv_avps env secret None bs [] = Rx_attrs exp"
    by (simp add: recv_avps.simps [of env secret RV "[]"])
  then have "l2tp_recv env secret from datagram = Recv_pack \<lparr>pk_addr = from,
      pk_hdr = h (of_nat (12 + length bs)), pk_attrs = exp, pk_last_RV = None, pk_secret = [], pk_hide_avps = False\<rparr>"
    using rd len unfolding l2tp_recv_def by (simp add: Let_def hdr_ok_def h_def del: of_nat_add)
  moreover have "take 12 datagram = put_hdr (h (of_nat (12 + length bs)))" by (simp add: bs(2) put_hdr_def)
  moreover have "put16 (0xc802 :: u16) = [0xc8, 0x02]" by (simp add: put16_def)
  ultimately show ?thesis using q(2) rd(3) by (simp add: put_hdr_def h_def)
qed

text \<open>A small dictionary, two attributes of which one is hidden, and a fixed source of randomness.\<close>

definition demo_env :: l2tp_env where
  "demo_env = \<lparr>env_dict = [\<lparr>da_id = 0, da_type = ATTR_TYPE_INT16, da_M = -1, da_H = 0\<rparr>,
     \<lparr>da_id = 36, da_type = ATTR_TYPE_OCTETS, da_M = 1, da_H = 0\<rparr>,
     \<lparr>da_id = 9, da_type = ATTR_TYPE_INT16, da_M = 1, da_H = -1\<rparr>],
     env_permissive = False, env_md5 = md5\<rparr>"

definition demo_rand :: l2tp_rand where
  "demo_rand = \<lparr>rnd_rv_len = Some 0, rnd_rv = Some (\<lambda>i. of_nat i), rnd_pad_len = Some 3,
     rnd_pad = Some (\<lambda>i. 7)\<rparr>"

definition demo_reqs :: "(l2tp_rand \<times> l2tp_req) list" where
  "demo_reqs = [(demo_rand, Req 0 (V_int16 1) True), (demo_rand, Req 9 (V_int16 4711) True)]"

lemmas demo_defs = demo_env_def demo_rand_def demo_reqs_def

lemma demo_sends:
  "\<exists>p q d. l2tp_packet_alloc demo_env demo_rand 2 0 (0, 1701) True [115] = Some p \<and>
    l2tp_packet_add_all demo_env demo_reqs p = Some q \<and>
    l2tp_packet_send (q\<lparr>pk_hdr := (pk_hdr q)\<lparr>h_tid := 7, h_sid := 8, h_Ns := 2, h_Nr := 3\<rparr>\<rparr>) = Some d"
  by (simp add: demo_defs l2tp_packet_alloc_def l2tp_packet_add_int16_def attr_alloc_def
      l2tp_dict_find_attr_by_id_def add_attr_def l2tp_packet_add_random_vector_def encode_attr_def
      list_add_tail_def l2tp_packet_send_def Let_def)

theorem l2tp_message_roundtrip_witness:
  "\<exists>p q d r. l2tp_packet_add_all demo_env demo_reqs p = Some q \<and>
     l2tp_packet_send (q\<lparr>pk_hdr := (pk_hdr q)\<lparr>h_tid := 7, h_sid := 8, h_Ns := 2, h_Nr := 3\<rparr>\<rparr>) = Some d \<and>
     l2tp_recv demo_env [115] (1, 2) d = Recv_pack r \<and> h_tid (pk_hdr r) = 7 \<and> h_sid (pk_hdr r) = 8 \<and>
     h_Ns (pk_hdr r) = 2 \<and> h_Nr (pk_hdr r) = 3 \<and> map la_val (visible (pk_attrs r)) = [V_int16 1, V_int16 4711]"
proof -
  obtain p q d where d: "l2tp_packet_alloc demo_env demo_rand 2 0 (0, 1701) True [115] = Some p"
    "l2tp_packet_add_all demo_env demo_reqs p = Some q"
    "l2tp_packet_send (q\<lparr>pk_hdr := (pk_hdr q)\<lparr>h_tid := 7, h_sid := 8, h_Ns := 2, h_Nr := 3\<rparr>\<rparr>) = Some d"
    using demo_sends by blast
  have ok: "\<forall>r \<in> set demo_reqs. req_ok demo_env (snd r)" "dict_ok demo_env" "env_md5 demo_env = md5"
    by (simp_all add: demo_defs req_ok_def dict_ok_def l2tp_dict_find_attr_by_id_def type_matches_def)
  obtain r where "l2tp_recv demo_env [115] (1, 2) d = Recv_pack r"
    "pk_hdr r = \<lparr>h_flags = 0xc802, h_length = of_nat (length d), h_tid = 7, h_sid = 8, h_Ns = 2, h_Nr = 3\<rparr>"
    "visible (pk_attrs r) = map (req_attr demo_env) (map snd demo_reqs)"
    using l2tp_message_roundtrip [OF ok(3,2) d(1) _ d(2) ok(1) d(3), of "(1, 2)"] by auto
  with d show ?thesis
    by (intro exI [of _ p] exI [of _ q] exI [of _ d] exI [of _ r])
      (simp add: demo_reqs_def req_attr_def Let_def)
qed

lemma recv_avp_no_secret:
  assumes "length av + 6 = unat (flags AND L2TP_AVP_LEN_MASK)"
  shows "recv_avp env [] RV flags vendor typ av \<noteq> Avp_fault"
proof -
  have u: "uint (flags AND L2TP_AVP_LEN_MASK) = int (length av) + 6"
    using arg_cong [OF assms, of int] by simp
  have "recv_value ty (flags AND L2TP_AVP_LEN_MASK) av \<noteq> Val_fault" for ty
  proof -
    have len: "n \<le> length av" if "flags AND L2TP_AVP_LEN_MASK = 6 + of_nat n" "n \<le> 8" for n
    proof -
      have "unat (6 + of_nat n :: u16) = 6 + n"
        using that(2) unat_of_nat_small [of "6 + n", where 'a = 16] by simp
      with that(1) assms show ?thesis by simp
    qed
    show ?thesis
      using u len [of 2] len [of 4] len [of 8]
      by (cases ty) (auto simp: recv_value_def Let_def)
  qed
  then show ?thesis
    unfolding recv_avp_def avp_reveal_def
    by (auto simp: Let_def split: option.splits val_res.splits if_splits)
qed

lemma recv_avps_no_secret: "recv_avps env [] RV bs acc \<noteq> Rx_fault"
proof (induction env "[] :: bytes" RV bs acc rule: recv_avps.induct)
  case (1 env RV bs acc)
  define l where "l = unat (rd16 bs AND L2TP_AVP_LEN_MASK)"
  show ?case
  proof (cases "bs = [] \<or> length bs < 6 \<or> l < 6 \<or> length bs < l")
    case True
    then show ?thesis by (auto simp: recv_avps.simps [of env "[]" RV bs acc] Let_def l_def)
  next
    case False
    have "recv_avp env [] RV (rd16 bs) (rd16 (drop 2 bs)) (rd16 (drop 4 bs)) (take (l - 6) (drop 6 bs)) \<noteq> Avp_fault"
      using False by (intro recv_avp_no_secret) (auto simp: l_def)
    with False "1.hyps" show ?thesis
      by (subst recv_avps.simps) (auto simp: Let_def simp flip: l_def split: avp_res.split)
  qed
qed

text \<open>
  C7: Without a secret, which is how an unauthenticated tunnel is set up, no datagram whatsoever makes the
  parser read outside the attribute it is decoding: \<open>l2tp_recv\<close> drops the message or returns a packet.
\<close>

theorem l2tp_recv_safe: "l2tp_recv env [] from buf \<noteq> Recv_fault"
  using recv_avps_no_secret [of env None _ "[]"]
  by (auto simp: l2tp_recv_def Let_def split: rx.splits)

section \<open>Types of received attributes\<close>

text \<open>An attribute as the parser promises it to the message handlers.\<close>

definition attr_typed :: "l2tp_env \<Rightarrow> l2tp_attr_t \<Rightarrow> bool" where
  "attr_typed env a \<longleftrightarrow> la_attr a \<in> set (env_dict env) \<and> \<not> la_H a \<and>
     (case la_val a of
        V_int16 _ \<Rightarrow> da_type (la_attr a) = ATTR_TYPE_INT16 \<and> la_length a = 2
      | V_int32 _ \<Rightarrow> da_type (la_attr a) = ATTR_TYPE_INT32 \<and> la_length a = 4
      | V_int64 _ \<Rightarrow> da_type (la_attr a) = ATTR_TYPE_INT64 \<and> la_length a = 8
      | V_octets b \<Rightarrow> da_type (la_attr a) = ATTR_TYPE_OCTETS \<and> la_length a = int (length b)
      | V_string b \<Rightarrow> da_type (la_attr a) = ATTR_TYPE_STRING \<and> la_length a = int (length b)
      | V_none \<Rightarrow> da_type (la_attr a) = ATTR_TYPE_NONE)"

lemma recv_value_typed:
  assumes "recv_value ty n av = Val_ok v" "da \<in> set (env_dict env)" "da_type da = ty"
  shows "attr_typed env \<lparr>la_attr = da, la_M = M, la_H = False, la_length = uint n - 6, la_val = v\<rparr>"
  using assms by (cases ty) (auto simp: recv_value_def attr_typed_def Let_def split: if_splits)

lemma dict_find_mem: "l2tp_dict_find_attr_by_id dict i = Some da \<Longrightarrow> da \<in> set dict"
  by (auto simp: l2tp_dict_find_attr_by_id_def find_Some_iff)

lemma recv_avp_typed: "recv_avp env secret RV flags vendor typ av = Avp_attr a \<Longrightarrow> attr_typed env a"
  by (auto simp: recv_avp_def Let_def dest!: dict_find_mem
      split: if_splits option.splits val_res.splits intro!: recv_value_typed)

lemma recv_avps_typed:
  "recv_avps env secret RV bs acc = Rx_attrs as \<Longrightarrow> \<forall>a \<in> set acc. attr_typed env a \<Longrightarrow> \<forall>a \<in> set as. attr_typed env a"
proof (induction env secret RV bs acc rule: recv_avps.induct)
  case (1 env secret RV bs acc)
  define l where "l = unat (rd16 bs AND L2TP_AVP_LEN_MASK)"
  show ?case
  proof (cases "bs = [] \<or> length bs < 6 \<or> l < 6 \<or> length bs < l")
    case True
    with "1.prems" show ?thesis
      by (auto simp: recv_avps.simps [of env secret RV bs acc] Let_def l_def split: if_splits)
  next
    case False
    then have ok: "bs \<noteq> []" "\<not> length bs < 6" "\<not> l < 6" "\<not> length bs < l" by simp_all
    let ?r = "recv_avp env secret RV (rd16 bs) (rd16 (drop 2 bs)) (rd16 (drop 4 bs)) (take (l - 6) (drop 6 bs))"
    show ?thesis
    proof (cases ?r)
      case Avp_skip
      with "1.prems" ok "1.IH"(1) [OF ok(1,2) refl l_def ok(3,4) Avp_skip] show ?thesis
        by (simp add: recv_avps.simps [of env secret RV bs acc] Let_def flip: l_def)
    next
      case (Avp_attr a)
      from "1.prems" ok Avp_attr "1.IH"(2) [OF ok(1,2) refl l_def ok(3,4) Avp_attr] recv_avp_typed [OF Avp_attr]
      show ?thesis by (simp add: recv_avps.simps [of env secret RV bs acc] Let_def flip: l_def)
    qed (use "1.prems" ok in \<open>simp_all add: recv_avps.simps [of env secret RV bs acc] Let_def flip: l_def\<close>)
  qed
qed

text \<open>
  C7: Every attribute of a received message is one the dictionary knows, its value has the type the dictionary
  gives it, and its length is the length of the value. The handlers read the value union by the attribute
  number alone, so this is what makes \<open>attr->val.uint16\<close> the member that was written.
\<close>

theorem l2tp_recv_typed:
  assumes "l2tp_recv env secret addr buf = Recv_pack p" "a \<in> set (pk_attrs p)"
  shows "attr_typed env a"
  using assms recv_avps_typed [of env secret None _ "[]"]
  by (auto simp: l2tp_recv_def Let_def split: if_splits rx.splits)

theorem l2tp_recv_typed_witness:
  "\<exists>p. l2tp_recv demo_env [] (1, 1701) (put_hdr \<lparr>h_flags = 0xC802, h_length = 20, h_tid = 1, h_sid = 0, h_Ns = 0, h_Nr = 0\<rparr> @
     put16 0x8008 @ put16 0 @ put16 0 @ put16 6) = Recv_pack p \<and> pk_attrs p \<noteq> [] \<and> attr_typed demo_env (hd (pk_attrs p))"
proof -
  obtain p where p: "l2tp_recv demo_env [] (1, 1701) (put_hdr \<lparr>h_flags = 0xC802, h_length = 20, h_tid = 1, h_sid = 0, h_Ns = 0, h_Nr = 0\<rparr> @
     put16 0x8008 @ put16 0 @ put16 0 @ put16 6) = Recv_pack p" "pk_attrs p \<noteq> []"
    by (simp add: l2tp_recv_def rd_hdr_def put_hdr_def put16_def get16_def hdr_ok_def Let_def recv_avps.simps recv_avp_def
      demo_env_def l2tp_dict_find_attr_by_id_def avp_refused_def avp_reveal_def recv_value_def)
  with l2tp_recv_typed [OF p(1) hd_in_set [OF p(2)]] show ?thesis by blast
qed

section \<open>Hidden attributes\<close>

context digest16
begin

text \<open>
  With a secret the bound is lost. A hidden attribute of at most 16 bytes is not checked against the
  length it announces; two ciphered bytes that say 65535 make \<open>attr->length\<close> -1, and the string branch
  copies with that length.
\<close>

lemma hidden_length_fault:
  assumes "l2tp_dict_find_attr_by_id (env_dict env) (uint typ) = Some da" "da_type da = ATTR_TYPE_STRING"
    and "\<not> avp_refused env da M True" "flags AND L2TP_AVP_FLAG_H \<noteq> 0" "(flags AND L2TP_AVP_FLAG_M \<noteq> 0) = M"
    and "flags AND L2TP_AVP_LEN_MASK = 8" "secret \<noteq> []" "env_md5 env = H"
  shows "recv_avp env secret (Some rv) flags 0 typ
    (encode_cipher H typ (put16 0xffff) (val_octets (la_val rv)) secret) = Avp_fault"
proof -
  let ?c = "encode_cipher H typ (put16 0xffff) (val_octets (la_val rv)) secret"
  have "ciphered H typ (val_octets (la_val rv)) secret (put16 0xffff) ?c"
    by (rule encode_cipher_ciphered)
  then have "decode_avp H flags typ ?c (val_octets (la_val rv)) secret = Some (put16 0xffff)"
    using assms(6) by (auto simp: decode_avp_def decode_attr_def ciphered_def Let_def nth_memxor digest_length key_stream_def intro!: nth_equalityI)
  with assms show ?thesis
    by (simp add: recv_avp_def avp_reveal_def recv_value_def Let_def)
qed

end

end
