(* ===== verification/L2tp_State.thy ===== *)
theory L2tp_State
  imports L2tp_Packet "HOL-Library.AList" "HOL-Library.Monad_Syntax"
begin

text \<open>
  The state of an L2TP tunnel and of its sessions in \<open>micro-bngd/ctrl/l2tp/l2tp.c\<close>, and what the
  operating system and the rest of the daemon decide for it.

  The records keep the fields of \<open>struct l2tp_conn_t\<close> and \<open>struct l2tp_sess_t\<close> that the control
  channel uses. The counters \<open>stat_conn_*\<close> and \<open>stat_sess_*\<close> are global in the source; here they hold
  what this tunnel and its sessions contribute to them. Four fields are not in the structs and no
  function reads them: \<open>c_wire\<close> collects the messages handed to the socket, \<open>c_dequeued\<close> the messages
  taken out of the receive ring, \<open>c_events\<close> the events fired and the calls posted to the data channels,
  \<open>hello_mods\<close> counts the restarts of the hello timer.
\<close>

section \<open>Tunnels and sessions\<close>

datatype l2tp_state = STATE_INIT | STATE_WAIT_SCCRP | STATE_WAIT_SCCCN | STATE_WAIT_ICRP
  | STATE_WAIT_ICCN | STATE_WAIT_OCRP | STATE_WAIT_OCCN | STATE_ESTB | STATE_FIN | STATE_FIN_WAIT
  | STATE_CLOSE

datatype l2tp_event = Ctrl_started u16 | Ctrl_finished u16 | Call_apses_start u16 | Call_apses_stop u16

record l2tp_sess_t =
  s_sid :: u16
  s_peer_sid :: u16
  s_state1 :: l2tp_state
  s_lns_mode :: bool
  s_hide_avps :: bool
  s_send_seq :: bool
  s_recv_seq :: bool
  s_reorder_timeout :: int
  s_timeout_tpd :: bool
  s_apses_ctx :: bool

text \<open>
  \<open>c_challenge\<close> is \<open>None\<close> for a null pointer; an empty \<open>c_secret\<close> stands for a missing secret, which the
  source treats alike. The send queue notes with each message the session that holds it in its own
  queue, through \<open>sess_entry\<close>. \<open>c_sessions\<close> is the search tree of the sessions, keyed by session id.
\<close>

record l2tp_conn_t =
  c_tid :: u16
  c_peer_tid :: u16
  c_peer_addr :: "u32 \<times> u16"
  c_port_set :: bool
  c_framing_cap :: u32
  c_lns_mode :: bool
  c_hide_avps :: bool
  c_challenge :: "bytes option"
  c_secret :: bytes
  c_state :: l2tp_state
  c_registered :: bool
  timeout_tpd :: bool
  timeout_period :: int
  rtimeout_tpd :: bool
  rtimeout_period :: int
  hello_tpd :: bool
  hello_period :: int
  hello_mods :: nat
  c_rtimeout :: int
  c_rtimeout_cap :: int
  c_max_retransmit :: int
  c_retransmit :: int
  c_Ns :: u16
  c_Nr :: u16
  c_peer_Nr :: u16
  send_queue :: "(u16 option \<times> l2tp_packet_t) list"
  rtms_queue :: "l2tp_packet_t list"
  send_queue_len :: nat
  recv_queue :: "l2tp_packet_t option list"
  recv_queue_sz :: nat
  recv_queue_offt :: nat
  peer_rcv_wnd_sz :: u16
  c_sessions :: "(u16 \<times> l2tp_sess_t) list"
  sess_count :: nat
  stat_conn_starting :: int
  stat_conn_active :: int
  stat_conn_finishing :: int
  stat_sess_starting :: int
  stat_sess_active :: int
  stat_sess_finishing :: int
  c_wire :: "l2tp_packet_t list"
  c_dequeued :: "l2tp_packet_t list"
  c_events :: "l2tp_event list"

section \<open>The environment\<close>

datatype l2tp_dataseq = L2TP_DATASEQ_DENY | L2TP_DATASEQ_ALLOW | L2TP_DATASEQ_PREFER | L2TP_DATASEQ_REQUIRE

text \<open>
  Settings of the daemon, and the outcomes of the calls that leave it: sending a datagram, starting a
  timer, \<open>connect\<close> for a changed peer port, the kernel's L2TP socket of a tunnel and of a session, the
  start of a data channel, random bytes, the connection limit, the number of sessions of the daemon.
  An outcome may depend on the state of the tunnel at the time of the call, and so may differ between
  any two calls.
\<close>

record l2tp_io =
  io_env :: l2tp_env
  io_rnd :: "l2tp_conn_t \<Rightarrow> nat \<Rightarrow> l2tp_rand"
  io_send_ok :: "l2tp_conn_t \<Rightarrow> l2tp_packet_t \<Rightarrow> bool"
  io_timer_ok :: "l2tp_conn_t \<Rightarrow> bool"
  io_peerport_ok :: "l2tp_conn_t \<Rightarrow> bool"
  io_tunnel_ok :: "l2tp_conn_t \<Rightarrow> bool"
  io_pppox_ok :: "l2tp_conn_t \<Rightarrow> u16 \<Rightarrow> bool"
  io_apses_ok :: "l2tp_conn_t \<Rightarrow> u16 \<Rightarrow> bool"
  io_urandom16 :: "l2tp_conn_t \<Rightarrow> nat \<Rightarrow> u16 option"
  io_chall_len :: "l2tp_conn_t \<Rightarrow> u16 option"
  io_chall :: "l2tp_conn_t \<Rightarrow> (nat \<Rightarrow> u8) option"
  io_connlimit :: "u32 \<Rightarrow> bool"
  ses_starting :: "l2tp_conn_t \<Rightarrow> nat"
  ses_active :: "l2tp_conn_t \<Rightarrow> nat"
  ap_shutdown :: bool
  conf_max_starting :: nat
  conf_max_sessions :: nat
  conf_dir300_quirk :: bool
  conf_hello_interval :: int
  conf_dataseq :: l2tp_dataseq
  conf_reorder_timeout :: int
  conf_host_name :: bytes

text \<open>
  The settings that a new tunnel is made from. Periods are seconds in the settings and milliseconds in the
  tunnel, computed in a 32 bit integer.
\<close>

record l2tp_conf =
  conf_recv_window :: u16
  conf_l2tp_timeout :: int
  conf_rtimeout :: int
  conf_rtimeout_cap :: int
  conf_retransmit :: int
  conf_hello :: int

text \<open>A tunnel as \<open>l2tp_tunnel_alloc\<close> makes it, under the id it has found.\<close>

definition conn_init :: "l2tp_conf \<Rightarrow> u16 \<Rightarrow> u32 \<times> u16 \<Rightarrow> u32 \<Rightarrow> bool \<Rightarrow> bool \<Rightarrow> bool \<Rightarrow> l2tp_conn_t" where
  "conn_init k tid peer framing_cap lns_mode port_set hide_avps =
     \<lparr>c_tid = tid, c_peer_tid = 0, c_peer_addr = peer, c_port_set = port_set, c_framing_cap = framing_cap,
      c_lns_mode = lns_mode, c_hide_avps = hide_avps, c_challenge = None, c_secret = [],
      c_state = STATE_INIT, c_registered = False,
      timeout_tpd = False, timeout_period = int32 (conf_l2tp_timeout k * 1000),
      rtimeout_tpd = False, rtimeout_period = int32 (conf_rtimeout k * 1000),
      hello_tpd = False, hello_period = int32 (conf_hello k * 1000), hello_mods = 0,
      c_rtimeout = int32 (conf_rtimeout k * 1000), c_rtimeout_cap = int32 (conf_rtimeout_cap k * 1000),
      c_max_retransmit = conf_retransmit k, c_retransmit = 0, c_Ns = 0, c_Nr = 0, c_peer_Nr = 0,
      send_queue = [], rtms_queue = [], send_queue_len = 0,
      recv_queue = replicate (unat (conf_recv_window k)) None, recv_queue_sz = unat (conf_recv_window k),
      recv_queue_offt = 0, peer_rcv_wnd_sz = 4, c_sessions = [], sess_count = 0,
      stat_conn_starting = 1, stat_conn_active = 0, stat_conn_finishing = 0,
      stat_sess_starting = 0, stat_sess_active = 0, stat_sess_finishing = 0,
      c_wire = [], c_dequeued = [], c_events = []\<rparr>"

abbreviation pack_Ns :: "l2tp_packet_t \<Rightarrow> u16" where "pack_Ns p \<equiv> h_Ns (pk_hdr p)"
abbreviation pack_Nr :: "l2tp_packet_t \<Rightarrow> u16" where "pack_Nr p \<equiv> h_Nr (pk_hdr p)"

definition set_Ns :: "u16 \<Rightarrow> l2tp_packet_t \<Rightarrow> l2tp_packet_t" where
  "set_Ns n p = p\<lparr>pk_hdr := (pk_hdr p)\<lparr>h_Ns := n\<rparr>\<rparr>"

definition set_Nr :: "u16 \<Rightarrow> l2tp_packet_t \<Rightarrow> l2tp_packet_t" where
  "set_Nr n p = p\<lparr>pk_hdr := (pk_hdr p)\<lparr>h_Nr := n\<rparr>\<rparr>"

definition set_tid :: "u16 \<Rightarrow> l2tp_packet_t \<Rightarrow> l2tp_packet_t" where
  "set_tid n p = p\<lparr>pk_hdr := (pk_hdr p)\<lparr>h_tid := n\<rparr>\<rparr>"

definition set_sid :: "u16 \<Rightarrow> l2tp_packet_t \<Rightarrow> l2tp_packet_t" where
  "set_sid n p = p\<lparr>pk_hdr := (pk_hdr p)\<lparr>h_sid := n\<rparr>\<rparr>"

definition l2tp_packet_is_ZLB :: "l2tp_packet_t \<Rightarrow> bool" where
  "l2tp_packet_is_ZLB p \<longleftrightarrow> pk_attrs p = []"

text \<open>The member \<open>val.uint16\<close> of the value union.\<close>

fun val_uint16 :: "l2tp_value_t \<Rightarrow> u16" where
  "val_uint16 (V_int16 w) = w"
| "val_uint16 _ = 0"

section \<open>Attribute and message numbers\<close>

abbreviation (input) Result_Code :: int where "Result_Code \<equiv> 1"
abbreviation (input) Protocol_Version :: int where "Protocol_Version \<equiv> 2"
abbreviation (input) Framing_Capabilities :: int where "Framing_Capabilities \<equiv> 3"
abbreviation (input) Bearer_Capabilities :: int where "Bearer_Capabilities \<equiv> 4"
abbreviation (input) Firmware_Revision :: int where "Firmware_Revision \<equiv> 6"
abbreviation (input) Host_Name :: int where "Host_Name \<equiv> 7"
abbreviation (input) Vendor_Name :: int where "Vendor_Name \<equiv> 8"
abbreviation (input) Assigned_Tunnel_ID :: int where "Assigned_Tunnel_ID \<equiv> 9"
abbreviation (input) Recv_Window_Size :: int where "Recv_Window_Size \<equiv> 10"
abbreviation (input) Challenge :: int where "Challenge \<equiv> 11"
abbreviation (input) Challenge_Response :: int where "Challenge_Response \<equiv> 13"
abbreviation (input) Assigned_Session_ID :: int where "Assigned_Session_ID \<equiv> 14"
abbreviation (input) Call_Serial_Number :: int where "Call_Serial_Number \<equiv> 15"
abbreviation (input) Minimum_BPS :: int where "Minimum_BPS \<equiv> 16"
abbreviation (input) Maximum_BPS :: int where "Maximum_BPS \<equiv> 17"
abbreviation (input) Bearer_Type :: int where "Bearer_Type \<equiv> 18"
abbreviation (input) Framing_Type :: int where "Framing_Type \<equiv> 19"
abbreviation (input) Called_Number :: int where "Called_Number \<equiv> 21"
abbreviation (input) Calling_Number :: int where "Calling_Number \<equiv> 22"
abbreviation (input) Sub_Address :: int where "Sub_Address \<equiv> 23"
abbreviation (input) TX_Speed :: int where "TX_Speed \<equiv> 24"
abbreviation (input) Physical_Channel_ID :: int where "Physical_Channel_ID \<equiv> 25"
abbreviation (input) Sequencing_Required :: int where "Sequencing_Required \<equiv> 39"

end
