(* ===== verification/L2tp_Transport.thy ===== *)
theory L2tp_Transport
  imports L2tp_State
begin

text \<open>
  The reliable delivery of L2TP control messages in \<open>micro-bngd/ctrl/l2tp/l2tp.c\<close>: sequence
  numbers, send and retransmission queue, the receive ring, acknowledgements, retransmission with
  back-off, and the read handler that ties them together. What a message does once it is taken out
  of the ring is the matter of the message handlers, which the locale \<open>l2tp_handler\<close> describes by the
  laws the transport relies on.
\<close>

section \<open>Sequence numbers\<close>

definition nsnr_cmp :: "u16 \<Rightarrow> u16 \<Rightarrow> int" where
  "nsnr_cmp ns nr =
     (let sub_nsnr = ns - nr; ref = -32767
      in of_bool (sub_nsnr \<noteq> 0 \<and> sub_nsnr < ref) - of_bool (sub_nsnr \<ge> ref))"

section \<open>Queues\<close>

definition l2tp_tunnel_clear_recvqueue :: "l2tp_conn_t \<Rightarrow> l2tp_conn_t" where
  "l2tp_tunnel_clear_recvqueue c =
     c\<lparr>recv_queue := replicate (recv_queue_sz c) None, recv_queue_offt := 0\<rparr>"

definition l2tp_tunnel_clear_sendqueue :: "l2tp_conn_t \<Rightarrow> l2tp_conn_t" where
  "l2tp_tunnel_clear_sendqueue c = c\<lparr>send_queue := [], send_queue_len := 0\<rparr>"

definition xmit_ok :: "l2tp_io \<Rightarrow> l2tp_conn_t \<Rightarrow> l2tp_packet_t \<Rightarrow> bool" where
  "xmit_ok io c p \<longleftrightarrow> l2tp_packet_send p \<noteq> None \<and> io_send_ok io c p"

definition tunnel_xmit :: "l2tp_io \<Rightarrow> l2tp_conn_t \<Rightarrow> l2tp_packet_t \<Rightarrow> bool \<times> l2tp_packet_t \<times> l2tp_conn_t" where
  "tunnel_xmit io c p =
     (let p = set_Nr (c_Nr c) p
      in if xmit_ok io c p then (True, p, c\<lparr>c_wire := c_wire c @ [p]\<rparr>)
         else (False, p, c))"

text \<open>
  Starting and updating the retransmission timer. \<open>triton_timer_add\<close> registers the timer, and on
  failure leaves it unregistered.
\<close>

definition l2tp_tunnel_clean_rtmsqueue :: "l2tp_io \<Rightarrow> l2tp_conn_t \<Rightarrow> int \<times> l2tp_conn_t" where
  "l2tp_tunnel_clean_rtmsqueue io c =
     (let q = dropWhile (\<lambda>p. nsnr_cmp (pack_Ns p) (c_peer_Nr c) < 0) (rtms_queue c);
          pkt_freed = length (rtms_queue c) - length q;
          c1 = c\<lparr>rtms_queue := q\<rparr>
      in if pkt_freed = 0 then (0, c1)
         else
           (let c2 = c1\<lparr>c_retransmit := 0\<rparr>
            in if q = [] then (0, c2\<lparr>rtimeout_tpd := False\<rparr>)
               else
                 (let c3 = c2\<lparr>rtimeout_period := c_rtimeout c\<rparr>
                  in if rtimeout_tpd c3 then (if io_timer_ok io c3 then 0 else -1, c3)
                     else if io_timer_ok io c3 then (0, c3\<lparr>rtimeout_tpd := True\<rparr>) else (-1, c3))))"

function push_loop :: "l2tp_io \<Rightarrow> u16 \<Rightarrow> l2tp_conn_t \<Rightarrow> nat \<Rightarrow> nat option \<times> l2tp_conn_t" where
  "push_loop io Nr_max c pkt_sent =
     (case send_queue c of
        [] \<Rightarrow> (Some pkt_sent, c)
      | (sess_entry, p) # ps \<Rightarrow>
          if nsnr_cmp (c_Ns c) Nr_max \<ge> 0 then (Some pkt_sent, c)
          else
            (let (ok, p', c') = tunnel_xmit io c (set_Ns (c_Ns c) p)
             in if \<not> ok then (None, c'\<lparr>send_queue := (sess_entry, p') # ps\<rparr>)
                else push_loop io Nr_max
                       (c'\<lparr>send_queue := ps, rtms_queue := rtms_queue c @ [p'],
                           send_queue_len := send_queue_len c - 1, c_Ns := c_Ns c + 1\<rparr>)
                       (pkt_sent + 1)))"
  by pat_completeness auto
termination by (relation "measure (\<lambda>(_, _, c, _). length (send_queue c))") auto

declare push_loop.simps [simp del]

definition l2tp_tunnel_push_sendqueue :: "l2tp_io \<Rightarrow> l2tp_conn_t \<Rightarrow> int \<times> l2tp_conn_t" where
  "l2tp_tunnel_push_sendqueue io c =
     (case push_loop io (c_peer_Nr c + peer_rcv_wnd_sz c) c 0 of
        (None, c1) \<Rightarrow> (-1, c1)
      | (Some pkt_sent, c1) \<Rightarrow>
          if pkt_sent = 0 then (0, c1)
          else if \<not> rtimeout_tpd c1 then
            (let c2 = c1\<lparr>rtimeout_period := c_rtimeout c1\<rparr>
             in if io_timer_ok io c2 then (1, c2\<lparr>rtimeout_tpd := True\<rparr>) else (-1, c2))
          else (1, c1))"

definition l2tp_tunnel_send :: "l2tp_packet_t \<Rightarrow> l2tp_conn_t \<Rightarrow> int \<times> l2tp_conn_t" where
  "l2tp_tunnel_send p c =
     (if c_state c = STATE_FIN \<or> c_state c = STATE_FIN_WAIT \<or> c_state c = STATE_CLOSE then (-1, c)
      else (0, c\<lparr>send_queue := send_queue c @ [(None, set_tid (c_peer_tid c) p)],
                 send_queue_len := send_queue_len c + 1\<rparr>))"

section \<open>Freeing sessions and tunnels\<close>

text \<open>
  \<open>sess_release\<close> is \<open>l2tp_session_free\<close> up to the point where the tunnel may become empty: counters, the end of the
  data channel, messages that must not refer to the session any more, the number of sessions. A
  session in the states \<open>FIN\<close>, \<open>FIN_WAIT\<close>, \<open>CLOSE\<close> or in one of the tunnel's states is left alone.
\<close>

definition sess_live :: "l2tp_sess_t \<Rightarrow> bool" where
  "sess_live s \<longleftrightarrow> s_state1 s \<in>
     {STATE_INIT, STATE_WAIT_ICRP, STATE_WAIT_ICCN, STATE_WAIT_OCRP, STATE_WAIT_OCCN, STATE_ESTB}"

definition sess_release :: "l2tp_sess_t \<Rightarrow> l2tp_conn_t \<Rightarrow> l2tp_conn_t" where
  "sess_release s c =
     (if \<not> sess_live s then c
      else
        (let c1 = (if s_state1 s = STATE_ESTB then
                     c\<lparr>c_events := c_events c @ Ctrl_finished (s_sid s) #
                         (if s_apses_ctx s then [Call_apses_stop (s_sid s)] else []),
                       stat_sess_active := stat_sess_active c - 1, stat_sess_finishing := stat_sess_finishing c + 1\<rparr>
                   else c\<lparr>stat_sess_starting := stat_sess_starting c - 1, stat_sess_finishing := stat_sess_finishing c + 1\<rparr>)
         in c1\<lparr>send_queue := map (\<lambda>(e, p). (if e = Some (s_sid s) then None else e, p)) (send_queue c1),
               sess_count := sess_count c1 - 1\<rparr>))"

text \<open>
  All sessions of a tunnel. The tunnel is in one of the states \<open>FIN\<close>, \<open>FIN_WAIT\<close>, \<open>CLOSE\<close> whenever this is
  called, so that a tunnel without sessions is not disconnected another time.
\<close>

definition l2tp_tunnel_free_sessions :: "l2tp_conn_t \<Rightarrow> l2tp_conn_t" where
  "l2tp_tunnel_free_sessions c = fold sess_release (map snd (c_sessions c)) (c\<lparr>c_sessions := []\<rparr>)"

text \<open>The counters move when a tunnel is going down; a tunnel that is going down already counts as finishing.\<close>

definition conn_finishing :: "l2tp_conn_t \<Rightarrow> l2tp_conn_t" where
  "conn_finishing c =
     (if c_state c \<in> {STATE_INIT, STATE_WAIT_SCCRP, STATE_WAIT_SCCCN} then
        c\<lparr>stat_conn_starting := stat_conn_starting c - 1, stat_conn_finishing := stat_conn_finishing c + 1\<rparr>
      else if c_state c = STATE_ESTB then
        c\<lparr>stat_conn_active := stat_conn_active c - 1, stat_conn_finishing := stat_conn_finishing c + 1\<rparr>
      else c)"

definition l2tp_tunnel_free :: "l2tp_conn_t \<Rightarrow> l2tp_conn_t" where
  "l2tp_tunnel_free c =
     (if c_state c \<in> {STATE_INIT, STATE_WAIT_SCCRP, STATE_WAIT_SCCCN, STATE_ESTB, STATE_FIN, STATE_FIN_WAIT} then
        l2tp_tunnel_free_sessions (l2tp_tunnel_clear_recvqueue (l2tp_tunnel_clear_sendqueue
          ((conn_finishing c)\<lparr>c_state := STATE_CLOSE, c_registered := False, timeout_tpd := False,
             rtimeout_tpd := False, hello_tpd := False, rtms_queue := []\<rparr>)))
      else c)"

section \<open>Retransmission and acknowledgement\<close>

text \<open>
  The next period of the retransmission timer: the double of the last one, computed in a C \<open>int\<close>, and never
  more than the cap.
\<close>

definition next_rtimeout :: "int \<Rightarrow> int \<Rightarrow> int" where
  "next_rtimeout cap rtimeout = (if int32 (2 * rtimeout) > cap then cap else int32 (2 * rtimeout))"

definition l2tp_rtimeout :: "l2tp_io \<Rightarrow> l2tp_conn_t \<Rightarrow> l2tp_conn_t" where
  "l2tp_rtimeout io c =
     (case rtms_queue c of
        [] \<Rightarrow> c
      | p # ps \<Rightarrow>
          (let err = (\<lambda>c. l2tp_tunnel_free (c\<lparr>rtimeout_tpd := False\<rparr>));
               c1 = c\<lparr>c_retransmit := c_retransmit c + 1\<rparr>
           in if c_retransmit c1 > c_max_retransmit c1 then err c1
              else
                (let (ok, p', c2) = tunnel_xmit io c1 p;
                     c2 = c2\<lparr>rtms_queue := p' # ps\<rparr>
                 in if \<not> ok then err c2
                    else
                      (let c3 = c2\<lparr>rtimeout_period := next_rtimeout (c_rtimeout_cap c2) (rtimeout_period c2)\<rparr>
                       in if io_timer_ok io c3 then c3 else err c3))))"

definition l2tp_send_ZLB :: "l2tp_io \<Rightarrow> l2tp_conn_t \<Rightarrow> int \<times> l2tp_conn_t" where
  "l2tp_send_ZLB io c =
     (case l2tp_packet_alloc (io_env io) (io_rnd io c 0) 2 0 (c_peer_addr c) False [] of
        None \<Rightarrow> (-1, c)
      | Some p \<Rightarrow>
          (let (ok, p', c') = tunnel_xmit io c (set_Ns (c_Ns c) (set_tid (c_peer_tid c) p))
           in (if ok then 0 else -1, c')))"

section \<open>Receiving\<close>

text \<open>
  \<open>store_msg\<close> returns whether the message was stored (return value 0), the new \<open>need_ack\<close> and the
  tunnel.
\<close>

definition l2tp_tunnel_store_msg ::
    "l2tp_packet_t \<Rightarrow> bool \<Rightarrow> l2tp_conn_t \<Rightarrow> bool \<times> bool \<times> l2tp_conn_t" where
  "l2tp_tunnel_store_msg p need_ack c =
     (if nsnr_cmp (c_Ns c) (pack_Nr p) < 0 then (False, need_ack, c)
      else
        (let c1 = (if nsnr_cmp (pack_Nr p) (c_peer_Nr c) > 0 then c\<lparr>c_peer_Nr := pack_Nr p\<rparr> else c)
         in if l2tp_packet_is_ZLB p then (False, need_ack, c1)
            else if nsnr_cmp (pack_Ns p) (c_Nr c1) < 0 then (False, True, c1)
            else
              (let indx = unat (pack_Ns p - c_Nr c1)
               in if indx \<ge> recv_queue_sz c1 then (False, True, c1)
                  else
                    (let indx = (indx + recv_queue_offt c1) mod recv_queue_sz c1
                     in if recv_queue c1 ! indx \<noteq> None then (False, True, c1)
                        else (True, True, c1\<lparr>recv_queue := (recv_queue c1)[indx := Some p]\<rparr>)))))"

text \<open>
  What happens to one dequeued message. \<open>deliver\<close> is the dispatch of a message to its session
  (\<open>l2tp_session_recv\<close>) or to the tunnel (\<open>l2tp_tunnel_recv\<close>).
\<close>

type_synonym handler = "l2tp_packet_t \<Rightarrow> l2tp_conn_t \<Rightarrow> l2tp_conn_t"

definition process_msg :: "handler \<Rightarrow> l2tp_packet_t \<Rightarrow> l2tp_conn_t \<Rightarrow> l2tp_conn_t" where
  "process_msg deliver p c =
     (if c_state c = STATE_FIN \<or> c_state c = STATE_FIN_WAIT then c
      else if da_id (la_attr (hd (pk_attrs p))) \<noteq> Message_Type then c
      else deliver p c)"

text \<open>
  The loop over the receive ring; \<open>None\<close> would mean that it does not end, which depends on the
  handlers.
\<close>

partial_function (option) reply_loop ::
    "handler \<Rightarrow> nat \<Rightarrow> nat \<Rightarrow> l2tp_conn_t \<Rightarrow> (nat \<times> l2tp_conn_t) option" where
  "reply_loop deliver i pkt_count c =
     (case recv_queue c ! i of
        None \<Rightarrow> Some (pkt_count, c)
      | Some p \<Rightarrow>
          if c_state c = STATE_CLOSE then Some (pkt_count, c)
          else
            (let c1 = c\<lparr>recv_queue := (recv_queue c)[i := None], c_Nr := c_Nr c + 1,
                        c_dequeued := c_dequeued c @ [p]\<rparr>;
                 i' = (i + 1) mod recv_queue_sz c;
                 c2 = process_msg deliver p c1
             in if i' \<noteq> recv_queue_offt c2 then reply_loop deliver i' (pkt_count + 1) c2
                else Some (pkt_count + 1, c2)))"

definition l2tp_tunnel_reply ::
    "l2tp_io \<Rightarrow> handler \<Rightarrow> bool \<Rightarrow> l2tp_conn_t \<Rightarrow> (int \<times> l2tp_conn_t) option" where
  "l2tp_tunnel_reply io deliver need_ack c =
     (case reply_loop deliver (recv_queue_offt c) 0 c of
        None \<Rightarrow> None
      | Some (pkt_count, c1) \<Rightarrow>
          (let c2 = c1\<lparr>recv_queue_offt := (recv_queue_offt c1 + pkt_count) mod recv_queue_sz c1\<rparr>;
               (res, c3) = l2tp_tunnel_push_sendqueue io c2
           in Some (if res = 0 \<and> need_ack then l2tp_send_ZLB io c3 else (res, c3))))"

text \<open>
  The read handler. Its input is the list of outcomes of \<open>l2tp_recv\<close> until the socket is drained
  (\<open>EAGAIN\<close>): a parsed message, a datagram that was dropped, or an unreachable peer.
\<close>

datatype rx_item = Rx_msg l2tp_packet_t | Rx_null | Rx_unreach

fun read_loop :: "l2tp_io \<Rightarrow> rx_item list \<Rightarrow> bool \<Rightarrow> l2tp_conn_t \<Rightarrow> bool \<times> bool \<times> l2tp_conn_t" where
  "read_loop io [] need_ack c = (True, need_ack, c)"
| "read_loop io (Rx_unreach # rs) need_ack c = (False, need_ack, c)"
| "read_loop io (Rx_null # rs) need_ack c = read_loop io rs need_ack c"
| "read_loop io (Rx_msg p # rs) need_ack c =
     (if \<not> c_port_set c \<and> \<not> io_peerport_ok io c then (False, need_ack, c)
      else
        (let c1 = (if c_port_set c then c else c\<lparr>c_peer_addr := (fst (c_peer_addr c), snd (pk_addr p)), c_port_set := True\<rparr>)
         in if h_tid (pk_hdr p) \<noteq> c_tid c1 \<and> (h_tid (pk_hdr p) \<noteq> 0 \<or> \<not> conf_dir300_quirk io) then
              read_loop io rs need_ack c1
            else
              (let (stored, need_ack', c2) = l2tp_tunnel_store_msg p need_ack c1
               in read_loop io rs need_ack' c2)))"

definition l2tp_conn_read ::
    "l2tp_io \<Rightarrow> handler \<Rightarrow> rx_item list \<Rightarrow> l2tp_conn_t \<Rightarrow> (int \<times> l2tp_conn_t) option" where
  "l2tp_conn_read io deliver rs c =
     (let (drained, need_ack, c1) = read_loop io rs False c
      in if \<not> drained then Some (-1, l2tp_tunnel_free c1)
         else
           (let (res, c2) = l2tp_tunnel_clean_rtmsqueue io c1
            in if res < 0 then Some (-1, l2tp_tunnel_free c2)
               else
                 (case l2tp_tunnel_reply io deliver need_ack c2 of
                    None \<Rightarrow> None
                  | Some (res, c3) \<Rightarrow>
                      if res < 0 then Some (-1, l2tp_tunnel_free c3)
                      else if c_state c3 = STATE_FIN \<and> send_queue c3 = [] \<and> rtms_queue c3 = [] then
                        Some (-1, l2tp_tunnel_free c3)
                      else if c_state c3 = STATE_CLOSE then Some (-1, c3)
                      else Some (0, c3))))"

section \<open>Arithmetic of sequence numbers\<close>

lemma tunnel_xmit_eq:
  "tunnel_xmit io c p = (let q = set_Nr (c_Nr c) p; ok = xmit_ok io c q
     in (ok, q, c\<lparr>c_wire := c_wire c @ (if ok then [q] else [])\<rparr>))"
  by (simp add: tunnel_xmit_def Let_def)

lemma nsnr_cmp_iff:
  "nsnr_cmp a b < 0 \<longleftrightarrow> 32769 \<le> unat (a - b)"
  "0 < nsnr_cmp a b \<longleftrightarrow> 0 < unat (a - b) \<and> unat (a - b) < 32769"
  "0 \<le> nsnr_cmp a b \<longleftrightarrow> unat (a - b) < 32769"
  by (auto simp: nsnr_cmp_def Let_def word_less_nat_alt word_le_nat_alt unat_gt_0)

lemma unat_diff_wrap:
  assumes "i < k" "k \<le> 65535"
  shows "unat (of_nat i - of_nat k :: u16) = 65536 + i - k"
proof -
  have "(of_nat (65536 + i - k) :: u16) = of_nat (65536 + i) - of_nat k"
    using assms by (intro of_nat_diff) simp
  also have "\<dots> = of_nat i - of_nat k" by simp
  finally have "unat (of_nat i - of_nat k :: u16) = unat (of_nat (65536 + i - k) :: u16)" by simp
  also have "\<dots> = 65536 + i - k"
    using assms by (intro unat_of_nat_small) simp
  finally show ?thesis .
qed

lemma unat_diff_nowrap:
  assumes "k \<le> i" "i \<le> 65535"
  shows "unat (of_nat i - of_nat k :: u16) = i - k"
  using assms unat_of_nat_small [of "i - k", where 'a = 16] by (simp add: of_nat_diff)

text \<open>Numbers at most 32767 apart are compared the right way, across the wrap-around.\<close>

lemma nsnr_cmp_serial:
  assumes "i \<le> k + 32768" "k \<le> i + 32767" "i \<le> 65535" "k \<le> 65535"
  shows "nsnr_cmp (b + of_nat i) (b + of_nat k) < 0 \<longleftrightarrow> i < k"
  using assms unat_diff_wrap [of i k] unat_diff_nowrap [of k i]
  by (cases "i < k") (simp_all add: nsnr_cmp_iff)

text \<open>
  The sequence numbers that count as old are the last received one and the 32767 before it, as RFC 2661
  says.
\<close>

lemma nsnr_cmp_rfc2661: "nsnr_cmp ns nr \<le> 0 \<longleftrightarrow> (\<exists>i \<le> 32767. ns = nr - of_nat i)"
proof -
  have "nsnr_cmp ns nr \<le> 0 \<longleftrightarrow> unat (ns - nr) = 0 \<or> 32769 \<le> unat (ns - nr)"
    using nsnr_cmp_iff(2) [of ns nr] by linarith
  also have "\<dots> \<longleftrightarrow> (\<exists>i \<le> 32767. ns = nr - of_nat i)"
  proof
    assume "unat (ns - nr) = 0 \<or> 32769 \<le> unat (ns - nr)"
    then show "\<exists>i \<le> 32767. ns = nr - of_nat i"
    proof
      assume "unat (ns - nr) = 0"
      then show ?thesis by (intro exI [of _ 0]) (simp add: unat_eq_0)
    next
      assume a: "32769 \<le> unat (ns - nr)"
      let ?i = "65536 - unat (ns - nr)"
      have "(of_nat ?i :: u16) = of_nat 65536 - of_nat (unat (ns - nr))"
        using unat_u16_less [of "ns - nr"] by (intro of_nat_diff) simp
      then have "nr - of_nat ?i = ns" by simp
      with a show ?thesis by (intro exI [of _ ?i]) simp
    qed
  next
    assume "\<exists>i \<le> 32767. ns = nr - of_nat i"
    then obtain i where i: "i \<le> 32767" "ns = nr - of_nat i" by blast
    then show "unat (ns - nr) = 0 \<or> 32769 \<le> unat (ns - nr)"
      using unat_diff_wrap [of 0 i] by (cases "i = 0") simp_all
  qed
  finally show ?thesis .
qed

section \<open>The sender\<close>

text \<open>
  The sender's invariant, with \<open>k\<close> messages acknowledged by the peer and not yet removed: the
  retransmission queue holds consecutive sequence numbers up to \<open>Ns\<close>, fewer than the comparison can
  tell apart, and the peer's \<open>Nr\<close> lies \<open>k\<close> places after its first.
\<close>

definition snd_inv :: "nat \<Rightarrow> l2tp_conn_t \<Rightarrow> bool" where
  "snd_inv k c \<longleftrightarrow>
     (let b = c_peer_Nr c - of_nat k; n = length (rtms_queue c)
      in k \<le> n \<and> c_Ns c = b + of_nat n \<and> n \<le> 32767 \<and> unat (peer_rcv_wnd_sz c) \<le> 32767 \<and>
         (\<forall>i < n. pack_Ns (rtms_queue c ! i) = b + of_nat i))"

lemma snd_inv_cong:
  assumes "c_peer_Nr c' = c_peer_Nr c" "c_Ns c' = c_Ns c" "rtms_queue c' = rtms_queue c"
    "peer_rcv_wnd_sz c' = peer_rcv_wnd_sz c"
  shows "snd_inv k c' = snd_inv k c"
  using assms by (simp add: snd_inv_def)

lemma clean_drops_acked:
  assumes "snd_inv k c"
  shows "dropWhile (\<lambda>p. nsnr_cmp (pack_Ns p) (c_peer_Nr c) < 0) (rtms_queue c) = drop k (rtms_queue c)"
proof -
  define b where "b = c_peer_Nr c - of_nat k"
  have inv: "k \<le> length (rtms_queue c)" "length (rtms_queue c) \<le> 32767" "c_peer_Nr c = b + of_nat k"
    "\<And>i. i < length (rtms_queue c) \<Longrightarrow> pack_Ns (rtms_queue c ! i) = b + of_nat i"
    using assms by (auto simp: snd_inv_def Let_def b_def)
  have "takeWhile (\<lambda>p. nsnr_cmp (pack_Ns p) (c_peer_Nr c) < 0) (rtms_queue c) = take k (rtms_queue c)"
    using inv by (intro takeWhile_eq_take_P_nth) (simp_all add: nsnr_cmp_serial)
  then show ?thesis using inv(1) by (simp add: dropWhile_eq_drop)
qed

lemma clean_rtmsqueue_snd_inv:
  assumes "snd_inv k c"
  shows "snd_inv 0 (snd (l2tp_tunnel_clean_rtmsqueue io c))"
    and "rtms_queue (snd (l2tp_tunnel_clean_rtmsqueue io c)) = drop k (rtms_queue c)"
proof -
  show q: "rtms_queue (snd (l2tp_tunnel_clean_rtmsqueue io c)) = drop k (rtms_queue c)"
    by (auto simp: l2tp_tunnel_clean_rtmsqueue_def clean_drops_acked [OF assms] Let_def)
  have same: "c_peer_Nr (snd (l2tp_tunnel_clean_rtmsqueue io c)) = c_peer_Nr c"
    "c_Ns (snd (l2tp_tunnel_clean_rtmsqueue io c)) = c_Ns c"
    "peer_rcv_wnd_sz (snd (l2tp_tunnel_clean_rtmsqueue io c)) = peer_rcv_wnd_sz c"
    by (simp_all add: l2tp_tunnel_clean_rtmsqueue_def Let_def)
  show "snd_inv 0 (snd (l2tp_tunnel_clean_rtmsqueue io c))"
    using assms unfolding snd_inv_def Let_def q same by (auto simp: of_nat_diff)
qed

text \<open>Sending from the queue: numbers are consecutive, the window is respected, the order is kept.\<close>

definition same_msg :: "l2tp_packet_t \<Rightarrow> l2tp_packet_t \<Rightarrow> bool" where
  "same_msg p q \<longleftrightarrow> pk_attrs q = pk_attrs p \<and> h_tid (pk_hdr q) = h_tid (pk_hdr p) \<and> h_sid (pk_hdr q) = h_sid (pk_hdr p)"

lemma same_msg_refl: "list_all2 same_msg q q"
  by (simp add: list_all2_refl same_msg_def)

lemma same_msg_set [simp]: "same_msg p (set_Nr r (set_Ns n p))" "pack_Ns (set_Nr r (set_Ns n p)) = n"
  by (simp_all add: same_msg_def set_Nr_def set_Ns_def)

lemma window_test:
  assumes "snd_inv 0 c"
  shows "0 \<le> nsnr_cmp (c_Ns c) (c_peer_Nr c + peer_rcv_wnd_sz c) \<longleftrightarrow>
    unat (peer_rcv_wnd_sz c) \<le> length (rtms_queue c)"
proof -
  let ?n = "length (rtms_queue c)" and ?w = "unat (peer_rcv_wnd_sz c)"
  have inv: "c_Ns c = c_peer_Nr c + of_nat ?n" "?n \<le> 32767" "?w \<le> 32767"
    using assms by (simp_all add: snd_inv_def Let_def)
  have "nsnr_cmp (c_peer_Nr c + of_nat ?n) (c_peer_Nr c + of_nat ?w) < 0 \<longleftrightarrow> ?n < ?w"
    using inv by (intro nsnr_cmp_serial) simp_all
  then have "nsnr_cmp (c_Ns c) (c_peer_Nr c + peer_rcv_wnd_sz c) < 0 \<longleftrightarrow> ?n < ?w"
    unfolding inv(1) by simp
  then show ?thesis by linarith
qed

lemma push_step_inv:
  assumes "snd_inv 0 c" "length (rtms_queue c) < unat (peer_rcv_wnd_sz c)" "pack_Ns p = c_Ns c"
    and "rtms_queue c' = rtms_queue c @ [p]" "c_Ns c' = c_Ns c + 1" "c_peer_Nr c' = c_peer_Nr c"
      "peer_rcv_wnd_sz c' = peer_rcv_wnd_sz c"
  shows "snd_inv 0 c'"
  using assms by (auto simp: snd_inv_def Let_def nth_append less_Suc_eq)

definition push_post :: "l2tp_conn_t \<Rightarrow> nat \<Rightarrow> nat option \<Rightarrow> l2tp_conn_t \<Rightarrow> bool" where
  "push_post c n r c' \<longleftrightarrow>
     snd_inv 0 c' \<and> c_peer_Nr c' = c_peer_Nr c \<and> peer_rcv_wnd_sz c' = peer_rcv_wnd_sz c \<and>
     (\<exists>sent. rtms_queue c' = rtms_queue c @ sent \<and> c_wire c' = c_wire c @ sent \<and>
       list_all2 same_msg (map snd (send_queue c)) (sent @ map snd (send_queue c')) \<and>
       (sent \<noteq> [] \<longrightarrow> length (rtms_queue c') \<le> unat (peer_rcv_wnd_sz c)) \<and>
       (case r of None \<Rightarrow> True | Some m \<Rightarrow> m = n + length sent \<and>
          (send_queue c' = [] \<or> unat (peer_rcv_wnd_sz c) \<le> length (rtms_queue c'))))"

lemma push_loop_spec:
  "snd_inv 0 c \<Longrightarrow> Nr_max = c_peer_Nr c + peer_rcv_wnd_sz c \<Longrightarrow>
   push_loop io Nr_max c n = (r, c') \<Longrightarrow> push_post c n r c'"
proof (induction io Nr_max c n arbitrary: r c' rule: push_loop.induct)
  case (1 io Nr_max c n)
  show ?case
  proof (cases "send_queue c")
    case Nil
    then have "r = Some n" "c' = c" using "1.prems"(3) by (simp_all add: push_loop.simps [of io Nr_max c n])
    with "1.prems"(1) Nil show ?thesis by (simp add: push_post_def)
  next
    case (Cons e ps)
    then obtain own p where e: "e = (own, p)" by fastforce
    note Cons = Cons [unfolded e]
    show ?thesis
    proof (cases "0 \<le> nsnr_cmp (c_Ns c) Nr_max")
      case True
      then have "r = Some n" "c' = c"
        using "1.prems"(3) Cons by (simp_all add: push_loop.simps [of io Nr_max c n])
      with True window_test [OF "1.prems"(1)] "1.prems"(1,2) show ?thesis
        by (simp add: push_post_def same_msg_refl)
    next
      case False
      then have room: "length (rtms_queue c) < unat (peer_rcv_wnd_sz c)"
        using window_test [OF "1.prems"(1)] "1.prems"(1,2) by (auto simp: snd_inv_def Let_def)
      define q where "q = set_Nr (c_Nr c) (set_Ns (c_Ns c) p)"
      show ?thesis
      proof (cases "xmit_ok io c q")
        case fail: False
        then have "r = None" "c' = c\<lparr>send_queue := (own, q) # ps\<rparr>"
          using "1.prems"(3) Cons False
          by (simp_all add: push_loop.simps [of io Nr_max c n] tunnel_xmit_def q_def Let_def)
        with "1.prems"(1) Cons show ?thesis
          by (simp add: push_post_def snd_inv_def q_def same_msg_refl)
      next
        case ok: True
        define c1 where "c1 = c\<lparr>c_wire := c_wire c @ [q], send_queue := ps, rtms_queue := rtms_queue c @ [q],
            send_queue_len := send_queue_len c - 1, c_Ns := c_Ns c + 1\<rparr>"
        have xmit: "tunnel_xmit io c (set_Ns (c_Ns c) p) = (True, q, c\<lparr>c_wire := c_wire c @ [q]\<rparr>)"
          using ok by (simp add: tunnel_xmit_def q_def Let_def)
        have run: "push_loop io Nr_max c1 (n + 1) = (r, c')"
          using "1.prems"(3) Cons False xmit by (simp add: push_loop.simps [of io Nr_max c n] c1_def)
        have "snd_inv 0 c1"
          by (rule push_step_inv [OF "1.prems"(1) room, of q]) (simp_all add: c1_def q_def)
        from "1.IH" [OF Cons refl False xmit [symmetric] refl refl _ this [unfolded c1_def]] run "1.prems"(2)
        have "push_post c1 (n + 1) r c'" by (simp add: c1_def)
        then obtain sent where post: "snd_inv 0 c'" "c_peer_Nr c' = c_peer_Nr c1" "peer_rcv_wnd_sz c' = peer_rcv_wnd_sz c1"
          "rtms_queue c' = rtms_queue c1 @ sent" "c_wire c' = c_wire c1 @ sent"
          "list_all2 same_msg (map snd (send_queue c1)) (sent @ map snd (send_queue c'))"
          "sent \<noteq> [] \<longrightarrow> length (rtms_queue c') \<le> unat (peer_rcv_wnd_sz c1)"
          "case r of None \<Rightarrow> True | Some m \<Rightarrow> m = n + 1 + length sent \<and>
             (send_queue c' = [] \<or> unat (peer_rcv_wnd_sz c1) \<le> length (rtms_queue c'))"
          unfolding push_post_def by blast
        have "length (rtms_queue c') \<le> unat (peer_rcv_wnd_sz c)"
          using post(4,7) room by (cases "sent = []") (simp_all add: c1_def)
        with post show ?thesis
          unfolding push_post_def using Cons
          by (intro conjI exI [of _ "q # sent"]) (auto simp: c1_def q_def split: option.splits)
      qed
    qed
  qed
qed

lemma push_sendqueue_fields:
  "rtms_queue (snd (l2tp_tunnel_push_sendqueue io c)) = rtms_queue (snd (push_loop io (c_peer_Nr c + peer_rcv_wnd_sz c) c 0))"
  "send_queue (snd (l2tp_tunnel_push_sendqueue io c)) = send_queue (snd (push_loop io (c_peer_Nr c + peer_rcv_wnd_sz c) c 0))"
  "c_wire (snd (l2tp_tunnel_push_sendqueue io c)) = c_wire (snd (push_loop io (c_peer_Nr c + peer_rcv_wnd_sz c) c 0))"
  "snd_inv k (snd (l2tp_tunnel_push_sendqueue io c)) = snd_inv k (snd (push_loop io (c_peer_Nr c + peer_rcv_wnd_sz c) c 0))"
  by (auto simp: l2tp_tunnel_push_sendqueue_def Let_def snd_inv_def split: prod.splits option.splits)

text \<open>
  Storing a message moves the peer's \<open>Nr\<close> forward within the messages in flight. The comparison has one
  blind spot: an acknowledgement exactly 32768 ahead of \<open>Ns\<close> passes the test for unsent messages.
\<close>

lemma store_msg_snd_inv:
  assumes inv: "snd_inv k c" and spot: "pack_Nr p \<noteq> c_Ns c + 32768"
    and st: "l2tp_tunnel_store_msg p a c = (s, a', c')"
  shows "\<exists>k'. snd_inv k' c'" "c_Ns c' = c_Ns c"
proof -
  define b n where "b = c_peer_Nr c - of_nat k" and "n = length (rtms_queue c)"
  have b: "k \<le> n" "n \<le> 32767" "c_peer_Nr c = b + of_nat k" "c_Ns c = b + of_nat n"
    using inv by (simp_all add: snd_inv_def Let_def b_def n_def)
  have fields: "c_Ns c' = c_Ns c" "rtms_queue c' = rtms_queue c" "peer_rcv_wnd_sz c' = peer_rcv_wnd_sz c"
    "c_peer_Nr c' = (if 0 \<le> nsnr_cmp (c_Ns c) (pack_Nr p) \<and> 0 < nsnr_cmp (pack_Nr p) (c_peer_Nr c)
       then pack_Nr p else c_peer_Nr c)"
    using st by (auto simp: l2tp_tunnel_store_msg_def Let_def split: if_splits)
  then show "c_Ns c' = c_Ns c" by simp
  show "\<exists>k'. snd_inv k' c'"
  proof (cases "0 \<le> nsnr_cmp (c_Ns c) (pack_Nr p) \<and> 0 < nsnr_cmp (pack_Nr p) (c_peer_Nr c)")
    case False
    with fields inv show ?thesis by (auto simp: snd_inv_def)
  next
    case True
    define e where "e = unat (pack_Nr p - c_peer_Nr c)"
    have e: "0 < e" "e < 32769" using True by (simp_all add: nsnr_cmp_iff e_def)
    have nr: "pack_Nr p = b + of_nat (k + e)" using b(3) by (simp add: e_def)
    have d: "unat (of_nat n - of_nat (k + e) :: u16) < 32769"
      using True nr b(4) by (simp add: nsnr_cmp_iff)
    have "k + e \<le> n"
    proof (rule ccontr)
      assume "\<not> k + e \<le> n"
      then have lt: "n < k + e" "k + e \<le> 65535" using b(1,2) e(2) by simp_all
      with d unat_diff_wrap [OF lt] have far: "65536 + n - (k + e) \<le> 32768" by simp
      with b(1) e(2) have "k = n" "e = 32768" by linarith+
      with nr b(4) spot show False by simp
    qed
    with True nr fields inv show ?thesis
      by (intro exI [of _ "k + e"]) (simp add: snd_inv_def Let_def n_def b_def)
  qed
qed

lemma read_loop_snd_inv:
  "snd_inv k c \<Longrightarrow> \<forall>p. Rx_msg p \<in> set rs \<longrightarrow> pack_Nr p \<noteq> c_Ns c + 32768 \<Longrightarrow>
   read_loop io rs a c = (d, a', c') \<Longrightarrow> \<exists>k'. snd_inv k' c'"
proof (induction io rs a c arbitrary: k d a' c' rule: read_loop.induct)
  case (4 io p rs a c)
  define c1 where "c1 = (if c_port_set c then c else c\<lparr>c_peer_addr := (fst (c_peer_addr c), snd (pk_addr p)), c_port_set := True\<rparr>)"
  have c1: "snd_inv k c1" "c_Ns c1 = c_Ns c"
    using "4.prems"(1) by (simp_all add: c1_def snd_inv_def)
  consider (bad) "\<not> c_port_set c \<and> \<not> io_peerport_ok io c"
    | (skip) "\<not> (\<not> c_port_set c \<and> \<not> io_peerport_ok io c)"
        "h_tid (pk_hdr p) \<noteq> c_tid c1 \<and> (h_tid (pk_hdr p) \<noteq> 0 \<or> \<not> conf_dir300_quirk io)"
    | (store) "\<not> (\<not> c_port_set c \<and> \<not> io_peerport_ok io c)"
        "\<not> (h_tid (pk_hdr p) \<noteq> c_tid c1 \<and> (h_tid (pk_hdr p) \<noteq> 0 \<or> \<not> conf_dir300_quirk io))"
    by blast
  then show ?case
  proof cases
    case bad
    with "4.prems" show ?thesis by auto
  next
    case skip
    with "4.prems"(3) have "read_loop io rs a c1 = (d, a', c')" by (simp add: Let_def flip: c1_def)
    from "4.IH"(1) [OF skip(1) c1_def skip(2) c1(1) _ this] "4.prems"(2) c1(2) show ?thesis by simp
  next
    case store
    obtain s b c2 where st: "l2tp_tunnel_store_msg p a c1 = (s, b, c2)" by (metis prod_cases3)
    with "4.prems"(3) store have run: "read_loop io rs b c2 = (d, a', c')"
      by (auto simp: Let_def simp flip: c1_def)
    obtain k2 where k2: "snd_inv k2 c2" "c_Ns c2 = c_Ns c"
      using store_msg_snd_inv [OF c1(1) _ st] "4.prems"(2) c1(2) by auto
    from "4.IH"(2) [OF store(1) c1_def store(2) st [symmetric] refl refl k2(1) _ run] "4.prems"(2) k2(2)
    show ?thesis by simp
  qed
qed auto

section \<open>The receive ring\<close>

text \<open>
  The slot at distance \<open>k\<close> from the read position. The ring is a window onto the sequence of messages
  to come: slot \<open>k\<close> is free or holds the message with number \<open>Nr + k\<close>.
\<close>

definition ring_slot :: "nat \<Rightarrow> l2tp_conn_t \<Rightarrow> nat \<Rightarrow> l2tp_packet_t option" where
  "ring_slot off c k = recv_queue c ! ((off + k) mod recv_queue_sz c)"

definition ring_ok :: "nat \<Rightarrow> l2tp_conn_t \<Rightarrow> bool" where
  "ring_ok off c \<longleftrightarrow> length (recv_queue c) = recv_queue_sz c \<and> 0 < recv_queue_sz c \<and> off < recv_queue_sz c"

definition rcv_inv :: "l2tp_conn_t \<Rightarrow> bool" where
  "rcv_inv c \<longleftrightarrow> ring_ok (recv_queue_offt c) c \<and>
     (\<forall>k < recv_queue_sz c. \<forall>p. ring_slot (recv_queue_offt c) c k = Some p \<longrightarrow> pack_Ns p = c_Nr c + of_nat k)"

lemma ring_pos:
  assumes "off < sz" "k < (sz :: nat)"
  shows "(off + k) mod sz = (if off + k < sz then off + k else off + k - sz)"
  using assms by (simp add: mod_if)

lemma ring_inj:
  assumes "off < sz" "k < sz" "j < (sz :: nat)"
  shows "(off + k) mod sz = (off + j) mod sz \<longleftrightarrow> k = j"
  using assms by (auto simp: ring_pos split: if_splits)

lemma ring_slot_update:
  assumes "ring_ok off c" "k < recv_queue_sz c" "j < recv_queue_sz c"
  shows "ring_slot off (c\<lparr>recv_queue := (recv_queue c)[(off + k) mod recv_queue_sz c := x]\<rparr>) j =
    (if j = k then x else ring_slot off c j)"
  using assms ring_inj [of off "recv_queue_sz c" k j]
  by (auto simp: ring_slot_def ring_ok_def nth_list_update)

text \<open>Moving the read position by \<open>m\<close> slots that have been emptied.\<close>

lemma ring_slot_advance:
  assumes "ring_ok off c" "m \<le> recv_queue_sz c" "k < recv_queue_sz c"
    and "\<And>j. j < m \<Longrightarrow> ring_slot off c j = None"
  shows "ring_slot ((off + m) mod recv_queue_sz c) c k =
    (if m + k < recv_queue_sz c then ring_slot off c (m + k) else None)"
proof -
  let ?sz = "recv_queue_sz c"
  have "((off + m) mod ?sz + k) mod ?sz = (off + (m + k)) mod ?sz" by (simp add: mod_simps ac_simps)
  moreover have "(off + (m + k)) mod ?sz = (off + (m + k - ?sz)) mod ?sz" if "\<not> m + k < ?sz"
    using that by (metis add_diff_cancel_right' le_add_diff_inverse2 linorder_not_less mod_add_self2 add.assoc)
  ultimately show ?thesis
    using assms(2-3) assms(4) [of "m + k - ?sz"] by (auto simp: ring_slot_def)
qed

lemma store_msg_rcv_inv:
  assumes inv: "rcv_inv c" and st: "l2tp_tunnel_store_msg p a c = (s, a', c')"
  shows "rcv_inv c' \<and> c_Nr c' = c_Nr c \<and> c_dequeued c' = c_dequeued c \<and> c_state c' = c_state c"
proof (cases s)
  case False
  with st have "recv_queue c' = recv_queue c" "recv_queue_sz c' = recv_queue_sz c"
    "recv_queue_offt c' = recv_queue_offt c" "c_Nr c' = c_Nr c" "c_dequeued c' = c_dequeued c" "c_state c' = c_state c"
    by (auto simp: l2tp_tunnel_store_msg_def Let_def split: if_splits)
  with inv show ?thesis by (simp add: rcv_inv_def ring_ok_def ring_slot_def)
next
  case True
  define k c1 where "k = unat (pack_Ns p - c_Nr c)"
    and "c1 = (if nsnr_cmp (pack_Nr p) (c_peer_Nr c) > 0 then c\<lparr>c_peer_Nr := pack_Nr p\<rparr> else c)"
  have c1: "recv_queue c1 = recv_queue c" "recv_queue_sz c1 = recv_queue_sz c"
    "recv_queue_offt c1 = recv_queue_offt c" "c_Nr c1 = c_Nr c" "c_dequeued c1 = c_dequeued c" "c_state c1 = c_state c"
    by (simp_all add: c1_def)
  have new: "k < recv_queue_sz c"
    "c' = c1\<lparr>recv_queue := (recv_queue c1)[(recv_queue_offt c1 + k) mod recv_queue_sz c1 := Some p]\<rparr>"
    using st True by (auto simp: l2tp_tunnel_store_msg_def Let_def c1_def k_def ac_simps split: if_splits)
  have ok: "ring_ok (recv_queue_offt c1) c1" and old: "\<And>j q. j < recv_queue_sz c \<Longrightarrow>
      ring_slot (recv_queue_offt c1) c1 j = Some q \<Longrightarrow> pack_Ns q = c_Nr c + of_nat j"
    using inv c1 by (auto simp: rcv_inv_def ring_ok_def ring_slot_def)
  have "pack_Ns p = c_Nr c + of_nat k" by (simp add: k_def)
  then have "pack_Ns q = c_Nr c + of_nat j" if "j < recv_queue_sz c" "ring_slot (recv_queue_offt c1) c' j = Some q" for j q
    using that new ring_slot_update [OF ok, of k j "Some p"] old [of j q] c1 by (simp split: if_splits)
  moreover have "ring_ok (recv_queue_offt c1) c'" using ok new by (simp add: ring_ok_def)
  ultimately show ?thesis using c1 new(2) by (simp add: rcv_inv_def)
qed

lemma read_loop_rcv_inv:
  "rcv_inv c \<Longrightarrow> read_loop io rs a c = (d, a', c') \<Longrightarrow>
   rcv_inv c' \<and> c_Nr c' = c_Nr c \<and> c_dequeued c' = c_dequeued c \<and> c_state c' = c_state c"
proof (induction io rs a c arbitrary: d a' c' rule: read_loop.induct)
  case (4 io p rs a c)
  define c1 where "c1 = (if c_port_set c then c else c\<lparr>c_peer_addr := (fst (c_peer_addr c), snd (pk_addr p)), c_port_set := True\<rparr>)"
  have c1: "rcv_inv c1" "c_Nr c1 = c_Nr c" "c_dequeued c1 = c_dequeued c" "c_state c1 = c_state c"
    using "4.prems"(1) by (simp_all add: c1_def rcv_inv_def ring_ok_def ring_slot_def)
  obtain s b c2 where st: "l2tp_tunnel_store_msg p a c1 = (s, b, c2)" by (metis prod_cases3)
  note c2 = store_msg_rcv_inv [OF c1(1) st]
  from "4.prems" c1 c2 st show ?case
    using "4.IH"(1) [OF _ c1_def _ c1(1)] "4.IH"(2) [OF _ c1_def _ st [symmetric] refl refl]
    by (auto simp: Let_def simp flip: c1_def split: if_splits)
qed auto

section \<open>The message handlers and the reply loop\<close>

text \<open>The states a tunnel, as opposed to a session, can be in.\<close>

definition tunnel_state :: "l2tp_state \<Rightarrow> bool" where
  "tunnel_state st \<longleftrightarrow> st \<notin> {STATE_WAIT_ICRP, STATE_WAIT_ICCN, STATE_WAIT_OCRP, STATE_WAIT_OCCN}"

text \<open>
  What a handler may do to a tunnel, as far as the transport is concerned: states only advance; it neither
  consumes messages nor touches the ring, and keeps the sender's invariant, unless it closes the
  tunnel. \<open>sane\<close> is the condition for the sender's side, \<open>est\<close> the condition under which the tunnel
  may become established.
\<close>

fun state_rank :: "l2tp_state \<Rightarrow> nat" where
  "state_rank STATE_INIT = 0"
| "state_rank STATE_ESTB = 2"
| "state_rank STATE_FIN = 3"
| "state_rank STATE_FIN_WAIT = 4"
| "state_rank STATE_CLOSE = 5"
| "state_rank _ = 1"

lemma state_rank_CLOSE: "5 \<le> state_rank st \<longleftrightarrow> st = STATE_CLOSE"
  by (cases st) simp_all

definition conn_step :: "bool \<Rightarrow> bool \<Rightarrow> l2tp_conn_t \<Rightarrow> l2tp_conn_t \<Rightarrow> bool" where
  "conn_step sane est c c' \<longleftrightarrow>
     c_Nr c' = c_Nr c \<and> c_dequeued c' = c_dequeued c \<and>
     (tunnel_state (c_state c) \<longrightarrow> tunnel_state (c_state c')) \<and>
     state_rank (c_state c) \<le> state_rank (c_state c') \<and>
     (c_state c' = STATE_ESTB \<longrightarrow> c_state c = STATE_ESTB \<or> est) \<and>
     (c_state c' \<noteq> STATE_CLOSE \<longrightarrow>
        recv_queue c' = recv_queue c \<and> recv_queue_sz c' = recv_queue_sz c \<and> recv_queue_offt c' = recv_queue_offt c \<and>
        (sane \<longrightarrow> snd_inv 0 c \<longrightarrow> snd_inv 0 c'))"

lemma conn_step_refl [simp]: "conn_step sane est c c"
  by (simp add: conn_step_def)

lemma conn_step_trans [trans]:
  assumes "conn_step sane est a b" "conn_step sane est b c"
  shows "conn_step sane est a c"
proof -
  have "c_state b \<noteq> STATE_CLOSE" if "c_state c \<noteq> STATE_CLOSE"
    using that assms(2) state_rank_CLOSE [of "c_state b"] state_rank_CLOSE [of "c_state c"]
    by (auto simp: conn_step_def)
  with assms show ?thesis by (auto simp: conn_step_def)
qed

text \<open>
  A message from which the sender's side can suffer announces a window of 32768: the comparison of sequence
  numbers cannot handle it.
\<close>

definition sane_msg :: "l2tp_packet_t \<Rightarrow> bool" where
  "sane_msg p \<longleftrightarrow> (\<forall>a \<in> set (pk_attrs p). da_id (la_attr a) = Recv_Window_Size \<longrightarrow> val_uint16 (la_val a) \<noteq> 32768)"

definition ring_sane :: "l2tp_conn_t \<Rightarrow> bool" where
  "ring_sane c \<longleftrightarrow> (\<forall>p. Some p \<in> set (recv_queue c) \<longrightarrow> sane_msg p)"

definition conn_live :: "l2tp_conn_t \<Rightarrow> bool" where
  "conn_live c \<longleftrightarrow> tunnel_state (c_state c) \<and> c_state c \<notin> {STATE_FIN, STATE_FIN_WAIT, STATE_CLOSE}"

locale l2tp_handler =
  fixes deliver :: handler
  assumes deliver_step: "conn_live c \<Longrightarrow> conn_step (sane_msg p) True c (deliver p c)"

text \<open>The ring while \<open>m\<close> slots from the read position \<open>off\<close> on have been emptied.\<close>

definition rcv_mid :: "nat \<Rightarrow> nat \<Rightarrow> l2tp_conn_t \<Rightarrow> bool" where
  "rcv_mid off m c \<longleftrightarrow> ring_ok off c \<and> recv_queue_offt c = off \<and> m \<le> recv_queue_sz c \<and>
     (\<forall>k < recv_queue_sz c. \<forall>p. ring_slot off c k = Some p \<longrightarrow> m \<le> k \<and> pack_Ns p = c_Nr c + of_nat (k - m))"

lemma rcv_inv_mid: "rcv_inv c \<longleftrightarrow> rcv_mid (recv_queue_offt c) 0 c"
  by (simp add: rcv_inv_def rcv_mid_def)

lemma rcv_mid_cong:
  assumes "recv_queue c' = recv_queue c" "recv_queue_sz c' = recv_queue_sz c"
    "recv_queue_offt c' = recv_queue_offt c" "c_Nr c' = c_Nr c"
  shows "rcv_mid off m c' = rcv_mid off m c"
  using assms by (simp add: rcv_mid_def ring_ok_def ring_slot_def)

lemma rcv_mid_take:
  assumes "rcv_mid off m c" "m < recv_queue_sz c" "ring_slot off c m = Some p"
    and "c' = c\<lparr>recv_queue := (recv_queue c)[(off + m) mod recv_queue_sz c := None], c_Nr := c_Nr c + 1, c_dequeued := d\<rparr>"
  shows "rcv_mid off (Suc m) c'" "pack_Ns p = c_Nr c"
proof -
  have ok: "ring_ok off c" and slots: "\<And>k q. k < recv_queue_sz c \<Longrightarrow> ring_slot off c k = Some q \<Longrightarrow>
      m \<le> k \<and> pack_Ns q = c_Nr c + of_nat (k - m)"
    using assms(1) by (auto simp: rcv_mid_def)
  show "pack_Ns p = c_Nr c" using slots [OF assms(2,3)] by simp
  have "Suc m \<le> k \<and> pack_Ns q = c_Nr c + 1 + of_nat (k - Suc m)"
    if "k < recv_queue_sz c" "ring_slot off c' k = Some q" for k q
  proof -
    have "ring_slot off c' k = (if k = m then None else ring_slot off c k)"
      using ring_slot_update [OF ok assms(2) that(1), of None] by (simp add: assms(4) ring_slot_def)
    with that slots [OF that(1), of q] have "k \<noteq> m" "m \<le> k" "pack_Ns q = c_Nr c + of_nat (k - m)"
      by (auto split: if_splits)
    moreover from this have "of_nat (k - m) = (1 + of_nat (k - Suc m) :: u16)"
      using of_nat_Suc [of "k - Suc m", where 'a = u16] by (simp add: Suc_diff_Suc)
    ultimately show ?thesis by simp
  qed
  with assms(1,2,4) show "rcv_mid off (Suc m) c'"
    by (simp add: rcv_mid_def ring_ok_def)
qed

context l2tp_handler
begin

lemma process_step:
  "tunnel_state (c_state c) \<Longrightarrow> c_state c \<noteq> STATE_CLOSE \<Longrightarrow> conn_step (sane_msg p) True c (process_msg deliver p c)"
  using deliver_step by (simp add: process_msg_def conn_live_def)

lemma reply_loop_spec:
  assumes "rcv_mid off m c" "m < recv_queue_sz c" "c_state c \<noteq> STATE_CLOSE" "tunnel_state (c_state c)"
  shows "\<exists>ds c'. reply_loop deliver ((off + m) mod recv_queue_sz c) m c = Some (m + length ds, c') \<and>
    c_dequeued c' = c_dequeued c @ ds \<and> c_Nr c' = c_Nr c + of_nat (length ds) \<and>
    (\<forall>j < length ds. pack_Ns (ds ! j) = c_Nr c + of_nat j) \<and> tunnel_state (c_state c') \<and>
    state_rank (c_state c) \<le> state_rank (c_state c') \<and>
    (c_state c' = STATE_CLOSE \<or>
     rcv_mid off (m + length ds) c' \<and> ring_slot off c' (m + length ds) = None \<and>
     recv_queue_sz c' = recv_queue_sz c \<and> (snd_inv 0 c \<and> ring_sane c \<longrightarrow> snd_inv 0 c' \<and> ring_sane c'))"
  using assms
proof (induction "recv_queue_sz c - m" arbitrary: m c rule: less_induct)
  case less
  let ?i = "(off + m) mod recv_queue_sz c"
  show ?case
  proof (cases "recv_queue c ! ?i")
    case None
    then have "reply_loop deliver ?i m c = Some (m, c)" by (simp add: reply_loop.simps)
    with None less.prems show ?thesis
      by (intro exI [of _ "[]"] exI [of _ c]) (simp add: ring_slot_def)
  next
    case (Some p)
    define c1 where "c1 = c\<lparr>recv_queue := (recv_queue c)[?i := None], c_Nr := c_Nr c + 1,
        c_dequeued := c_dequeued c @ [p]\<rparr>"
    define c2 where "c2 = process_msg deliver p c1"
    have slot: "ring_slot off c m = Some p" using Some by (simp add: ring_slot_def)
    note c1 = rcv_mid_take [OF less.prems(1,2) slot c1_def]
    have i_ok: "?i < length (recv_queue c)"
      using less.prems(1) by (simp add: rcv_mid_def ring_ok_def)
    have p: "ring_sane c \<Longrightarrow> sane_msg p"
      using Some nth_mem [OF i_ok] by (simp add: ring_sane_def)
    have "set (recv_queue c1) \<subseteq> insert None (set (recv_queue c))"
      by (simp add: c1_def set_update_subset_insert)
    then have rs1: "ring_sane c \<Longrightarrow> ring_sane c1" unfolding ring_sane_def by blast
    have snd1: "snd_inv 0 c \<Longrightarrow> snd_inv 0 c1" by (simp add: c1_def snd_inv_def)
    have st: "conn_step (sane_msg p) True c1 c2"
      unfolding c2_def using less.prems(3,4) by (intro process_step) (simp_all add: c1_def)
    have c2: "c_Nr c2 = c_Nr c + 1" "c_dequeued c2 = c_dequeued c @ [p]"
      "tunnel_state (c_state c2)" "state_rank (c_state c) \<le> state_rank (c_state c2)"
      using st less.prems(4) by (simp_all add: conn_step_def c1_def)
    have step: "reply_loop deliver ?i m c = (if (?i + 1) mod recv_queue_sz c \<noteq> recv_queue_offt c2
        then reply_loop deliver ((?i + 1) mod recv_queue_sz c) (m + 1) c2 else Some (m + 1, c2))"
      using Some less.prems(3) by (subst reply_loop.simps) (simp add: Let_def flip: c1_def c2_def)
    have i': "(?i + 1) mod recv_queue_sz c = (off + Suc m) mod recv_queue_sz c" by (simp add: mod_simps)
    show ?thesis
    proof (cases "c_state c2 = STATE_CLOSE")
      case True
      then have "reply_loop deliver x n c2 = Some (n, c2)" for x n
        by (subst reply_loop.simps) (simp split: option.split)
      then have "reply_loop deliver ?i m c = Some (m + 1, c2)" using step by simp
      with True c1(2) c2 show ?thesis by (intro exI [of _ "[p]"] exI [of _ c2]) simp
    next
      case False
      then have k: "recv_queue c2 = recv_queue c1" "recv_queue_sz c2 = recv_queue_sz c1"
        "recv_queue_offt c2 = recv_queue_offt c1" "sane_msg p \<Longrightarrow> snd_inv 0 c1 \<Longrightarrow> snd_inv 0 c2"
        using st by (simp_all add: conn_step_def)
      have mid2: "rcv_mid off (Suc m) c2"
        using c1(1) rcv_mid_cong [of c2 c1 off "Suc m"] k(1-3) c2(1) by (simp add: c1_def)
      have sz: "recv_queue_sz c2 = recv_queue_sz c" "recv_queue_offt c2 = off"
        using k less.prems(1) by (simp_all add: c1_def rcv_mid_def)
      have snd2: "snd_inv 0 c2 \<and> ring_sane c2" if "snd_inv 0 c \<and> ring_sane c"
        using that k(1,4) snd1 rs1 p by (simp add: ring_sane_def)
      show ?thesis
      proof (cases "Suc m = recv_queue_sz c")
        case True
        then have "(off + Suc m) mod recv_queue_sz c = off" using mid2 sz by (simp add: rcv_mid_def ring_ok_def)
        then have "reply_loop deliver ?i m c = Some (m + 1, c2)" using step i' sz by simp
        moreover have "\<not> ring_slot off c2 0 = Some q" for q
          using mid2 less.prems(2) sz unfolding rcv_mid_def by fastforce
        then have "ring_slot off c2 0 = None" by (metis option.exhaust)
        then have "ring_slot off c2 (Suc m) = None"
          using True sz by (simp add: ring_slot_def)
        ultimately show ?thesis
          using mid2 sz c1(2) c2 snd2 by (intro exI [of _ "[p]"] exI [of _ c2]) simp
      next
        case False
        with less.prems(2) have m: "Suc m < recv_queue_sz c2" using sz by simp
        have "(off + Suc m) mod recv_queue_sz c \<noteq> off"
          using ring_inj [of off "recv_queue_sz c" "Suc m" 0] m sz mid2 by (simp add: rcv_mid_def ring_ok_def)
        then have more: "reply_loop deliver ?i m c = reply_loop deliver ((off + Suc m) mod recv_queue_sz c2) (Suc m) c2"
          using step i' sz by simp
        have "recv_queue_sz c2 - Suc m < recv_queue_sz c - m" using m sz by simp
        from less.hyps [OF this mid2 m \<open>c_state c2 \<noteq> STATE_CLOSE\<close> c2(3)]
        obtain ds c' where r: "reply_loop deliver ?i m c = Some (Suc m + length ds, c')"
          "c_dequeued c' = c_dequeued c2 @ ds" "c_Nr c' = c_Nr c2 + of_nat (length ds)"
          "\<forall>j < length ds. pack_Ns (ds ! j) = c_Nr c2 + of_nat j" "tunnel_state (c_state c')"
          "state_rank (c_state c2) \<le> state_rank (c_state c')"
          "c_state c' = STATE_CLOSE \<or> rcv_mid off (Suc m + length ds) c' \<and> ring_slot off c' (Suc m + length ds) = None \<and>
            recv_queue_sz c' = recv_queue_sz c2 \<and> (snd_inv 0 c2 \<and> ring_sane c2 \<longrightarrow> snd_inv 0 c' \<and> ring_sane c')"
          unfolding more [symmetric] by blast
        have "pack_Ns ((p # ds) ! j) = c_Nr c + of_nat j" if "j < Suc (length ds)" for j
          using that r(4) c1(2) c2(1) by (cases j) simp_all
        with r c2 sz snd2 show ?thesis
          by (intro exI [of _ "p # ds"] exI [of _ c']) auto
      qed
    qed
  qed
qed

end

section \<open>Reading\<close>

text \<open>The part of the tunnel that sending leaves alone.\<close>

definition rcv_part :: "l2tp_conn_t \<Rightarrow> l2tp_packet_t option list \<times> nat \<times> nat \<times> u16 \<times> l2tp_packet_t list \<times> l2tp_state" where
  "rcv_part c = (recv_queue c, recv_queue_sz c, recv_queue_offt c, c_Nr c, c_dequeued c, c_state c)"

lemma push_loop_rcv_part: "push_loop io Nr_max c n = (r, c') \<Longrightarrow> rcv_part c' = rcv_part c"
proof (induction io Nr_max c n arbitrary: r c' rule: push_loop.induct)
  case (1 io Nr_max c n)
  show ?case
  proof (cases "send_queue c = [] \<or> 0 \<le> nsnr_cmp (c_Ns c) Nr_max")
    case True
    with "1.prems" show ?thesis by (auto simp: push_loop.simps [of io Nr_max c n] split: list.splits)
  next
    case False
    then obtain own p ps where q: "send_queue c = (own, p) # ps" "\<not> 0 \<le> nsnr_cmp (c_Ns c) Nr_max"
      by (cases "send_queue c") auto
    obtain ok p' c1 where x: "tunnel_xmit io c (set_Ns (c_Ns c) p) = (ok, p', c1)" by (metis prod_cases3)
    have "rcv_part c1 = rcv_part c" using x by (auto simp: tunnel_xmit_def Let_def rcv_part_def split: if_splits)
    with "1.prems" "1.IH" [OF q(1) refl q(2) x [symmetric] refl refl] q x show ?thesis
      by (cases ok) (auto simp: push_loop.simps [of io Nr_max c n] rcv_part_def)
  qed
qed

lemma push_sendqueue_rcv_part: "rcv_part (snd (l2tp_tunnel_push_sendqueue io c)) = rcv_part c"
  using push_loop_rcv_part
  by (fastforce simp: l2tp_tunnel_push_sendqueue_def Let_def rcv_part_def split: prod.splits option.splits)

lemma send_ZLB_fields:
  "rcv_part (snd (l2tp_send_ZLB io c)) = rcv_part c" "snd_inv k (snd (l2tp_send_ZLB io c)) = snd_inv k c"
  by (simp_all add: l2tp_send_ZLB_def tunnel_xmit_eq Let_def rcv_part_def snd_inv_def split: option.split)

lemma rcv_inv_part: "rcv_part c' = rcv_part c \<Longrightarrow> rcv_inv c' = rcv_inv c"
  by (simp add: rcv_part_def rcv_inv_def ring_ok_def ring_slot_def)

lemma push_sendqueue_snd_inv:
  assumes "snd_inv 0 c"
  shows "snd_inv 0 (snd (l2tp_tunnel_push_sendqueue io c))"
proof -
  obtain r c1 where r: "push_loop io (c_peer_Nr c + peer_rcv_wnd_sz c) c 0 = (r, c1)" by fastforce
  from push_loop_spec [OF assms refl r] r show ?thesis
    by (simp add: push_sendqueue_fields push_post_def)
qed

lemma rcv_mid_advance:
  assumes "rcv_mid off m c" "ring_slot off c m = None"
  defines "c' \<equiv> c\<lparr>recv_queue_offt := (off + m) mod recv_queue_sz c\<rparr>"
  shows "rcv_inv c'" "ring_slot (recv_queue_offt c') c' 0 = None"
proof -
  have ok: "ring_ok off c" "m \<le> recv_queue_sz c" and slots: "\<And>k q. k < recv_queue_sz c \<Longrightarrow>
      ring_slot off c k = Some q \<Longrightarrow> m \<le> k \<and> pack_Ns q = c_Nr c + of_nat (k - m)"
    using assms(1) by (auto simp: rcv_mid_def)
  have empty: "ring_slot off c j = None" if "j < m" for j
    using slots [of j] that ok(2) by (cases "ring_slot off c j") auto
  have adv: "ring_slot (recv_queue_offt c') c' k = (if m + k < recv_queue_sz c then ring_slot off c (m + k) else None)"
    if "k < recv_queue_sz c" for k
    using ring_slot_advance [OF ok that empty] by (simp add: c'_def ring_slot_def)
  have ok': "ring_ok (recv_queue_offt c') c'"
    using ok(1) by (simp add: c'_def ring_ok_def)
  have "pack_Ns q = c_Nr c' + of_nat k" if "k < recv_queue_sz c'" "ring_slot (recv_queue_offt c') c' k = Some q" for k q
    using that adv [of k] slots [of "m + k" q] by (simp add: c'_def split: if_splits)
  with ok' show "rcv_inv c'" by (simp add: rcv_inv_def)
  show "ring_slot (recv_queue_offt c') c' 0 = None"
    using adv [of 0] assms(2) ok by (simp add: ring_ok_def)
qed

text \<open>
  What a run of the reply loop or of the read handler does to the receiving side: the messages taken out
  of the ring carry the expected sequence numbers, one after the other, and the state advances.
\<close>

definition delivers :: "l2tp_conn_t \<Rightarrow> l2tp_conn_t \<Rightarrow> bool" where
  "delivers c c' \<longleftrightarrow> state_rank (c_state c) \<le> state_rank (c_state c') \<and>
     (\<exists>ds. c_dequeued c' = c_dequeued c @ ds \<and> c_Nr c' = c_Nr c + of_nat (length ds) \<and>
       (\<forall>j < length ds. pack_Ns (ds ! j) = c_Nr c + of_nat j))"

lemma delivers_refl:
  "c_dequeued c' = c_dequeued c \<Longrightarrow> c_Nr c' = c_Nr c \<Longrightarrow> state_rank (c_state c) \<le> state_rank (c_state c') \<Longrightarrow>
   delivers c c'"
  by (simp add: delivers_def)

lemma delivers_part: "rcv_part c' = rcv_part c \<Longrightarrow> delivers c c'"
  by (rule delivers_refl) (simp_all add: rcv_part_def)

lemma conn_step_delivers: "conn_step sane est c c' \<Longrightarrow> delivers c c'"
  by (auto simp: conn_step_def intro: delivers_refl)

lemma delivers_trans:
  assumes "delivers a b" "delivers b c"
  shows "delivers a c"
proof -
  from assms obtain ds es where d: "c_dequeued b = c_dequeued a @ ds" "c_Nr b = c_Nr a + of_nat (length ds)"
    "\<forall>j < length ds. pack_Ns (ds ! j) = c_Nr a + of_nat j"
    "c_dequeued c = c_dequeued b @ es" "c_Nr c = c_Nr b + of_nat (length es)"
    "\<forall>j < length es. pack_Ns (es ! j) = c_Nr b + of_nat j"
    unfolding delivers_def by blast
  have "pack_Ns ((ds @ es) ! j) = c_Nr a + of_nat j" if "j < length (ds @ es)" for j
  proof (cases "j < length ds")
    case False
    then have "(of_nat j :: u16) = of_nat (length ds) + of_nat (j - length ds)"
      by (metis le_add_diff_inverse not_less of_nat_add)
    with False that d show ?thesis by (simp add: nth_append)
  qed (use d in \<open>simp add: nth_append\<close>)
  moreover have "state_rank (c_state a) \<le> state_rank (c_state c)"
    using assms unfolding delivers_def by linarith
  ultimately show ?thesis using d unfolding delivers_def by (intro conjI exI [of _ "ds @ es"]) simp_all
qed

text \<open>The part that the sender's invariant looks at.\<close>

definition snd_part :: "l2tp_conn_t \<Rightarrow> u16 \<times> u16 \<times> u16 \<times> l2tp_packet_t list" where
  "snd_part c = (c_peer_Nr c, c_Ns c, peer_rcv_wnd_sz c, rtms_queue c)"

lemma snd_inv_part: "snd_part c' = snd_part c \<Longrightarrow> snd_inv k c' = snd_inv k c"
  by (simp add: snd_part_def snd_inv_def)

lemma conn_step_part: "rcv_part c' = rcv_part c \<Longrightarrow> snd_part c' = snd_part c \<Longrightarrow> conn_step sane est c c'"
  using snd_inv_part [of c' c 0] by (simp add: conn_step_def rcv_part_def)

lemma sess_release_part: "rcv_part (sess_release s c) = rcv_part c" "snd_part (sess_release s c) = snd_part c"
  by (simp_all add: sess_release_def rcv_part_def snd_part_def Let_def)

lemma free_sessions_part:
  "rcv_part (l2tp_tunnel_free_sessions c) = rcv_part c" "snd_part (l2tp_tunnel_free_sessions c) = snd_part c"
proof -
  have "rcv_part (fold sess_release ss c) = rcv_part c \<and> snd_part (fold sess_release ss c) = snd_part c" for ss c
    by (induction ss arbitrary: c) (simp_all add: sess_release_part)
  then show "rcv_part (l2tp_tunnel_free_sessions c) = rcv_part c"
    "snd_part (l2tp_tunnel_free_sessions c) = snd_part c"
    by (simp_all add: l2tp_tunnel_free_sessions_def rcv_part_def snd_part_def)
qed

lemma tunnel_free_fields:
  "c_dequeued (l2tp_tunnel_free c) = c_dequeued c" "c_Nr (l2tp_tunnel_free c) = c_Nr c"
  "tunnel_state (c_state c) \<Longrightarrow> c_state (l2tp_tunnel_free c) = STATE_CLOSE"
  "state_rank (c_state c) \<le> state_rank (c_state (l2tp_tunnel_free c))"
proof -
  define d where "d = l2tp_tunnel_clear_recvqueue (l2tp_tunnel_clear_sendqueue
      ((conn_finishing c)\<lparr>c_state := STATE_CLOSE, c_registered := False, timeout_tpd := False,
         rtimeout_tpd := False, hello_tpd := False, rtms_queue := []\<rparr>))"
  have d: "c_dequeued d = c_dequeued c" "c_Nr d = c_Nr c" "c_state d = STATE_CLOSE"
    by (simp_all add: d_def l2tp_tunnel_clear_recvqueue_def l2tp_tunnel_clear_sendqueue_def conn_finishing_def)
  have fd: "c_dequeued (l2tp_tunnel_free_sessions d) = c_dequeued c" "c_Nr (l2tp_tunnel_free_sessions d) = c_Nr c"
    "c_state (l2tp_tunnel_free_sessions d) = STATE_CLOSE"
    using free_sessions_part(1) [of d] d by (simp_all add: rcv_part_def)
  have eq: "l2tp_tunnel_free c = (if c_state c \<in> {STATE_INIT, STATE_WAIT_SCCRP, STATE_WAIT_SCCCN, STATE_ESTB,
      STATE_FIN, STATE_FIN_WAIT} then l2tp_tunnel_free_sessions d else c)"
    by (simp add: l2tp_tunnel_free_def d_def)
  show "c_dequeued (l2tp_tunnel_free c) = c_dequeued c" "c_Nr (l2tp_tunnel_free c) = c_Nr c"
    using fd by (simp_all add: eq)
  show "tunnel_state (c_state c) \<Longrightarrow> c_state (l2tp_tunnel_free c) = STATE_CLOSE"
    using fd by (cases "c_state c") (simp_all add: eq tunnel_state_def)
  show "state_rank (c_state c) \<le> state_rank (c_state (l2tp_tunnel_free c))"
    using fd by (cases "c_state c") (simp_all add: eq)
qed

lemma conn_step_free: "tunnel_state (c_state c) \<Longrightarrow> conn_step sane est c (l2tp_tunnel_free c)"
  using tunnel_free_fields [of c] by (simp add: conn_step_def tunnel_state_def)

lemma delivers_free: "delivers c c' \<Longrightarrow> delivers c (l2tp_tunnel_free c')"
  using tunnel_free_fields(4) [of c'] by (auto simp: delivers_def tunnel_free_fields(1,2))

lemma clean_rtmsqueue_rcv_part: "rcv_part (snd (l2tp_tunnel_clean_rtmsqueue io c)) = rcv_part c"
  by (simp add: l2tp_tunnel_clean_rtmsqueue_def Let_def rcv_part_def)

lemma ring_sane_part: "rcv_part c' = rcv_part c \<Longrightarrow> ring_sane c' = ring_sane c"
  by (simp add: rcv_part_def ring_sane_def)

text \<open>
  A peer that never acknowledges exactly 32768 messages more than were sent, and never announces a window
  of 32768.
\<close>

definition peer_sane :: "l2tp_conn_t \<Rightarrow> rx_item list \<Rightarrow> bool" where
  "peer_sane c rs \<longleftrightarrow>
     (\<forall>r \<in> set rs. case r of Rx_msg p \<Rightarrow> pack_Nr p \<noteq> c_Ns c + 32768 \<and> sane_msg p | _ \<Rightarrow> True)"

lemma store_msg_ring_sane:
  assumes "ring_sane c" "sane_msg p" "l2tp_tunnel_store_msg p a c = (s, a', c')"
  shows "ring_sane c'"
proof -
  have "set (recv_queue c') \<subseteq> insert (Some p) (set (recv_queue c))"
    using assms(3)
    by (auto simp: l2tp_tunnel_store_msg_def Let_def dest!: subsetD [OF set_update_subset_insert] split: if_splits)
  with assms(1,2) show ?thesis unfolding ring_sane_def by blast
qed

lemma read_loop_ring_sane:
  "ring_sane c \<Longrightarrow> \<forall>p. Rx_msg p \<in> set rs \<longrightarrow> sane_msg p \<Longrightarrow> read_loop io rs a c = (d, a', c') \<Longrightarrow> ring_sane c'"
proof (induction io rs a c arbitrary: d a' c' rule: read_loop.induct)
  case (4 io p rs a c)
  define c1 where "c1 = (if c_port_set c then c
      else c\<lparr>c_peer_addr := (fst (c_peer_addr c), snd (pk_addr p)), c_port_set := True\<rparr>)"
  have c1: "ring_sane c1" using "4.prems"(1) by (simp add: c1_def ring_sane_def)
  obtain s b c2 where st: "l2tp_tunnel_store_msg p a c1 = (s, b, c2)" by (metis prod_cases3)
  have c2: "ring_sane c2" using store_msg_ring_sane [OF c1 _ st] "4.prems"(2) by simp
  from "4.prems" c1 c2 st show ?case
    using "4.IH"(1) [OF _ c1_def _ c1] "4.IH"(2) [OF _ c1_def _ st [symmetric] refl refl c2]
    by (auto simp: Let_def simp flip: c1_def split: if_splits)
qed auto

text \<open>The tunnel after a handler ran: closed, or in order with the next expected message not in the ring.\<close>

definition settled :: "bool \<Rightarrow> l2tp_conn_t \<Rightarrow> bool" where
  "settled snd_ok c \<longleftrightarrow> tunnel_state (c_state c) \<and>
     (c_state c = STATE_CLOSE \<or>
      rcv_inv c \<and> ring_slot (recv_queue_offt c) c 0 = None \<and> (snd_ok \<longrightarrow> snd_inv 0 c \<and> ring_sane c))"

context l2tp_handler
begin

lemma reply_spec:
  assumes "rcv_inv c" "c_state c \<noteq> STATE_CLOSE" "tunnel_state (c_state c)"
  shows "\<exists>res c'. l2tp_tunnel_reply io deliver a c = Some (res, c') \<and> delivers c c' \<and>
    settled (snd_inv 0 c \<and> ring_sane c) c'"
proof -
  let ?ok = "snd_inv 0 c \<and> ring_sane c"
  have sz: "0 < recv_queue_sz c" "recv_queue_offt c < recv_queue_sz c"
    using assms(1) by (simp_all add: rcv_inv_def ring_ok_def)
  from reply_loop_spec [OF _ sz(1) assms(2,3), of "recv_queue_offt c"] assms(1) sz(2)
  obtain n c1 where loop: "reply_loop deliver (recv_queue_offt c) 0 c = Some (n, c1)"
    and dl: "delivers c c1" and ts: "tunnel_state (c_state c1)"
    and post: "c_state c1 = STATE_CLOSE \<or> rcv_mid (recv_queue_offt c) n c1 \<and>
        ring_slot (recv_queue_offt c) c1 n = None \<and> (?ok \<longrightarrow> snd_inv 0 c1 \<and> ring_sane c1)"
    by (auto simp: rcv_inv_mid delivers_def)
  define c2 where "c2 = c1\<lparr>recv_queue_offt := (recv_queue_offt c1 + n) mod recv_queue_sz c1\<rparr>"
  have st2: "settled ?ok c2"
  proof (cases "c_state c1 = STATE_CLOSE")
    case False
    with post have mid: "rcv_mid (recv_queue_offt c) n c1" "ring_slot (recv_queue_offt c) c1 n = None"
      "?ok \<longrightarrow> snd_inv 0 c1 \<and> ring_sane c1" by simp_all
    from mid(1) have "recv_queue_offt c1 = recv_queue_offt c" by (simp add: rcv_mid_def)
    with rcv_mid_advance [OF mid(1,2)] mid(3) ts show ?thesis
      by (simp add: settled_def c2_def snd_inv_def ring_sane_def)
  qed (use ts in \<open>simp add: settled_def c2_def\<close>)
  obtain res c3 where push: "l2tp_tunnel_push_sendqueue io c2 = (res, c3)" by fastforce
  define c4 where "c4 = (if res = 0 \<and> a then snd (l2tp_send_ZLB io c3) else c3)"
  have part: "rcv_part c4 = rcv_part c2"
    using push_sendqueue_rcv_part [of io c2] send_ZLB_fields(1) [of io c3] push by (simp add: c4_def)
  have "snd_inv 0 c2 \<Longrightarrow> snd_inv 0 c4"
    using push_sendqueue_snd_inv [of c2 io] send_ZLB_fields(2) [of 0 io c3] push by (simp add: c4_def)
  with st2 part rcv_inv_part [OF part] ring_sane_part [OF part] have "settled ?ok c4"
    by (auto simp: settled_def rcv_part_def ring_slot_def)
  moreover have "delivers c c4"
    using delivers_trans [OF dl delivers_refl] part by (simp add: rcv_part_def c2_def)
  moreover have "\<exists>res'. l2tp_tunnel_reply io deliver a c = Some (res', c4)"
    using loop push
    by (intro exI [of _ "if res = 0 \<and> a then fst (l2tp_send_ZLB io c3) else res"])
      (simp add: l2tp_tunnel_reply_def Let_def c4_def flip: c2_def)
  ultimately show ?thesis by blast
qed

lemma conn_read_spec:
  assumes "rcv_inv c" "c_state c \<noteq> STATE_CLOSE" "tunnel_state (c_state c)"
  shows "\<exists>res c'. l2tp_conn_read io deliver rs c = Some (res, c') \<and> delivers c c' \<and>
    settled (snd_inv 0 c \<and> ring_sane c \<and> peer_sane c rs) c'"
proof -
  let ?ok = "snd_inv 0 c \<and> ring_sane c \<and> peer_sane c rs"
  obtain d a c1 where rd: "read_loop io rs False c = (d, a, c1)" by (metis prod_cases3)
  note c1 = read_loop_rcv_inv [OF assms(1) rd]
  have snd1: "(\<exists>k. snd_inv k c1) \<and> ring_sane c1" if ?ok
  proof -
    have "\<forall>p. Rx_msg p \<in> set rs \<longrightarrow> pack_Nr p \<noteq> c_Ns c + 32768" "\<forall>p. Rx_msg p \<in> set rs \<longrightarrow> sane_msg p"
      using that by (force simp: peer_sane_def)+
    with that read_loop_snd_inv [OF _ _ rd] read_loop_ring_sane [OF _ _ rd] show ?thesis by blast
  qed
  obtain res c2 where cl: "l2tp_tunnel_clean_rtmsqueue io c1 = (res, c2)" by fastforce
  have part: "rcv_part c2 = rcv_part c1" using clean_rtmsqueue_rcv_part [of io c1] cl by simp
  have snd2: "snd_inv 0 c2 \<and> ring_sane c2" if ?ok
    using snd1 [OF that] clean_rtmsqueue_snd_inv(1) [of _ c1 io] cl ring_sane_part [OF part] by auto
  have c2: "rcv_inv c2" "c_state c2 = c_state c" "delivers c c2"
    using rcv_inv_part [OF part] part c1 by (auto simp: rcv_part_def intro: delivers_refl)
  have closed: "settled b (l2tp_tunnel_free x)" if "tunnel_state (c_state x)" for b x
    using that by (simp add: settled_def tunnel_free_fields tunnel_state_def)
  consider "\<not> d" | "d" "res < 0" | "d" "\<not> res < 0" by blast
  then show ?thesis
  proof cases
    case 1
    with rd closed [of c1] c1 assms(3) delivers_free [OF delivers_refl, of c1 c] show ?thesis
      by (simp add: l2tp_conn_read_def)
  next
    case 2
    with rd cl closed [of c2] c2 assms(3) delivers_free [OF c2(3)] show ?thesis
      by (simp add: l2tp_conn_read_def)
  next
    case 3
    from reply_spec [OF c2(1), of io a] c2(2) assms(2,3) obtain r c3 where
      c3: "l2tp_tunnel_reply io deliver a c2 = Some (r, c3)" "delivers c2 c3"
        "settled (snd_inv 0 c2 \<and> ring_sane c2) c3" by auto
    then have ts: "tunnel_state (c_state c3)" by (simp add: settled_def)
    have "settled ?ok c3" using c3(3) snd2 by (auto simp: settled_def)
    moreover have "delivers c c3" using delivers_trans [OF c2(3) c3(2)] .
    ultimately show ?thesis
      using rd cl 3 c3(1) closed [OF ts] delivers_free [of c c3] by (simp add: l2tp_conn_read_def)
  qed
qed

end

section \<open>Runs of a tunnel\<close>

text \<open>
  The events that reach a tunnel: its own code does something that \<open>conn_step\<close> allows (a message is queued
  or sent, a session freed, a timer of its own expires), datagrams arrive, the retransmission timer
  expires. \<open>sane\<close> restricts the runs to peers with \<open>peer_sane\<close>. A closed tunnel is unregistered from
  the event loop and takes no step.
\<close>

inductive l2tp_step ::
    "(l2tp_conn_t \<Rightarrow> l2tp_conn_t \<Rightarrow> bool) \<Rightarrow> bool \<Rightarrow> (l2tp_io \<Rightarrow> handler) \<Rightarrow> l2tp_conn_t \<Rightarrow> l2tp_conn_t \<Rightarrow> bool"
  for own :: "l2tp_conn_t \<Rightarrow> l2tp_conn_t \<Rightarrow> bool" and sane :: bool and deliver :: "l2tp_io \<Rightarrow> handler" where
  own: "c_state c \<noteq> STATE_CLOSE \<Longrightarrow> own c c' \<Longrightarrow> l2tp_step own sane deliver c c'"
| read: "c_state c \<noteq> STATE_CLOSE \<Longrightarrow> (sane \<Longrightarrow> peer_sane c rs) \<Longrightarrow>
    l2tp_conn_read io (deliver io) rs c = Some (res, c') \<Longrightarrow> l2tp_step own sane deliver c c'"
| timer: "c_state c \<noteq> STATE_CLOSE \<Longrightarrow> l2tp_step own sane deliver c (l2tp_rtimeout io c)"

definition l2tp_inv :: "bool \<Rightarrow> l2tp_conn_t \<Rightarrow> bool" where
  "l2tp_inv sane c \<longleftrightarrow> tunnel_state (c_state c) \<and>
     (c_state c = STATE_CLOSE \<or> rcv_inv c \<and> (sane \<longrightarrow> snd_inv 0 c \<and> ring_sane c))"

lemma conn_step_inv:
  assumes "conn_step True True c c'" "l2tp_inv sane c"
  shows "l2tp_inv sane c'"
proof (cases "c_state c' = STATE_CLOSE")
  case True
  with assms show ?thesis by (auto simp: l2tp_inv_def conn_step_def)
next
  case False
  moreover from this assms(1) have "c_state c \<noteq> STATE_CLOSE"
    using state_rank_CLOSE [of "c_state c"] state_rank_CLOSE [of "c_state c'"] by (auto simp: conn_step_def)
  ultimately show ?thesis
    using assms by (auto simp: l2tp_inv_def conn_step_def rcv_inv_def ring_ok_def ring_slot_def ring_sane_def)
qed

lemma rtimeout_step:
  assumes "tunnel_state (c_state c)"
  shows "conn_step sane est c (l2tp_rtimeout io c)"
proof (cases "rtms_queue c")
  case Nil
  then show ?thesis by (simp add: l2tp_rtimeout_def)
next
  case (Cons p ps)
  have Ns: "pack_Ns (set_Nr r p) = pack_Ns p" for r p by (simp add: set_Nr_def)
  have keep: "conn_step sane est c d"
    if "rcv_part d = rcv_part c" "snd_part d = snd_part (c\<lparr>rtms_queue := set_Nr r p # ps\<rparr>)" for d r
  proof -
    have "snd_inv 0 c \<Longrightarrow> snd_inv 0 (c\<lparr>rtms_queue := set_Nr r p # ps\<rparr>)"
      using Cons Ns by (auto simp: snd_inv_def Let_def nth_Cons split: nat.splits)
    with that snd_inv_part [OF that(2)] show ?thesis by (simp add: conn_step_def rcv_part_def)
  qed
  have drop: "conn_step sane est c (l2tp_tunnel_free d)"
    if "c_dequeued d = c_dequeued c" "c_Nr d = c_Nr c" "c_state d = c_state c" for d
    using that tunnel_free_fields [of d] assms by (simp add: conn_step_def tunnel_state_def)
  show ?thesis
    unfolding l2tp_rtimeout_def Cons list.case Let_def tunnel_xmit_eq prod.case
    by (simp add: drop keep [of _ "c_Nr c"] rcv_part_def snd_part_def)
qed

lemma l2tp_step_inv:
  assumes "\<And>io. l2tp_handler (deliver io)" "\<And>c c'. tunnel_state (c_state c) \<Longrightarrow> own c c' \<Longrightarrow> conn_step True True c c'"
    and "l2tp_step own sane deliver c c'" "l2tp_inv sane c"
  shows "l2tp_inv sane c' \<and> delivers c c'"
  using assms(3)
proof cases
  case own
  with assms(2) [of c c'] assms(4) show ?thesis
    using conn_step_inv conn_step_delivers by (auto simp: l2tp_inv_def)
next
  case (read rs io res)
  with assms(4) have "rcv_inv c" "tunnel_state (c_state c)" by (auto simp: l2tp_inv_def)
  from l2tp_handler.conn_read_spec [OF assms(1) this(1) read(1) this(2), of io io rs] read(3)
  have "delivers c c'" "settled (snd_inv 0 c \<and> ring_sane c \<and> peer_sane c rs) c'" by auto
  with read(1,2) assms(4) show ?thesis by (auto simp: l2tp_inv_def settled_def)
next
  case (timer io)
  with assms(4) have "conn_step True True c c'" by (auto simp: l2tp_inv_def intro: rtimeout_step)
  with assms(4) show ?thesis by (blast intro: conn_step_inv conn_step_delivers)
qed

lemma l2tp_run_inv:
  assumes "\<And>io. l2tp_handler (deliver io)" "\<And>c c'. tunnel_state (c_state c) \<Longrightarrow> own c c' \<Longrightarrow> conn_step True True c c'"
    and "(l2tp_step own sane deliver)\<^sup>*\<^sup>* c c'" "l2tp_inv sane c"
  shows "l2tp_inv sane c' \<and> delivers c c'"
  using assms(3,4)
proof (induction rule: rtranclp_induct)
  case base
  then show ?case by (simp add: delivers_refl)
next
  case (step b c')
  then have b: "l2tp_inv sane b" "delivers c b" by simp_all
  from l2tp_step_inv [OF assms(1,2) step.hyps(2) b(1)] b(2) show ?case
    by (blast intro: delivers_trans)
qed

section \<open>Retransmission\<close>

text \<open>
  As long as no acknowledgement arrives, the timer resends the oldest message, waiting twice as long every
  time up to the cap, and gives up after \<open>max_retransmit\<close> attempts.
\<close>

definition backoff :: "int \<Rightarrow> int \<Rightarrow> nat \<Rightarrow> int" where
  "backoff r cap i = min (2 ^ i * r) cap"

lemma next_rtimeout_backoff:
  assumes "0 \<le> r" "r \<le> cap" "cap < 2 ^ 30"
  shows "next_rtimeout cap (backoff r cap i) = backoff r cap (Suc i)"
proof -
  have "0 \<le> backoff r cap i" "backoff r cap i < 2 ^ 30" using assms by (simp_all add: backoff_def min_def)
  then have *: "int32 (2 * backoff r cap i) = 2 * backoff r cap i" by (intro int32_id) simp_all
  from assms show ?thesis by (simp only: next_rtimeout_def *) (auto simp: backoff_def min_def)
qed

lemma next_rtimeout_iterate:
  assumes "0 \<le> r" "r \<le> cap" "cap < 2 ^ 30"
  shows "(next_rtimeout cap ^^ i) r = backoff r cap i"
proof (induction i)
  case 0
  with assms(2) show ?case by (simp add: backoff_def)
next
  case (Suc i)
  with next_rtimeout_backoff [OF assms] show ?case by simp
qed

lemma rtimeout_run:
  assumes "rtms_queue c = p # ps" "c_retransmit c = 0" "rtimeout_period c = r"
    and "\<And>d. xmit_ok io d (set_Nr (c_Nr c) p)" "\<And>d. io_timer_ok io d"
    and "i \<le> nat (c_max_retransmit c)"
  shows "(l2tp_rtimeout io ^^ i) c = c\<lparr>c_retransmit := int i,
      rtimeout_period := (next_rtimeout (c_rtimeout_cap c) ^^ i) r,
      rtms_queue := (if i = 0 then p else set_Nr (c_Nr c) p) # ps,
      c_wire := c_wire c @ replicate i (set_Nr (c_Nr c) p)\<rparr>"
  using assms(6)
proof (induction i)
  case 0
  have "c = c\<lparr>c_retransmit := 0, rtimeout_period := r, rtms_queue := p # ps\<rparr>"
    using assms(1-3) by (cases c) simp
  then show ?case by simp
next
  case (Suc i)
  then have le: "int i + 1 \<le> c_max_retransmit c" by simp
  have same: "set_Nr a (set_Nr b q) = set_Nr a q" for a b q by (simp add: set_Nr_def)
  from Suc le assms(4,5) show ?case
    by (simp add: l2tp_rtimeout_def tunnel_xmit_eq Let_def same replicate_append_same)
qed

lemma rtimeout_gives_up:
  assumes "rtms_queue c \<noteq> []" "c_max_retransmit c \<le> c_retransmit c" "tunnel_state (c_state c)"
  shows "c_state (l2tp_rtimeout io c) = STATE_CLOSE" "c_wire (l2tp_rtimeout io c) = c_wire c"
proof -
  obtain p ps where q: "rtms_queue c = p # ps" using assms(1) by (cases "rtms_queue c") auto
  show "c_state (l2tp_rtimeout io c) = STATE_CLOSE"
    using q assms(2,3) by (simp add: l2tp_rtimeout_def tunnel_free_fields)
  have "c_wire (sess_release s d) = c_wire d" for s d by (simp add: sess_release_def Let_def)
  then have "c_wire (fold sess_release ss d) = c_wire d" for ss d by (induction ss arbitrary: d) simp_all
  then show "c_wire (l2tp_rtimeout io c) = c_wire c"
    using q assms(2)
    by (simp add: l2tp_rtimeout_def l2tp_tunnel_free_def l2tp_tunnel_free_sessions_def conn_finishing_def
        l2tp_tunnel_clear_recvqueue_def l2tp_tunnel_clear_sendqueue_def)
qed

end
