(* ===== verification/L2tp_Tunnel.thy ===== *)
theory L2tp_Tunnel
  imports L2tp_Transport
begin

text \<open>
  The control connection and its calls in \<open>micro-bngd/ctrl/l2tp/l2tp.c\<close>: the messages the daemon sends, the
  handlers of the messages it receives, the timers, authentication of the tunnel, and the life of the
  sessions. Functions of the source that work on a session take its session id here, and the session is
  looked up in the tunnel; a session that has been freed is not in the tunnel any more. A function
  returns whether it succeeded where its caller looks at that. Reference counts, log messages, the
  statistics of the data channels and the data channel's own thread are left out; the calls posted to
  that thread are recorded in \<open>c_events\<close>.
\<close>

section \<open>Building messages\<close>

text \<open>Every attribute draws its own random bytes, so the draws are numbered by the position in the message.\<close>

definition pack_new :: "l2tp_io \<Rightarrow> l2tp_conn_t \<Rightarrow> bool \<Rightarrow> u16 \<Rightarrow> l2tp_packet_t option" where
  "pack_new io c H msg_type =
     l2tp_packet_alloc (io_env io) (io_rnd io c 0) 2 msg_type (c_peer_addr c) H (c_secret c)"

abbreviation pack_rnd :: "l2tp_io \<Rightarrow> l2tp_conn_t \<Rightarrow> l2tp_packet_t \<Rightarrow> l2tp_rand" where
  "pack_rnd io c p \<equiv> io_rnd io c (length (pk_attrs p))"

definition add16 :: "l2tp_io \<Rightarrow> l2tp_conn_t \<Rightarrow> int \<Rightarrow> u16 \<Rightarrow> bool \<Rightarrow> l2tp_packet_t \<Rightarrow> l2tp_packet_t option" where
  "add16 io c i w M p = l2tp_packet_add_int16 (io_env io) (pack_rnd io c p) p i w M"

definition add32 :: "l2tp_io \<Rightarrow> l2tp_conn_t \<Rightarrow> int \<Rightarrow> u32 \<Rightarrow> bool \<Rightarrow> l2tp_packet_t \<Rightarrow> l2tp_packet_t option" where
  "add32 io c i w M p = l2tp_packet_add_int32 (io_env io) (pack_rnd io c p) p i w M"

definition add_str :: "l2tp_io \<Rightarrow> l2tp_conn_t \<Rightarrow> int \<Rightarrow> bytes \<Rightarrow> bool \<Rightarrow> l2tp_packet_t \<Rightarrow> l2tp_packet_t option" where
  "add_str io c i v M p = l2tp_packet_add_string (io_env io) (pack_rnd io c p) p i v M"

definition add_oct :: "l2tp_io \<Rightarrow> l2tp_conn_t \<Rightarrow> int \<Rightarrow> bytes \<Rightarrow> bool \<Rightarrow> l2tp_packet_t \<Rightarrow> l2tp_packet_t option" where
  "add_oct io c i v M p = l2tp_packet_add_octets (io_env io) (pack_rnd io c p) p i v M"

section \<open>Authentication\<close>

definition comp_chap_md5 :: "(bytes \<Rightarrow> bytes) \<Rightarrow> u8 \<Rightarrow> bytes \<Rightarrow> bytes \<Rightarrow> bytes" where
  "comp_chap_md5 H ident secret chall = H ([ident] @ secret @ chall)"

definition l2tp_tunnel_genchall ::
    "l2tp_io \<Rightarrow> u16 \<Rightarrow> l2tp_conn_t \<Rightarrow> l2tp_packet_t \<Rightarrow> l2tp_packet_t option \<times> l2tp_conn_t" where
  "l2tp_tunnel_genchall io chall_len c p =
     (if chall_len = 0 \<or> c_secret c = [] then (Some p, c\<lparr>c_challenge := None\<rparr>)
      else
        (case io_chall io c of
           None \<Rightarrow> (None, c\<lparr>c_challenge := None\<rparr>)
         | Some f \<Rightarrow>
             (let challenge = map f [0..<unat chall_len]
              in case add_oct io c Challenge challenge True p of
                   None \<Rightarrow> (None, c\<lparr>c_challenge := None\<rparr>)
                 | Some p' \<Rightarrow> (Some p', c\<lparr>c_challenge := Some challenge\<rparr>))))"

text \<open>
  Storing the peer's challenge. A null pointer counts as a challenge of length 0; \<open>realloc\<close> to length 0
  returns a null pointer, which the function takes for a failed allocation.
\<close>

definition l2tp_tunnel_storechall :: "l2tp_conn_t \<Rightarrow> l2tp_attr_t option \<Rightarrow> bool \<times> l2tp_conn_t" where
  "l2tp_tunnel_storechall c chall =
     (case chall of
        None \<Rightarrow> (True, c\<lparr>c_challenge := None\<rparr>)
      | Some a \<Rightarrow>
          if c_secret c = [] then (False, c\<lparr>c_challenge := None\<rparr>)
          else
            (let challenge_len = (case c_challenge c of None \<Rightarrow> 0 | Some ch \<Rightarrow> length ch);
                 v = take (nat (la_length a)) (val_octets (la_val a))
             in if int challenge_len \<noteq> la_length a then
                  (if la_length a = 0 then (False, c\<lparr>c_challenge := None\<rparr>) else (True, c\<lparr>c_challenge := Some v\<rparr>))
                else (True, c\<lparr>c_challenge := map_option (\<lambda>_. v) (c_challenge c)\<rparr>)))"

definition l2tp_tunnel_genchallresp ::
    "l2tp_io \<Rightarrow> u8 \<Rightarrow> l2tp_conn_t \<Rightarrow> l2tp_packet_t \<Rightarrow> l2tp_packet_t option" where
  "l2tp_tunnel_genchallresp io msgident c p =
     (case c_challenge c of
        None \<Rightarrow> Some p
      | Some chall \<Rightarrow>
          if c_secret c = [] then None
          else add_oct io c Challenge_Response
                 (comp_chap_md5 (env_md5 (io_env io)) msgident (c_secret c) chall) True p)"

definition l2tp_tunnel_checkchallresp :: "l2tp_io \<Rightarrow> u8 \<Rightarrow> l2tp_conn_t \<Rightarrow> l2tp_attr_t option \<Rightarrow> bool" where
  "l2tp_tunnel_checkchallresp io msgident c challresp =
     (if c_secret c = [] then True
      else
        (case c_challenge c of
           None \<Rightarrow> False
         | Some chall \<Rightarrow>
             (case challresp of
                None \<Rightarrow> False
              | Some a \<Rightarrow>
                  if la_length a \<noteq> 16 then False
                  else take 16 (comp_chap_md5 (env_md5 (io_env io)) msgident (c_secret c) chall)
                    = take 16 (val_octets (la_val a)))))"

section \<open>Sending on behalf of a session\<close>

abbreviation get_sess :: "l2tp_conn_t \<Rightarrow> u16 \<Rightarrow> l2tp_sess_t option" where
  "get_sess c sid \<equiv> map_of (c_sessions c) sid"

definition upd_sess :: "u16 \<Rightarrow> (l2tp_sess_t \<Rightarrow> l2tp_sess_t) \<Rightarrow> l2tp_conn_t \<Rightarrow> l2tp_conn_t" where
  "upd_sess sid f c = c\<lparr>c_sessions := AList.map_entry sid f (c_sessions c)\<rparr>"

definition l2tp_session_clear_sendqueue :: "u16 \<Rightarrow> l2tp_conn_t \<Rightarrow> l2tp_conn_t" where
  "l2tp_session_clear_sendqueue sid c =
     c\<lparr>send_queue := filter (\<lambda>(e, p). e \<noteq> Some sid) (send_queue c),
       send_queue_len := send_queue_len c - length (filter (\<lambda>(e, p). e = Some sid) (send_queue c))\<rparr>"

definition l2tp_session_send :: "u16 \<Rightarrow> l2tp_packet_t \<Rightarrow> l2tp_conn_t \<Rightarrow> bool \<times> l2tp_conn_t" where
  "l2tp_session_send sid p c =
     (case get_sess c sid of
        None \<Rightarrow> (False, c)
      | Some s \<Rightarrow>
          if s_state1 s = STATE_CLOSE then (False, c)
          else
            (let (res, c1) = l2tp_tunnel_send (set_sid (s_peer_sid s) p) c
             in if res < 0 then (False, c1)
                else (True, c1\<lparr>send_queue := butlast (send_queue c1) @ [(Some sid, snd (last (send_queue c1)))]\<rparr>)))"

definition l2tp_session_try_send :: "u16 \<Rightarrow> l2tp_packet_t \<Rightarrow> l2tp_conn_t \<Rightarrow> bool \<times> l2tp_conn_t" where
  "l2tp_session_try_send sid p c =
     (if send_queue_len c \<ge> unat (peer_rcv_wnd_sz c) then (False, c)
      else (True, snd (l2tp_session_send sid p c)))"

definition l2tp_send_StopCCN :: "l2tp_io \<Rightarrow> u16 \<Rightarrow> u16 \<Rightarrow> l2tp_conn_t \<Rightarrow> bool \<times> l2tp_conn_t" where
  "l2tp_send_StopCCN io res err c =
     (case pack_new io c (c_hide_avps c) 4 \<bind> add16 io c Assigned_Tunnel_ID (c_tid c) True
           \<bind> add_oct io c Result_Code (put16 res @ put16 err) True of
        None \<Rightarrow> (False, c)
      | Some p \<Rightarrow> (True, snd (l2tp_tunnel_send p c)))"

definition l2tp_send_CDN :: "l2tp_io \<Rightarrow> u16 \<Rightarrow> u16 \<Rightarrow> u16 \<Rightarrow> l2tp_conn_t \<Rightarrow> bool \<times> l2tp_conn_t" where
  "l2tp_send_CDN io sid res err c =
     (case get_sess c sid of
        None \<Rightarrow> (False, c)
      | Some s \<Rightarrow>
          (case pack_new io c (s_hide_avps s) 14 \<bind> add16 io c Assigned_Session_ID (s_sid s) True
                \<bind> add_oct io c Result_Code (put16 res @ put16 err) True of
             None \<Rightarrow> (False, c)
           | Some p \<Rightarrow> (True, snd (l2tp_session_send sid p c))))"

definition l2tp_tunnel_send_CDN ::
    "l2tp_io \<Rightarrow> u16 \<Rightarrow> u16 \<Rightarrow> u16 \<Rightarrow> u16 \<Rightarrow> l2tp_conn_t \<Rightarrow> bool \<times> l2tp_conn_t" where
  "l2tp_tunnel_send_CDN io sid peer_sid res err c =
     (case pack_new io c (c_hide_avps c) 14 \<bind> add16 io c Assigned_Session_ID sid True
           \<bind> add_oct io c Result_Code (put16 res @ put16 err) True of
        None \<Rightarrow> (False, c)
      | Some p \<Rightarrow> (True, snd (l2tp_tunnel_send (set_sid peer_sid p) c)))"

section \<open>Disconnecting\<close>

definition l2tp_tunnel_disconnect :: "l2tp_io \<Rightarrow> u16 \<Rightarrow> u16 \<Rightarrow> l2tp_conn_t \<Rightarrow> bool \<times> l2tp_conn_t" where
  "l2tp_tunnel_disconnect io res err c =
     (if c_state c \<in> {STATE_INIT, STATE_WAIT_SCCRP, STATE_WAIT_SCCCN, STATE_ESTB} then
        (let c1 = l2tp_tunnel_clear_sendqueue (conn_finishing c);
             (ok, c2) = l2tp_send_StopCCN io res err c1;
             c3 = c2\<lparr>c_state := STATE_FIN\<rparr>
         in if \<not> ok then (False, l2tp_tunnel_free c3)
            else (True, l2tp_tunnel_free_sessions (c3\<lparr>timeout_tpd := False, hello_tpd := False\<rparr>)))
      else (True, c))"

definition l2tp_tunnel_disconnect_push :: "l2tp_io \<Rightarrow> u16 \<Rightarrow> u16 \<Rightarrow> l2tp_conn_t \<Rightarrow> bool \<times> l2tp_conn_t" where
  "l2tp_tunnel_disconnect_push io res err c =
     (let (ok, c1) = l2tp_tunnel_disconnect io res err c
      in if \<not> ok then (False, c1)
         else
           (let (r, c2) = l2tp_tunnel_push_sendqueue io c1
            in if r < 0 then (False, l2tp_tunnel_free c2) else (True, c2)))"

definition l2tp_session_free :: "l2tp_io \<Rightarrow> u16 \<Rightarrow> l2tp_conn_t \<Rightarrow> l2tp_conn_t" where
  "l2tp_session_free io sid c =
     (case get_sess c sid of
        None \<Rightarrow> c
      | Some s \<Rightarrow>
          if \<not> sess_live s then c
          else
            (let c1 = sess_release s (c\<lparr>c_sessions := AList.delete sid (c_sessions c)\<rparr>)
             in if sess_count c1 = 0 \<and> c_state c1 = STATE_ESTB then snd (l2tp_tunnel_disconnect_push io 1 0 c1)
                else c1))"

definition l2tp_session_disconnect :: "l2tp_io \<Rightarrow> u16 \<Rightarrow> u16 \<Rightarrow> u16 \<Rightarrow> l2tp_conn_t \<Rightarrow> l2tp_conn_t" where
  "l2tp_session_disconnect io sid res err c =
     l2tp_session_free io sid (snd (l2tp_send_CDN io sid res err (l2tp_session_clear_sendqueue sid c)))"

definition l2tp_session_disconnect_push :: "l2tp_io \<Rightarrow> u16 \<Rightarrow> u16 \<Rightarrow> u16 \<Rightarrow> l2tp_conn_t \<Rightarrow> l2tp_conn_t" where
  "l2tp_session_disconnect_push io sid res err c =
     (let (ok, c1) = l2tp_send_CDN io sid res err c;
          c2 = (if ok then snd (l2tp_tunnel_push_sendqueue io c1) else c1)
      in l2tp_session_free io sid c2)"

section \<open>Timers and calls from other contexts\<close>

definition l2tp_tunnel_timeout :: "l2tp_io \<Rightarrow> l2tp_conn_t \<Rightarrow> l2tp_conn_t" where
  "l2tp_tunnel_timeout io c = snd (l2tp_tunnel_disconnect_push io 1 0 (c\<lparr>timeout_tpd := False\<rparr>))"

definition l2tp_conn_close :: "l2tp_io \<Rightarrow> l2tp_conn_t \<Rightarrow> l2tp_conn_t" where
  "l2tp_conn_close io c = snd (l2tp_tunnel_disconnect_push io 0 0 c)"

definition l2tp_tunnel_finwait_timeout :: "l2tp_conn_t \<Rightarrow> l2tp_conn_t" where
  "l2tp_tunnel_finwait_timeout c = l2tp_tunnel_free (c\<lparr>timeout_tpd := False\<rparr>)"

definition l2tp_session_timeout :: "l2tp_io \<Rightarrow> u16 \<Rightarrow> l2tp_conn_t \<Rightarrow> l2tp_conn_t" where
  "l2tp_session_timeout io sid c =
     l2tp_session_disconnect_push io sid 10 0 (upd_sess sid (\<lambda>s. s\<lparr>s_timeout_tpd := False\<rparr>) c)"

definition l2tp_session_apses_finished :: "l2tp_io \<Rightarrow> u16 \<Rightarrow> l2tp_conn_t \<Rightarrow> l2tp_conn_t" where
  "l2tp_session_apses_finished io sid c =
     (case get_sess c sid of
        None \<Rightarrow> c
      | Some s \<Rightarrow> if s_state1 s = STATE_ESTB then l2tp_session_disconnect_push io sid 2 0 c else c)"

definition l2tp_send_HELLO :: "l2tp_io \<Rightarrow> l2tp_conn_t \<Rightarrow> l2tp_conn_t" where
  "l2tp_send_HELLO io c =
     (case pack_new io c (c_hide_avps c) 6 of
        None \<Rightarrow> l2tp_tunnel_free c
      | Some p \<Rightarrow>
          (let (res, c1) = l2tp_tunnel_push_sendqueue io (snd (l2tp_tunnel_send p c))
           in if res < 0 then l2tp_tunnel_free c1 else c1))"

section \<open>Setting up a tunnel\<close>

text \<open>The name the daemon gives itself, \<open>"micro-bng"\<close>.\<close>

definition vendor_name :: bytes where
  "vendor_name = [0x6d, 0x69, 0x63, 0x72, 0x6f, 0x2d, 0x62, 0x6e, 0x67]"

text \<open>The attributes that SCCRQ and SCCRP have in common.\<close>

definition sccr_attrs :: "l2tp_io \<Rightarrow> l2tp_conn_t \<Rightarrow> l2tp_packet_t \<Rightarrow> l2tp_packet_t option" where
  "sccr_attrs io c p =
     add16 io c Protocol_Version 0x0100 True p
     \<bind> add_str io c Host_Name (conf_host_name io) True
     \<bind> add32 io c Framing_Capabilities (c_framing_cap c) True
     \<bind> add16 io c Assigned_Tunnel_ID (c_tid c) True
     \<bind> add_str io c Vendor_Name vendor_name False
     \<bind> add16 io c Recv_Window_Size (of_nat (recv_queue_sz c)) True"

text \<open>The end that they have in common: a challenge of random length, queueing, sending, the next state.\<close>

definition sccr_finish :: "l2tp_io \<Rightarrow> l2tp_state \<Rightarrow> l2tp_packet_t option \<Rightarrow> l2tp_conn_t \<Rightarrow> l2tp_conn_t" where
  "sccr_finish io st pack c =
     (case (pack, io_chall_len io c) of
        (Some p, Some w) \<Rightarrow>
          (case l2tp_tunnel_genchall io ((w AND 0x007F) + 16) c p of
             (None, c1) \<Rightarrow> l2tp_tunnel_free c1
           | (Some p', c1) \<Rightarrow>
               (let (res, c2) = l2tp_tunnel_push_sendqueue io (snd (l2tp_tunnel_send p' c1))
                in if res < 0 then l2tp_tunnel_free c2 else c2\<lparr>c_state := st\<rparr>))
      | _ \<Rightarrow> l2tp_tunnel_free c)"

definition l2tp_send_SCCRQ :: "l2tp_io \<Rightarrow> l2tp_conn_t \<Rightarrow> l2tp_conn_t" where
  "l2tp_send_SCCRQ io c =
     sccr_finish io STATE_WAIT_SCCRP (pack_new io c (c_hide_avps c) 1 \<bind> sccr_attrs io c) c"

definition l2tp_send_SCCRP :: "l2tp_io \<Rightarrow> l2tp_conn_t \<Rightarrow> l2tp_conn_t" where
  "l2tp_send_SCCRP io c =
     sccr_finish io STATE_WAIT_SCCCN
       (pack_new io c (c_hide_avps c) 2 \<bind> sccr_attrs io c \<bind> l2tp_tunnel_genchallresp io 2 c) c"

definition l2tp_send_SCCCN :: "l2tp_io \<Rightarrow> l2tp_conn_t \<Rightarrow> bool \<times> l2tp_conn_t" where
  "l2tp_send_SCCCN io c =
     (case pack_new io c (c_hide_avps c) 3 \<bind> l2tp_tunnel_genchallresp io 3 c of
        None \<Rightarrow> (False, c)
      | Some p \<Rightarrow> (True, snd (l2tp_tunnel_send p (snd (l2tp_tunnel_storechall c None)))))"

definition l2tp_tunnel_connect :: "l2tp_io \<Rightarrow> l2tp_conn_t \<Rightarrow> bool \<times> l2tp_conn_t" where
  "l2tp_tunnel_connect io c =
     (let c1 = c\<lparr>timeout_tpd := False\<rparr>
      in if \<not> io_tunnel_ok io c1 then (False, c1)
         else if conf_hello_interval io \<noteq> 0 \<and> \<not> io_timer_ok io c1 then (False, c1)
         else (True, c1\<lparr>hello_tpd := (if conf_hello_interval io \<noteq> 0 then True else hello_tpd c1),
                        stat_conn_starting := stat_conn_starting c - 1,
                        stat_conn_active := stat_conn_active c + 1, c_state := STATE_ESTB\<rparr>))"

text \<open>The last attribute of a kind wins; a mandatory attribute that the handler does not know is an error.\<close>

definition last_attr :: "int \<Rightarrow> l2tp_packet_t \<Rightarrow> l2tp_attr_t option" where
  "last_attr i p = find (\<lambda>a. da_id (la_attr a) = i) (rev (pk_attrs p))"

definition unknown_attr :: "int list \<Rightarrow> l2tp_packet_t \<Rightarrow> bool" where
  "unknown_attr known p \<longleftrightarrow> (\<exists>a \<in> set (pk_attrs p). la_M a \<and> da_id (la_attr a) \<notin> set known)"

abbreviation (input) attr_uint16 :: "l2tp_attr_t \<Rightarrow> u16" where "attr_uint16 a \<equiv> val_uint16 (la_val a)"

text \<open>SCCRP after the protocol version has been found right: window, authentication, SCCCN, kernel.\<close>

definition sccrp_window :: "l2tp_packet_t \<Rightarrow> l2tp_conn_t \<Rightarrow> bool \<times> l2tp_conn_t" where
  "sccrp_window p c =
     (case last_attr Recv_Window_Size p of
        None \<Rightarrow> (True, c)
      | Some a \<Rightarrow>
          if attr_uint16 a = 0 \<or> attr_uint16 a > 32768 then (False, c\<lparr>peer_rcv_wnd_sz := 4\<rparr>)
          else (True, c\<lparr>peer_rcv_wnd_sz := attr_uint16 a\<rparr>))"

definition sccrp_finish :: "l2tp_io \<Rightarrow> l2tp_packet_t \<Rightarrow> l2tp_conn_t \<Rightarrow> l2tp_conn_t" where
  "sccrp_finish io p c =
     (if \<not> l2tp_tunnel_checkchallresp io 2 c (last_attr Challenge_Response p) then
        snd (l2tp_tunnel_disconnect io 4 0 c)
      else
        (let (ok, c1) = l2tp_tunnel_storechall c (last_attr Challenge p)
         in if \<not> ok then snd (l2tp_tunnel_disconnect io 2 4 c1)
            else
              (let (ok, c2) = l2tp_send_SCCCN io c1
               in if \<not> ok then snd (l2tp_tunnel_disconnect io 2 0 c2)
                  else
                    (let (ok, c3) = l2tp_tunnel_connect io c2
                     in if \<not> ok then snd (l2tp_tunnel_disconnect io 2 0 c3) else c3))))"

definition l2tp_recv_SCCRP :: "l2tp_io \<Rightarrow> l2tp_packet_t \<Rightarrow> l2tp_conn_t \<Rightarrow> l2tp_conn_t" where
  "l2tp_recv_SCCRP io p c =
     (if c_state c \<noteq> STATE_WAIT_SCCRP then c
      else
        (case last_attr Assigned_Tunnel_ID p of
           None \<Rightarrow> snd (l2tp_tunnel_disconnect io 2 0 c)
         | Some assigned_tid \<Rightarrow>
             (let c1 = c\<lparr>c_peer_tid := attr_uint16 assigned_tid\<rparr>
              in if unknown_attr [Message_Type, Random_Vector, Host_Name, Bearer_Capabilities, Firmware_Revision,
                       Vendor_Name, Protocol_Version, Framing_Capabilities, Assigned_Tunnel_ID,
                       Recv_Window_Size, Challenge, Challenge_Response] p then
                   snd (l2tp_tunnel_disconnect io 2 8 c1)
                 else if last_attr Framing_Capabilities p = None then snd (l2tp_tunnel_disconnect io 2 0 c1)
                 else
                   (case last_attr Protocol_Version p of
                      None \<Rightarrow> snd (l2tp_tunnel_disconnect io 2 0 c1)
                    | Some v \<Rightarrow>
                        if attr_uint16 v \<noteq> 0x0100 then snd (l2tp_tunnel_disconnect io 5 0 c1)
                        else
                          (let (ok, c2) = sccrp_window p c1
                           in if \<not> ok then snd (l2tp_tunnel_disconnect io 2 3 c2)
                              else sccrp_finish io p c2)))))"

definition l2tp_recv_SCCCN :: "l2tp_io \<Rightarrow> l2tp_packet_t \<Rightarrow> l2tp_conn_t \<Rightarrow> l2tp_conn_t" where
  "l2tp_recv_SCCCN io p c =
     (if c_state c \<noteq> STATE_WAIT_SCCCN then c
      else if unknown_attr [Message_Type, Host_Name, Vendor_Name, Bearer_Capabilities, Recv_Window_Size,
                Protocol_Version, Framing_Capabilities, Assigned_Tunnel_ID, Random_Vector, Challenge_Response] p then
        snd (l2tp_tunnel_disconnect io 2 8 c)
      else if \<not> l2tp_tunnel_checkchallresp io 3 c (last_attr Challenge_Response p) then
        snd (l2tp_tunnel_disconnect io 4 0 c)
      else
        (let c1 = snd (l2tp_tunnel_storechall c None);
             (ok, c2) = l2tp_tunnel_connect io c1
         in if \<not> ok then snd (l2tp_tunnel_disconnect io 2 0 c2) else c2))"

section \<open>Taking a tunnel down at the peer's request\<close>

text \<open>The disconnection timer covers one full cycle of retransmissions.\<close>

fun finwait_period :: "nat \<Rightarrow> int \<Rightarrow> int \<Rightarrow> int \<Rightarrow> int" where
  "finwait_period 0 rtimeout cap period = period"
| "finwait_period (Suc n) rtimeout cap period =
     finwait_period n (next_rtimeout cap rtimeout) cap (int32 (period + rtimeout))"

definition l2tp_tunnel_finwait :: "l2tp_io \<Rightarrow> l2tp_conn_t \<Rightarrow> l2tp_conn_t" where
  "l2tp_tunnel_finwait io c =
     (if c_state c \<in> {STATE_WAIT_SCCRP, STATE_WAIT_SCCCN, STATE_ESTB, STATE_FIN} then
        (let c1 = (conn_finishing c)\<lparr>c_state := STATE_FIN_WAIT, timeout_tpd := False, hello_tpd := False\<rparr>;
             c2 = l2tp_tunnel_free_sessions (l2tp_tunnel_clear_sendqueue c1);
             c3 = c2\<lparr>timeout_period := finwait_period (nat (c_max_retransmit c)) (c_rtimeout c) (c_rtimeout_cap c) 0\<rparr>
         in if io_timer_ok io c3 then c3\<lparr>timeout_tpd := True\<rparr>
            else l2tp_tunnel_free (snd (l2tp_send_ZLB io c3)))
      else c)"

definition l2tp_recv_StopCCN :: "l2tp_io \<Rightarrow> l2tp_packet_t \<Rightarrow> l2tp_conn_t \<Rightarrow> l2tp_conn_t" where
  "l2tp_recv_StopCCN io p c =
     (if c_state c = STATE_CLOSE \<or> c_state c = STATE_FIN_WAIT then c
      else
        (let c1 = (case last_attr Assigned_Tunnel_ID p of
                     Some a \<Rightarrow> if c_peer_tid c = 0 then c\<lparr>c_peer_tid := attr_uint16 a\<rparr> else c
                   | None \<Rightarrow> c)
         in l2tp_tunnel_finwait io c1))"

definition l2tp_recv_HELLO :: "l2tp_packet_t \<Rightarrow> l2tp_conn_t \<Rightarrow> l2tp_conn_t" where
  "l2tp_recv_HELLO p c =
     (if c_state c \<noteq> STATE_ESTB then c
      else if hello_tpd c then c\<lparr>hello_mods := hello_mods c + 1\<rparr> else c)"

section \<open>Sessions\<close>

text \<open>
  A random session id that is not in use. \<open>n\<close> counts the attempts left, \<open>i\<close> numbers the reads of random
  bytes; a failed read gives up.
\<close>

function pick_sid :: "(nat \<Rightarrow> u16 option) \<Rightarrow> (u16 \<times> l2tp_sess_t) list \<Rightarrow> nat \<Rightarrow> nat \<Rightarrow> u16 option" where
  "pick_sid rd ss n i =
     (if n = 0 then None
      else
        (case rd i of
           None \<Rightarrow> None
         | Some w \<Rightarrow> if w = 0 \<or> map_of ss w \<noteq> None then pick_sid rd ss (n - 1) (i + 1) else Some w))"
  by pat_completeness auto
termination by (relation "measure (\<lambda>(_, _, n, _). n)") auto

declare pick_sid.simps [simp del]

definition sess_init :: "l2tp_io \<Rightarrow> l2tp_conn_t \<Rightarrow> u16 \<Rightarrow> l2tp_sess_t" where
  "sess_init io c sid =
     \<lparr>s_sid = sid, s_peer_sid = 0, s_state1 = STATE_INIT, s_lns_mode = c_lns_mode c, s_hide_avps = c_hide_avps c,
      s_send_seq = (conf_dataseq io \<in> {L2TP_DATASEQ_PREFER, L2TP_DATASEQ_REQUIRE}),
      s_recv_seq = (conf_dataseq io = L2TP_DATASEQ_REQUIRE),
      s_reorder_timeout = conf_reorder_timeout io, s_timeout_tpd = False, s_apses_ctx = False\<rparr>"

definition l2tp_tunnel_alloc_session :: "l2tp_io \<Rightarrow> l2tp_conn_t \<Rightarrow> (u16 \<times> l2tp_conn_t) option" where
  "l2tp_tunnel_alloc_session io c =
     (case pick_sid (io_urandom16 io c) (c_sessions c) 65535 0 of
        None \<Rightarrow> None
      | Some sid \<Rightarrow>
          Some (sid, c\<lparr>c_sessions := AList.update sid (sess_init io c sid) (c_sessions c),
                       sess_count := sess_count c + 1, stat_sess_starting := stat_sess_starting c + 1\<rparr>))"

definition l2tp_session_start_data_channel :: "l2tp_io \<Rightarrow> u16 \<Rightarrow> l2tp_conn_t \<Rightarrow> bool \<times> l2tp_conn_t" where
  "l2tp_session_start_data_channel io sid c =
     (if io_apses_ok io c sid then
        (True, (upd_sess sid (\<lambda>s. s\<lparr>s_apses_ctx := True\<rparr>) c)\<lparr>c_events := c_events c @ [Call_apses_start sid]\<rparr>)
      else (False, c))"

definition l2tp_session_connect :: "l2tp_io \<Rightarrow> u16 \<Rightarrow> l2tp_conn_t \<Rightarrow> bool \<times> l2tp_conn_t" where
  "l2tp_session_connect io sid c =
     (let c1 = upd_sess sid (\<lambda>s. s\<lparr>s_timeout_tpd := False\<rparr>) c
      in if \<not> io_pppox_ok io c1 sid then (False, c1)
         else
           (let c2 = (upd_sess sid (\<lambda>s. s\<lparr>s_state1 := STATE_ESTB\<rparr>) c1)
                  \<lparr>c_events := c_events c1 @ [Ctrl_started sid], stat_sess_starting := stat_sess_starting c1 - 1,
                   stat_sess_active := stat_sess_active c1 + 1\<rparr>
            in l2tp_session_start_data_channel io sid c2))"

text \<open>The messages of call set-up. \<open>build\<close> adds the attributes; the message goes to the session's queue.\<close>

definition sess_message ::
    "l2tp_io \<Rightarrow> u16 \<Rightarrow> u16 \<Rightarrow> (l2tp_sess_t \<Rightarrow> l2tp_packet_t \<Rightarrow> l2tp_packet_t option) \<Rightarrow> l2tp_conn_t \<Rightarrow> l2tp_packet_t option"
where
  "sess_message io msg_type sid build c =
     (case get_sess c sid of
        None \<Rightarrow> None
      | Some s \<Rightarrow> pack_new io c (s_hide_avps s) msg_type \<bind> build s)"

definition l2tp_send_ICRQ :: "l2tp_io \<Rightarrow> u16 \<Rightarrow> l2tp_conn_t \<Rightarrow> bool \<times> l2tp_conn_t" where
  "l2tp_send_ICRQ io sid c =
     (case sess_message io 10 sid (\<lambda>s p. add16 io c Assigned_Session_ID (s_sid s) True p
             \<bind> add32 io c Call_Serial_Number 0 True) c of
        None \<Rightarrow> (False, c)
      | Some p \<Rightarrow> l2tp_session_try_send sid p c)"

definition l2tp_send_ICRP :: "l2tp_io \<Rightarrow> u16 \<Rightarrow> l2tp_conn_t \<Rightarrow> bool \<times> l2tp_conn_t" where
  "l2tp_send_ICRP io sid c =
     (case sess_message io 11 sid (\<lambda>s. add16 io c Assigned_Session_ID (s_sid s) True) c of
        None \<Rightarrow> (False, c)
      | Some p \<Rightarrow> (True, snd (l2tp_session_send sid p c)))"

definition connected_attrs :: "l2tp_io \<Rightarrow> l2tp_conn_t \<Rightarrow> l2tp_sess_t \<Rightarrow> l2tp_packet_t \<Rightarrow> l2tp_packet_t option" where
  "connected_attrs io c s p =
     add32 io c TX_Speed 1000 True p \<bind> add32 io c Framing_Type 3 True
     \<bind> (\<lambda>p. if s_send_seq s then add_oct io c Sequencing_Required [] True p else Some p)"

definition l2tp_send_ICCN :: "l2tp_io \<Rightarrow> u16 \<Rightarrow> l2tp_conn_t \<Rightarrow> bool \<times> l2tp_conn_t" where
  "l2tp_send_ICCN io sid c =
     (case sess_message io 12 sid (connected_attrs io c) c of
        None \<Rightarrow> (False, c)
      | Some p \<Rightarrow> (True, snd (l2tp_session_send sid p c)))"

definition l2tp_send_OCRQ :: "l2tp_io \<Rightarrow> u16 \<Rightarrow> l2tp_conn_t \<Rightarrow> bool \<times> l2tp_conn_t" where
  "l2tp_send_OCRQ io sid c =
     (case sess_message io 7 sid (\<lambda>s p. add16 io c Assigned_Session_ID (s_sid s) True p
             \<bind> add32 io c Call_Serial_Number 0 True \<bind> add32 io c Minimum_BPS 100 True
             \<bind> add32 io c Maximum_BPS 100000 True \<bind> add32 io c Bearer_Type 3 True
             \<bind> add32 io c Framing_Type 3 True \<bind> add_str io c Called_Number [] True) c of
        None \<Rightarrow> (False, c)
      | Some p \<Rightarrow> l2tp_session_try_send sid p c)"

definition l2tp_send_OCRP :: "l2tp_io \<Rightarrow> u16 \<Rightarrow> l2tp_conn_t \<Rightarrow> bool \<times> l2tp_conn_t" where
  "l2tp_send_OCRP io sid c =
     (case sess_message io 8 sid (\<lambda>s. add16 io c Assigned_Session_ID (s_sid s) True) c of
        None \<Rightarrow> (False, c)
      | Some p \<Rightarrow> (True, snd (l2tp_session_send sid p c)))"

definition l2tp_send_OCCN :: "l2tp_io \<Rightarrow> u16 \<Rightarrow> l2tp_conn_t \<Rightarrow> bool \<times> l2tp_conn_t" where
  "l2tp_send_OCCN io sid c =
     (case sess_message io 9 sid (connected_attrs io c) c of
        None \<Rightarrow> (False, c)
      | Some p \<Rightarrow> (True, snd (l2tp_session_send sid p c)))"

abbreviation (input) sess_timer :: "bool \<Rightarrow> u16 \<Rightarrow> l2tp_conn_t \<Rightarrow> l2tp_conn_t" where
  "sess_timer b sid \<equiv> upd_sess sid (\<lambda>s. s\<lparr>s_timeout_tpd := b\<rparr>)"

definition l2tp_session_incall_reply :: "l2tp_io \<Rightarrow> u16 \<Rightarrow> l2tp_conn_t \<Rightarrow> bool \<times> l2tp_conn_t" where
  "l2tp_session_incall_reply io sid c =
     (if \<not> io_timer_ok io c then (False, c)
      else
        (let (ok, c1) = l2tp_send_ICRP io sid (sess_timer True sid c)
         in if \<not> ok then (False, sess_timer False sid c1)
            else (True, upd_sess sid (\<lambda>s. s\<lparr>s_state1 := STATE_WAIT_ICCN\<rparr>) c1)))"

definition l2tp_session_outcall_reply :: "l2tp_io \<Rightarrow> u16 \<Rightarrow> l2tp_conn_t \<Rightarrow> bool \<times> l2tp_conn_t" where
  "l2tp_session_outcall_reply io sid c =
     (if \<not> io_timer_ok io c then (False, c)
      else
        (let (ok, c1) = l2tp_send_OCRP io sid (sess_timer True sid c)
         in if \<not> ok then (False, sess_timer False sid c1)
            else
              (let (ok, c2) = l2tp_send_OCCN io sid c1
               in if \<not> ok then (False, sess_timer False sid c2)
                  else
                    (let (ok, c3) = l2tp_session_connect io sid c2
                     in if \<not> ok then (False, sess_timer False sid c3) else (True, c3)))))"

definition l2tp_session_place_call :: "l2tp_io \<Rightarrow> u16 \<Rightarrow> l2tp_conn_t \<Rightarrow> bool \<times> l2tp_conn_t" where
  "l2tp_session_place_call io sid c =
     (if \<not> io_timer_ok io c then (False, c)
      else
        (case get_sess c sid of
           None \<Rightarrow> (False, c)
         | Some s \<Rightarrow>
             (let c0 = sess_timer True sid c;
                  (ok, c1) = (if s_lns_mode s then l2tp_send_OCRQ io sid c0 else l2tp_send_ICRQ io sid c0)
              in if \<not> ok then (False, sess_timer False sid c1)
                 else (True, upd_sess sid
                        (\<lambda>t. t\<lparr>s_state1 := (if s_lns_mode s then STATE_WAIT_OCRP else STATE_WAIT_ICRP)\<rparr>) c1))))"

definition l2tp_tunnel_create_session :: "l2tp_io \<Rightarrow> l2tp_conn_t \<Rightarrow> l2tp_conn_t" where
  "l2tp_tunnel_create_session io c =
     (if c_state c \<noteq> STATE_ESTB then c
      else
        (case l2tp_tunnel_alloc_session io c of
           None \<Rightarrow> c
         | Some (sid, c1) \<Rightarrow>
             (let (ok, c2) = l2tp_session_place_call io sid c1
              in if \<not> ok then l2tp_session_free io sid c2
                 else
                   (let (res, c3) = l2tp_tunnel_push_sendqueue io c2
                    in if res < 0 then l2tp_session_free io sid c3 else c3))))"

section \<open>Call handlers\<close>

text \<open>The admission checks in front of every new call.\<close>

definition call_refused :: "l2tp_io \<Rightarrow> l2tp_conn_t \<Rightarrow> bool" where
  "call_refused io c \<longleftrightarrow> ap_shutdown io \<or>
     conf_max_starting io \<noteq> 0 \<and> ses_starting io c \<ge> conf_max_starting io \<or>
     conf_max_sessions io \<noteq> 0 \<and> ses_active io c + ses_starting io c \<ge> conf_max_sessions io \<or>
     io_connlimit io (fst (c_peer_addr c))"

text \<open>ICRQ and OCRQ differ in the attributes they know and in how the call is answered.\<close>

definition recv_call_request ::
    "l2tp_io \<Rightarrow> int list \<Rightarrow> (u16 \<Rightarrow> l2tp_conn_t \<Rightarrow> bool \<times> l2tp_conn_t) \<Rightarrow> l2tp_packet_t \<Rightarrow> l2tp_conn_t \<Rightarrow> l2tp_conn_t" where
  "recv_call_request io known answer p c =
     (if call_refused io c then c
      else
        (case last_attr Assigned_Session_ID p of
           None \<Rightarrow> snd (l2tp_tunnel_send_CDN io 0 0 2 6 c)
         | Some a \<Rightarrow>
             (let peer_sid = attr_uint16 a
              in case l2tp_tunnel_alloc_session io c of
                   None \<Rightarrow> snd (l2tp_tunnel_send_CDN io 0 peer_sid 2 4 c)
                 | Some (sid, c1) \<Rightarrow>
                     (let c2 = upd_sess sid (\<lambda>s. s\<lparr>s_peer_sid := peer_sid\<rparr>) c1
                      in if unknown_attr known p then
                           l2tp_session_free io sid (snd (l2tp_tunnel_send_CDN io sid peer_sid 2 8 c2))
                         else
                           (let (ok, c3) = answer sid c2
                            in if \<not> ok then
                                 l2tp_session_free io sid (snd (l2tp_tunnel_send_CDN io sid peer_sid 2 4 c3))
                               else c3)))))"

definition l2tp_recv_ICRQ :: "l2tp_io \<Rightarrow> l2tp_packet_t \<Rightarrow> l2tp_conn_t \<Rightarrow> l2tp_conn_t" where
  "l2tp_recv_ICRQ io p c =
     (if c_state c \<noteq> STATE_ESTB \<and> c_lns_mode c then c
      else recv_call_request io [Assigned_Session_ID, Message_Type, Random_Vector, Call_Serial_Number, Bearer_Type,
             Calling_Number, Called_Number, Sub_Address, Physical_Channel_ID]
             (l2tp_session_incall_reply io) p c)"

definition l2tp_recv_OCRQ :: "l2tp_io \<Rightarrow> l2tp_packet_t \<Rightarrow> l2tp_conn_t \<Rightarrow> l2tp_conn_t" where
  "l2tp_recv_OCRQ io p c =
     (if c_state c \<noteq> STATE_ESTB \<and> \<not> c_lns_mode c then c
      else recv_call_request io [Message_Type, Random_Vector, Call_Serial_Number, Minimum_BPS, Maximum_BPS,
             Bearer_Type, Framing_Type, Called_Number, Sub_Address, Assigned_Session_ID]
             (l2tp_session_outcall_reply io) p c)"

text \<open>ICRP and OCRP share the look at the reply: the peer's session id, unknown attributes.\<close>

definition recv_call_reply ::
    "l2tp_io \<Rightarrow> u16 \<Rightarrow> l2tp_packet_t \<Rightarrow> (l2tp_conn_t \<Rightarrow> l2tp_conn_t) \<Rightarrow> l2tp_conn_t \<Rightarrow> l2tp_conn_t" where
  "recv_call_reply io sid p finish c =
     (case last_attr Assigned_Session_ID p of
        None \<Rightarrow> l2tp_session_disconnect io sid 2 6 c
      | Some a \<Rightarrow>
          (let c1 = upd_sess sid (\<lambda>s. s\<lparr>s_peer_sid := attr_uint16 a\<rparr>) c
           in if unknown_attr [Message_Type, Random_Vector, Assigned_Session_ID] p then
                l2tp_session_disconnect io sid 2 8 c1
              else finish c1))"

definition l2tp_recv_ICRP :: "l2tp_io \<Rightarrow> u16 \<Rightarrow> l2tp_packet_t \<Rightarrow> l2tp_conn_t \<Rightarrow> l2tp_conn_t" where
  "l2tp_recv_ICRP io sid p c =
     (if map_option s_state1 (get_sess c sid) \<noteq> Some STATE_WAIT_ICRP then c
      else recv_call_reply io sid p
             (\<lambda>c1. let (ok, c2) = l2tp_send_ICCN io sid c1
                   in if \<not> ok then l2tp_session_disconnect io sid 2 6 c2
                      else
                        (let (ok, c3) = l2tp_session_connect io sid c2
                         in if \<not> ok then l2tp_session_disconnect io sid 2 6 c3 else c3)) c)"

definition l2tp_recv_OCRP :: "l2tp_io \<Rightarrow> u16 \<Rightarrow> l2tp_packet_t \<Rightarrow> l2tp_conn_t \<Rightarrow> l2tp_conn_t" where
  "l2tp_recv_OCRP io sid p c =
     (if map_option s_state1 (get_sess c sid) \<noteq> Some STATE_WAIT_OCRP then c
      else recv_call_reply io sid p (upd_sess sid (\<lambda>s. s\<lparr>s_state1 := STATE_WAIT_OCCN\<rparr>)) c)"

text \<open>ICCN and OCCN: the peer may ask for sequence numbers, then the session is connected.\<close>

definition recv_call_connected ::
    "l2tp_io \<Rightarrow> int list \<Rightarrow> u16 \<Rightarrow> l2tp_packet_t \<Rightarrow> l2tp_conn_t \<Rightarrow> l2tp_conn_t" where
  "recv_call_connected io known sid p c =
     (let c1 = (if last_attr Sequencing_Required p \<noteq> None \<and> conf_dataseq io \<noteq> L2TP_DATASEQ_DENY
                then upd_sess sid (\<lambda>s. s\<lparr>s_send_seq := True\<rparr>) c else c)
      in if unknown_attr (Sequencing_Required # known) p then l2tp_session_disconnect io sid 2 8 c1
         else
           (let (ok, c2) = l2tp_session_connect io sid c1
            in if \<not> ok then l2tp_session_disconnect io sid 2 6 c2 else c2))"

definition l2tp_recv_ICCN :: "l2tp_io \<Rightarrow> u16 \<Rightarrow> l2tp_packet_t \<Rightarrow> l2tp_conn_t \<Rightarrow> l2tp_conn_t" where
  "l2tp_recv_ICCN io sid p c =
     (if map_option s_state1 (get_sess c sid) \<noteq> Some STATE_WAIT_ICCN then c
      else recv_call_connected io ([Message_Type, Random_Vector, TX_Speed, Framing_Type] @ [26..33] @ [37, 38]) sid p c)"

definition l2tp_recv_OCCN :: "l2tp_io \<Rightarrow> u16 \<Rightarrow> l2tp_packet_t \<Rightarrow> l2tp_conn_t \<Rightarrow> l2tp_conn_t" where
  "l2tp_recv_OCCN io sid p c =
     (if map_option s_state1 (get_sess c sid) \<noteq> Some STATE_WAIT_OCCN then c
      else recv_call_connected io [Message_Type, Random_Vector, TX_Speed, Framing_Type] sid p c)"

definition l2tp_recv_CDN :: "l2tp_io \<Rightarrow> u16 \<Rightarrow> l2tp_packet_t \<Rightarrow> l2tp_conn_t \<Rightarrow> l2tp_conn_t" where
  "l2tp_recv_CDN io sid p c =
     (case get_sess c sid of
        None \<Rightarrow> c
      | Some s \<Rightarrow>
          if s_state1 s = STATE_CLOSE then c
          else
            (let c1 = (case last_attr Assigned_Session_ID p of
                         Some a \<Rightarrow> if s_peer_sid s = 0 then upd_sess sid (\<lambda>s. s\<lparr>s_peer_sid := attr_uint16 a\<rparr>) c else c
                       | None \<Rightarrow> c)
             in l2tp_session_free io sid (l2tp_session_clear_sendqueue sid c1)))"

section \<open>Dispatching\<close>

text \<open>
  WAN-Error-Notify and Set-Link-Info for a session, and a Call-Disconnect-Notify without session id, are only
  logged.
\<close>

definition l2tp_session_recv :: "l2tp_io \<Rightarrow> u16 \<Rightarrow> l2tp_packet_t \<Rightarrow> u16 \<Rightarrow> bool \<Rightarrow> l2tp_conn_t \<Rightarrow> l2tp_conn_t" where
  "l2tp_session_recv io sid p msg_type mandatory c =
     (if msg_type \<in> {1, 2, 3, 4, 6, 7, 10} then c
      else if msg_type = 8 then l2tp_recv_OCRP io sid p c
      else if msg_type = 9 then l2tp_recv_OCCN io sid p c
      else if msg_type = 11 then l2tp_recv_ICRP io sid p c
      else if msg_type = 12 then l2tp_recv_ICCN io sid p c
      else if msg_type = 14 then l2tp_recv_CDN io sid p c
      else if msg_type \<in> {15, 16} then c
      else if mandatory then l2tp_session_disconnect io sid 2 8 c
      else c)"

definition l2tp_tunnel_recv :: "l2tp_io \<Rightarrow> l2tp_packet_t \<Rightarrow> u16 \<Rightarrow> bool \<Rightarrow> l2tp_conn_t \<Rightarrow> l2tp_conn_t" where
  "l2tp_tunnel_recv io p msg_type mandatory c =
     (if msg_type = 1 then c
      else if msg_type = 2 then l2tp_recv_SCCRP io p c
      else if msg_type = 3 then l2tp_recv_SCCCN io p c
      else if msg_type = 4 then l2tp_recv_StopCCN io p c
      else if msg_type = 6 then l2tp_recv_HELLO p c
      else if msg_type = 7 then l2tp_recv_OCRQ io p c
      else if msg_type = 10 then l2tp_recv_ICRQ io p c
      else if msg_type \<in> {14, 8, 9, 11, 12, 15, 16} then c
      else if mandatory then snd (l2tp_tunnel_disconnect io 2 8 c)
      else c)"

definition l2tp_dispatch :: "l2tp_io \<Rightarrow> handler" where
  "l2tp_dispatch io p c =
     (let msg_attr = hd (pk_attrs p); msg_type = attr_uint16 msg_attr; msg_sid = h_sid (pk_hdr p)
      in if msg_sid \<noteq> 0 then
           (case get_sess c msg_sid of
              None \<Rightarrow> c
            | Some s \<Rightarrow> l2tp_session_recv io msg_sid p msg_type (la_M msg_attr) c)
         else l2tp_tunnel_recv io p msg_type (la_M msg_attr) c)"

section \<open>The handlers and the transport\<close>

text \<open>What the operations leave alone: the receiving side, and what the sender's invariant looks at.\<close>

definition same_part :: "l2tp_conn_t \<Rightarrow> l2tp_conn_t \<Rightarrow> bool" where
  "same_part c c' \<longleftrightarrow> rcv_part c' = rcv_part c \<and> snd_part c' = snd_part c"

lemmas part_defs = same_part_def rcv_part_def snd_part_def

lemma same_part_refl [simp]: "same_part c c"
  by (simp add: same_part_def)

lemma same_part_trans [trans]: "same_part a b \<Longrightarrow> same_part b c \<Longrightarrow> same_part a c"
  by (simp add: same_part_def)

lemma same_part_step: "same_part c c' \<Longrightarrow> conn_step sane est c c'"
  by (simp add: same_part_def conn_step_part)

lemma same_part_state: "same_part c c' \<Longrightarrow> c_state c' = c_state c"
  by (simp add: part_defs)

lemma same_part_upd [simp]: "same_part c (upd_sess sid f c)"
  by (simp add: upd_sess_def part_defs)

lemma same_part_send [simp]: "same_part c (snd (l2tp_tunnel_send p c))"
  by (simp add: l2tp_tunnel_send_def part_defs)

lemma same_part_clear [simp]:
  "same_part c (l2tp_tunnel_clear_sendqueue c)" "same_part c (l2tp_session_clear_sendqueue sid c)"
  by (simp_all add: l2tp_tunnel_clear_sendqueue_def l2tp_session_clear_sendqueue_def part_defs)

lemma same_part_finishing [simp]: "same_part c (conn_finishing c)"
  by (simp add: conn_finishing_def part_defs)

lemma same_part_free_sessions [simp]: "same_part c (l2tp_tunnel_free_sessions c)"
  using free_sessions_part by (simp add: same_part_def)

lemma same_part_session_send [simp]: "same_part c (snd (l2tp_session_send sid p c))"
  by (simp add: l2tp_session_send_def l2tp_tunnel_send_def part_defs split: option.split)

lemma same_part_try_send [simp]: "same_part c (snd (l2tp_session_try_send sid p c))"
  by (simp add: l2tp_session_try_send_def)

lemma same_part_messages [simp]:
  "same_part c (snd (l2tp_send_StopCCN io res err c))"
  "same_part c (snd (l2tp_send_CDN io sid res err c))"
  "same_part c (snd (l2tp_tunnel_send_CDN io sid psid res err c))"
  "same_part c (snd (l2tp_send_ICRQ io sid c))" "same_part c (snd (l2tp_send_ICRP io sid c))"
  "same_part c (snd (l2tp_send_ICCN io sid c))" "same_part c (snd (l2tp_send_OCRQ io sid c))"
  "same_part c (snd (l2tp_send_OCRP io sid c))" "same_part c (snd (l2tp_send_OCCN io sid c))"
  by (simp_all add: l2tp_send_StopCCN_def l2tp_send_CDN_def l2tp_tunnel_send_CDN_def l2tp_send_ICRQ_def
      l2tp_send_ICRP_def l2tp_send_ICCN_def l2tp_send_OCRQ_def l2tp_send_OCRP_def l2tp_send_OCCN_def
      split: option.split)

lemma same_part_storechall [simp]: "same_part c (snd (l2tp_tunnel_storechall c a))"
  by (simp add: l2tp_tunnel_storechall_def Let_def part_defs split: option.split)

lemma same_part_genchall [simp]: "same_part c (snd (l2tp_tunnel_genchall io n c p))"
  by (simp add: l2tp_tunnel_genchall_def Let_def part_defs split: option.split)

lemma same_part_SCCCN [simp]: "same_part c (snd (l2tp_send_SCCCN io c))"
  by (simp add: l2tp_send_SCCCN_def same_part_trans [OF same_part_storechall same_part_send] split: option.split)

lemma same_part_alloc_session: "l2tp_tunnel_alloc_session io c = Some (sid, c') \<Longrightarrow> same_part c c'"
  by (auto simp: l2tp_tunnel_alloc_session_def Let_def part_defs split: option.splits)

lemma same_part_connect [simp]: "same_part c (snd (l2tp_session_connect io sid c))"
  by (simp add: l2tp_session_connect_def l2tp_session_start_data_channel_def Let_def upd_sess_def part_defs)

lemma same_part_ZLB [simp]: "same_part c (snd (l2tp_send_ZLB io c))"
  by (simp add: l2tp_send_ZLB_def tunnel_xmit_eq Let_def part_defs split: option.split)

text \<open>Steps that change the state of the tunnel, or send.\<close>

lemma conn_step_to:
  assumes "same_part (c\<lparr>c_state := st\<rparr>) d" "state_rank (c_state c) \<le> state_rank st" "tunnel_state st"
    "st \<noteq> STATE_ESTB \<or> c_state c = STATE_ESTB \<or> est"
  shows "conn_step sane est c d"
proof -
  have "snd_part d = snd_part c" using assms(1) by (simp add: part_defs)
  with assms snd_inv_part [of d c 0] show ?thesis by (simp add: conn_step_def part_defs)
qed

lemma conn_step_free_of:
  assumes "same_part (c\<lparr>c_state := st\<rparr>) d" "tunnel_state st"
  shows "conn_step sane est c (l2tp_tunnel_free d)"
proof -
  have "tunnel_state (c_state d)" "c_dequeued d = c_dequeued c" "c_Nr d = c_Nr c"
    using assms by (simp_all add: part_defs)
  with tunnel_free_fields [of d] show ?thesis
    by (cases "c_state c") (simp_all add: conn_step_def tunnel_state_def)
qed

lemma conn_step_push: "conn_step sane est c (snd (l2tp_tunnel_push_sendqueue io c))"
  using push_sendqueue_rcv_part [of io c] push_sendqueue_snd_inv [of c io]
  by (simp add: conn_step_def rcv_part_def)

lemma same_part_upd_state: "same_part c d \<Longrightarrow> same_part (c\<lparr>c_state := st\<rparr>) (d\<lparr>c_state := st\<rparr>)"
  by (simp add: part_defs)

lemma disconnect_step:
  "conn_step sane est c (snd (l2tp_tunnel_disconnect io res err c))"
proof (cases "c_state c \<in> {STATE_INIT, STATE_WAIT_SCCRP, STATE_WAIT_SCCCN, STATE_ESTB}")
  case True
  define c1 where "c1 = l2tp_tunnel_clear_sendqueue (conn_finishing c)"
  obtain ok c2 where stop: "l2tp_send_StopCCN io res err c1 = (ok, c2)" by fastforce
  have "same_part c c1" by (simp add: c1_def same_part_trans [OF same_part_finishing])
  also have "same_part c1 c2" using same_part_messages(1) [of c1 io res err] stop by simp
  finally have fin: "same_part (c\<lparr>c_state := STATE_FIN\<rparr>) (c2\<lparr>c_state := STATE_FIN\<rparr>)"
    by (rule same_part_upd_state)
  have up: "state_rank (c_state c) \<le> state_rank STATE_FIN" "tunnel_state STATE_FIN"
    using True by (auto simp: tunnel_state_def)
  have "same_part (c\<lparr>c_state := STATE_FIN\<rparr>) (c2\<lparr>c_state := STATE_FIN, timeout_tpd := False, hello_tpd := False\<rparr>)"
    using fin by (simp add: part_defs)
  from same_part_trans [OF this same_part_free_sessions]
  have "conn_step sane est c (l2tp_tunnel_free_sessions (c2\<lparr>c_state := STATE_FIN, timeout_tpd := False, hello_tpd := False\<rparr>))"
    using up by (rule conn_step_to) simp
  with conn_step_free_of [OF fin up(2)] True stop show ?thesis
    by (simp add: l2tp_tunnel_disconnect_def Let_def flip: c1_def)
qed (simp add: l2tp_tunnel_disconnect_def)

lemma conn_step_tunnel: "tunnel_state (c_state c) \<Longrightarrow> conn_step sane est c c' \<Longrightarrow> tunnel_state (c_state c')"
  by (simp add: conn_step_def)

lemma disconnect_push_step:
  assumes "tunnel_state (c_state c)"
  shows "conn_step sane est c (snd (l2tp_tunnel_disconnect_push io res err c))"
proof -
  obtain ok c1 where d: "l2tp_tunnel_disconnect io res err c = (ok, c1)" by fastforce
  obtain r c2 where p: "l2tp_tunnel_push_sendqueue io c1 = (r, c2)" by fastforce
  have 1: "conn_step sane est c c1" using disconnect_step [of sane est c io res err] d by simp
  have 2: "conn_step sane est c c2" using conn_step_trans [OF 1 conn_step_push [of sane est c1 io]] p by simp
  from conn_step_tunnel [OF assms 2] have "conn_step sane est c (l2tp_tunnel_free c2)"
    by (intro conn_step_trans [OF 2]) (rule conn_step_free)
  with 1 2 d p show ?thesis by (simp add: l2tp_tunnel_disconnect_push_def)
qed

lemma session_free_step:
  assumes "tunnel_state (c_state c)"
  shows "conn_step sane est c (l2tp_session_free io sid c)"
proof (cases "get_sess c sid")
  case (Some s)
  define c1 where "c1 = sess_release s (c\<lparr>c_sessions := AList.delete sid (c_sessions c)\<rparr>)"
  have 1: "same_part c c1"
    using sess_release_part [of s "c\<lparr>c_sessions := AList.delete sid (c_sessions c)\<rparr>"]
    by (simp add: c1_def part_defs)
  then have "tunnel_state (c_state c1)" using assms by (simp add: part_defs)
  from conn_step_trans [OF same_part_step [OF 1] disconnect_push_step [OF this]] 1 Some show ?thesis
    by (simp add: l2tp_session_free_def same_part_step Let_def flip: c1_def)
qed (simp add: l2tp_session_free_def)

lemma session_free_after:
  assumes "tunnel_state (c_state c)" "same_part c c'"
  shows "conn_step sane est c (l2tp_session_free io sid c')"
proof -
  have "tunnel_state (c_state c')" using assms by (simp add: part_defs)
  from conn_step_trans [OF same_part_step [OF assms(2)] session_free_step [OF this]] show ?thesis .
qed

lemma session_disconnect_step:
  assumes "tunnel_state (c_state c)" "same_part c c'"
  shows "conn_step sane est c (l2tp_session_disconnect io sid res err c')"
  unfolding l2tp_session_disconnect_def
  by (rule session_free_after [OF assms(1)], rule same_part_trans [OF assms(2)],
      rule same_part_trans [OF same_part_clear(2) same_part_messages(2)])

lemma session_disconnect_push_step:
  assumes "tunnel_state (c_state c)" "same_part c c'"
  shows "conn_step sane est c (l2tp_session_disconnect_push io sid res err c')"
proof -
  obtain ok c1 where m: "l2tp_send_CDN io sid res err c' = (ok, c1)" by fastforce
  have 1: "conn_step sane est c c1"
    using same_part_trans [OF assms(2) same_part_messages(2) [of c' io sid res err]] m
    by (auto intro: same_part_step)
  have 2: "conn_step sane est c (snd (l2tp_tunnel_push_sendqueue io c1))" by (rule conn_step_trans [OF 1 conn_step_push])
  have free: "conn_step sane est c (l2tp_session_free io sid d)" if "conn_step sane est c d" for d
    using conn_step_trans [OF that session_free_step] conn_step_tunnel [OF assms(1) that] by blast
  from free [OF 1] free [OF 2] m show ?thesis by (simp add: l2tp_session_disconnect_push_def)
qed

text \<open>Setting up and taking down a tunnel.\<close>

lemma connect_step:
  assumes "state_rank (c_state c) \<le> 2" est
  shows "conn_step sane est c (snd (l2tp_tunnel_connect io c))"
proof -
  have "conn_step sane est c d" if "same_part (c\<lparr>c_state := STATE_ESTB\<rparr>) d" for d
    using assms by (intro conn_step_to [OF that]) (simp_all add: tunnel_state_def)
  moreover have "conn_step sane est c (c\<lparr>timeout_tpd := False\<rparr>)" by (rule same_part_step) (simp add: part_defs)
  ultimately show ?thesis by (simp add: l2tp_tunnel_connect_def Let_def part_defs)
qed

lemma disconnect_after: "same_part c d \<Longrightarrow> conn_step sane est c (snd (l2tp_tunnel_disconnect io res err d))"
  by (rule conn_step_trans [OF same_part_step disconnect_step])

lemma sccr_finish_step:
  assumes "tunnel_state (c_state c)" "state_rank (c_state c) \<le> state_rank st" "tunnel_state st" "st \<noteq> STATE_ESTB"
  shows "conn_step sane est c (sccr_finish io st pack c)"
proof -
  have free: "conn_step sane est c (l2tp_tunnel_free c)" by (rule conn_step_free [OF assms(1)])
  show ?thesis
  proof (cases pack; cases "io_chall_len io c")
    fix p w assume pw: "pack = Some p" "io_chall_len io c = Some w"
    obtain r c1 where g: "l2tp_tunnel_genchall io ((w AND 0x007F) + 16) c p = (r, c1)" by fastforce
    have c1: "same_part c c1" using same_part_genchall [of c io "(w AND 0x007F) + 16" p] g by simp
    then have f1: "conn_step sane est c (l2tp_tunnel_free c1)"
      by (intro conn_step_free_of [where st = "c_state c"]) (simp_all add: part_defs assms(1))
    show ?thesis
    proof (cases r)
      case None
      with pw g f1 show ?thesis by (simp add: sccr_finish_def)
    next
      case (Some p')
      obtain res c2 where q: "l2tp_tunnel_push_sendqueue io (snd (l2tp_tunnel_send p' c1)) = (res, c2)" by fastforce
      have c2: "conn_step sane est c c2"
        using conn_step_trans [OF same_part_step [OF same_part_trans [OF c1 same_part_send]] conn_step_push [of sane est _ io]]
          q by (metis snd_conv)
      have st2: "c_state c2 = c_state c"
        using push_sendqueue_rcv_part [of io "snd (l2tp_tunnel_send p' c1)"] same_part_send [of c1 p'] c1 q
        by (simp add: part_defs)
      have "conn_step sane est c2 (c2\<lparr>c_state := st\<rparr>)"
        using assms(2-4) st2 by (intro conn_step_to [where st = st]) simp_all
      moreover have "conn_step sane est c2 (l2tp_tunnel_free c2)" using st2 assms(1) by (simp add: conn_step_free)
      ultimately show ?thesis
        using conn_step_trans [OF c2] pw g q Some by (simp add: sccr_finish_def)
    qed
  qed (simp_all add: sccr_finish_def free)
qed

lemma last_attr_SomeD: "last_attr i p = Some a \<Longrightarrow> a \<in> set (pk_attrs p) \<and> da_id (la_attr a) = i"
  unfolding last_attr_def find_Some_iff by (metis length_rev nth_mem set_rev)

lemma sccrp_window_step:
  "conn_step (sane_msg p) est c (snd (sccrp_window p c))" "c_state (snd (sccrp_window p c)) = c_state c"
proof -
  have "unat w \<le> 32767" if "w \<noteq> 32768" "\<not> w > (32768 :: u16)" for w
  proof -
    have "unat w \<noteq> unat (32768 :: u16)" using that(1) by (metis word_unat_eq_iff)
    with that(2) show ?thesis by (simp add: word_less_nat_alt)
  qed
  then show "conn_step (sane_msg p) est c (snd (sccrp_window p c))"
    by (auto simp: sccrp_window_def conn_step_def snd_inv_def sane_msg_def Let_def
        dest!: last_attr_SomeD split: option.split)
  show "c_state (snd (sccrp_window p c)) = c_state c"
    by (simp add: sccrp_window_def split: option.split)
qed

lemma sccrp_finish_step:
  assumes "c_state c = STATE_WAIT_SCCRP"
    "l2tp_tunnel_checkchallresp io 2 c (last_attr Challenge_Response p) \<Longrightarrow> est"
  shows "conn_step sane est c (sccrp_finish io p c)"
proof -
  obtain ok1 c1 where 1: "l2tp_tunnel_storechall c (last_attr Challenge p) = (ok1, c1)" by fastforce
  obtain ok2 c2 where 2: "l2tp_send_SCCCN io c1 = (ok2, c2)" by fastforce
  obtain ok3 c3 where 3: "l2tp_tunnel_connect io c2 = (ok3, c3)" by fastforce
  have s1: "same_part c c1" using same_part_storechall [of c "last_attr Challenge p"] 1 by simp
  have s2: "same_part c c2" using same_part_trans [OF s1 same_part_SCCCN [of c1 io]] 2 by simp
  have "conn_step sane est c2 c3" if est using connect_step [of c2 est sane io] that 3 s2 assms by (simp add: part_defs)
  then have s3: "conn_step sane est c c3" if est
    using that by (blast intro: conn_step_trans [OF same_part_step [OF s2]])
  note d = disconnect_after [OF same_part_refl] disconnect_after [OF s1] disconnect_after [OF s2]
  have d3: "conn_step sane est c (snd (l2tp_tunnel_disconnect io res err c3))" if est for res err
    using that by (blast intro: conn_step_trans [OF s3 disconnect_step])
  show ?thesis using 1 2 3 s3 d3 assms(2) by (simp add: sccrp_finish_def d)
qed

lemma checkchallresp_cong:
  "c_secret c' = c_secret c \<Longrightarrow> c_challenge c' = c_challenge c \<Longrightarrow>
   l2tp_tunnel_checkchallresp io ident c' a = l2tp_tunnel_checkchallresp io ident c a"
  by (simp add: l2tp_tunnel_checkchallresp_def split: option.split)

lemma recv_SCCRP_step:
  assumes "l2tp_tunnel_checkchallresp io 2 c (last_attr Challenge_Response p) \<Longrightarrow> est"
  shows "conn_step (sane_msg p) est c (l2tp_recv_SCCRP io p c)"
proof (cases "c_state c = STATE_WAIT_SCCRP \<and> last_attr Assigned_Tunnel_ID p \<noteq> None")
  case True
  then obtain a where a: "last_attr Assigned_Tunnel_ID p = Some a" "c_state c = STATE_WAIT_SCCRP" by blast
  define c1 where "c1 = c\<lparr>c_peer_tid := attr_uint16 a\<rparr>"
  have c1: "same_part c c1" by (simp add: c1_def part_defs)
  obtain ok c2 where w: "sccrp_window p c1 = (ok, c2)" by fastforce
  have c2: "conn_step (sane_msg p) est c c2" "c_state c2 = STATE_WAIT_SCCRP"
    using conn_step_trans [OF same_part_step [OF c1] sccrp_window_step(1) [where c = c1 and p = p]] sccrp_window_step(2) [of p c1]
      w a(2) by (simp_all add: c1_def)
  have "c_secret c2 = c_secret c" "c_challenge c2 = c_challenge c"
    using w by (auto simp: sccrp_window_def c1_def split: option.splits if_splits)
  from sccrp_finish_step [OF c2(2), of io p est] checkchallresp_cong [OF this, of io 2] assms
  have fin: "conn_step (sane_msg p) est c2 (sccrp_finish io p c2)" by simp
  note d = disconnect_after [OF c1] conn_step_trans [OF c2(1) disconnect_step] conn_step_trans [OF c2(1) fin]
  show ?thesis
    using a w by (simp add: l2tp_recv_SCCRP_def Let_def d flip: c1_def split: option.split)
next
  case False
  then show ?thesis
    by (auto simp: l2tp_recv_SCCRP_def intro: disconnect_step)
qed

lemma recv_SCCCN_step:
  assumes "l2tp_tunnel_checkchallresp io 3 c (last_attr Challenge_Response p) \<Longrightarrow> est"
  shows "conn_step sane est c (l2tp_recv_SCCCN io p c)"
proof (cases "c_state c = STATE_WAIT_SCCCN")
  case True
  define c1 where "c1 = snd (l2tp_tunnel_storechall c None)"
  have c1: "same_part c c1" by (simp add: c1_def)
  obtain ok c2 where t: "l2tp_tunnel_connect io c1 = (ok, c2)" by fastforce
  have c2: "conn_step sane est c c2" if est
    using conn_step_trans [OF same_part_step [OF c1] connect_step [of c1 est sane io]] that t True c1
    by (simp add: part_defs)
  have d2: "conn_step sane est c (snd (l2tp_tunnel_disconnect io res err c2))" if est for res err
    using that by (blast intro: conn_step_trans [OF c2 disconnect_step])
  show ?thesis
    using True t c2 d2 assms
    by (simp add: l2tp_recv_SCCCN_def Let_def disconnect_step flip: c1_def)
qed (simp add: l2tp_recv_SCCCN_def)

lemma finwait_step:
  assumes "same_part c d"
  shows "conn_step sane est c (l2tp_tunnel_finwait io d)"
proof (cases "c_state d \<in> {STATE_WAIT_SCCRP, STATE_WAIT_SCCCN, STATE_ESTB, STATE_FIN}")
  case True
  define d1 where "d1 = (conn_finishing d)\<lparr>c_state := STATE_FIN_WAIT, timeout_tpd := False, hello_tpd := False\<rparr>"
  define d3 where "d3 = (l2tp_tunnel_free_sessions (l2tp_tunnel_clear_sendqueue d1))
      \<lparr>timeout_period := finwait_period (nat (c_max_retransmit d)) (c_rtimeout d) (c_rtimeout_cap d) 0\<rparr>"
  have "same_part (c\<lparr>c_state := STATE_FIN_WAIT\<rparr>) d1"
    using assms same_part_finishing [of d] by (simp add: d1_def part_defs)
  also have "same_part d1 (l2tp_tunnel_free_sessions (l2tp_tunnel_clear_sendqueue d1))"
    by (rule same_part_trans [OF same_part_clear(1) same_part_free_sessions])
  also have "same_part (l2tp_tunnel_free_sessions (l2tp_tunnel_clear_sendqueue d1)) d3"
    by (simp add: d3_def part_defs)
  finally have 3: "same_part (c\<lparr>c_state := STATE_FIN_WAIT\<rparr>) d3" .
  then have t: "same_part (c\<lparr>c_state := STATE_FIN_WAIT\<rparr>) (d3\<lparr>timeout_tpd := True\<rparr>)" by (simp add: part_defs)
  have up: "state_rank (c_state c) \<le> state_rank STATE_FIN_WAIT" "tunnel_state STATE_FIN_WAIT"
    using True assms by (auto simp: part_defs tunnel_state_def)
  have "conn_step sane est c (l2tp_tunnel_free (snd (l2tp_send_ZLB io d3)))"
    by (rule conn_step_free_of [OF same_part_trans [OF 3 same_part_ZLB] up(2)])
  with conn_step_to [OF t up, of est sane] True show ?thesis
    by (simp add: l2tp_tunnel_finwait_def Let_def flip: d1_def d3_def)
qed (use assms in \<open>simp add: l2tp_tunnel_finwait_def same_part_step\<close>)

lemma recv_StopCCN_step: "conn_step sane est c (l2tp_recv_StopCCN io p c)"
  by (auto simp: l2tp_recv_StopCCN_def Let_def part_defs intro!: finwait_step split: option.split)

lemma recv_HELLO_step: "conn_step sane est c (l2tp_recv_HELLO p c)"
  by (rule same_part_step) (simp add: l2tp_recv_HELLO_def part_defs)

text \<open>Calls.\<close>

lemma same_part_incall [simp]: "same_part c (snd (l2tp_session_incall_reply io sid c))"
proof -
  obtain ok c1 where 1: "l2tp_send_ICRP io sid (sess_timer True sid c) = (ok, c1)" by fastforce
  have "same_part c c1"
    using same_part_trans [OF same_part_upd same_part_messages(5), of c io sid sid] 1 by (metis snd_conv)
  then show ?thesis using 1 by (auto simp: l2tp_session_incall_reply_def intro: same_part_trans)
qed

lemma same_part_outcall [simp]: "same_part c (snd (l2tp_session_outcall_reply io sid c))"
proof -
  obtain ok1 c1 where 1: "l2tp_send_OCRP io sid (sess_timer True sid c) = (ok1, c1)" by fastforce
  obtain ok2 c2 where 2: "l2tp_send_OCCN io sid c1 = (ok2, c2)" by fastforce
  obtain ok3 c3 where 3: "l2tp_session_connect io sid c2 = (ok3, c3)" by fastforce
  have s1: "same_part c c1"
    using same_part_trans [OF same_part_upd same_part_messages(8), of c io sid sid] 1 by (metis snd_conv)
  have s2: "same_part c c2" using same_part_trans [OF s1 same_part_messages(9) [of c1 io sid]] 2 by simp
  have s3: "same_part c c3" using same_part_trans [OF s2 same_part_connect [of c2 io sid]] 3 by simp
  from s1 s2 s3 show ?thesis
    using 1 2 3 by (auto simp: l2tp_session_outcall_reply_def intro: same_part_trans)
qed

lemma same_part_place_call [simp]: "same_part c (snd (l2tp_session_place_call io sid c))"
proof -
  let ?c0 = "sess_timer True sid c"
  have "same_part c (snd (l2tp_send_OCRQ io sid ?c0))" "same_part c (snd (l2tp_send_ICRQ io sid ?c0))"
    by (rule same_part_trans [OF same_part_upd same_part_messages(7)],
        rule same_part_trans [OF same_part_upd same_part_messages(4)])
  then show ?thesis
    by (auto simp: l2tp_session_place_call_def Let_def intro: same_part_trans split: option.split prod.splits)
qed

lemma recv_call_request_step:
  assumes "tunnel_state (c_state c)" "\<And>sid d. same_part d (snd (answer sid d))"
  shows "conn_step sane est c (recv_call_request io known answer p c)"
proof (cases "call_refused io c \<or> last_attr Assigned_Session_ID p = None \<or> l2tp_tunnel_alloc_session io c = None")
  case True
  then show ?thesis
    using same_part_step [OF same_part_messages(3) [of c io]]
    by (auto simp: recv_call_request_def Let_def split: option.split)
next
  case False
  then obtain a sid c1 where n: "last_attr Assigned_Session_ID p = Some a" "l2tp_tunnel_alloc_session io c = Some (sid, c1)"
    by auto
  define c2 where "c2 = upd_sess sid (\<lambda>s. s\<lparr>s_peer_sid := attr_uint16 a\<rparr>) c1"
  obtain ok c3 where ans: "answer sid c2 = (ok, c3)" by fastforce
  have s2: "same_part c c2"
    unfolding c2_def by (rule same_part_trans [OF same_part_alloc_session [OF n(2)] same_part_upd])
  have s3: "same_part c c3" using same_part_trans [OF s2 assms(2) [of c2 sid]] ans by simp
  note f = session_free_after [OF assms(1) same_part_trans [OF s2 same_part_messages(3)]]
    session_free_after [OF assms(1) same_part_trans [OF s3 same_part_messages(3)]]
  show ?thesis
    using False n ans same_part_step [OF s3] by (simp add: recv_call_request_def Let_def f flip: c2_def)
qed

lemma recv_call_reply_step:
  assumes "tunnel_state (c_state c)" "\<And>d. same_part c d \<Longrightarrow> conn_step sane est c (finish d)"
  shows "conn_step sane est c (recv_call_reply io sid p finish c)"
  using assms(2) [OF same_part_upd] session_disconnect_step [OF assms(1) same_part_upd]
    session_disconnect_step [OF assms(1) same_part_refl]
  by (simp add: recv_call_reply_def Let_def split: option.split)

lemma recv_ICRP_step:
  assumes "tunnel_state (c_state c)"
  shows "conn_step sane est c (l2tp_recv_ICRP io sid p c)"
proof -
  have "conn_step sane est c (let (ok, c2) = l2tp_send_ICCN io sid d
          in if \<not> ok then l2tp_session_disconnect io sid 2 6 c2
             else (let (ok, c3) = l2tp_session_connect io sid c2
                   in if \<not> ok then l2tp_session_disconnect io sid 2 6 c3 else c3))" if d: "same_part c d" for d
  proof -
    obtain ok2 c2 where 2: "l2tp_send_ICCN io sid d = (ok2, c2)" by fastforce
    obtain ok3 c3 where 3: "l2tp_session_connect io sid c2 = (ok3, c3)" by fastforce
    have s2: "same_part c c2" using same_part_trans [OF d same_part_messages(6) [of d io sid]] 2 by simp
    have s3: "same_part c c3" using same_part_trans [OF s2 same_part_connect [of c2 io sid]] 3 by simp
    show ?thesis
      using 2 3 same_part_step [OF s3] session_disconnect_step [OF assms s2] session_disconnect_step [OF assms s3]
      by simp
  qed
  then show ?thesis by (simp add: l2tp_recv_ICRP_def recv_call_reply_step [OF assms])
qed

lemma recv_OCRP_step: "tunnel_state (c_state c) \<Longrightarrow> conn_step sane est c (l2tp_recv_OCRP io sid p c)"
  by (simp add: l2tp_recv_OCRP_def recv_call_reply_step same_part_step [OF same_part_trans [OF _ same_part_upd]])

lemma recv_call_connected_step:
  assumes "tunnel_state (c_state c)"
  shows "conn_step sane est c (recv_call_connected io known sid p c)"
proof -
  define c1 where "c1 = (if last_attr Sequencing_Required p \<noteq> None \<and> conf_dataseq io \<noteq> L2TP_DATASEQ_DENY
      then upd_sess sid (\<lambda>s. s\<lparr>s_send_seq := True\<rparr>) c else c)"
  have s1: "same_part c c1" by (simp add: c1_def)
  obtain ok c2 where 2: "l2tp_session_connect io sid c1 = (ok, c2)" by fastforce
  have s2: "same_part c c2" using same_part_trans [OF s1 same_part_connect [of c1 io sid]] 2 by simp
  show ?thesis
    unfolding recv_call_connected_def Let_def c1_def [symmetric]
    using 2 same_part_step [OF s2] session_disconnect_step [OF assms s1] session_disconnect_step [OF assms s2]
    by simp
qed

lemma recv_CDN_step:
  assumes "tunnel_state (c_state c)"
  shows "conn_step sane est c (l2tp_recv_CDN io sid p c)"
proof -
  have "conn_step sane est c (l2tp_session_free io sid (l2tp_session_clear_sendqueue sid d))" if "same_part c d" for d
    by (rule session_free_after [OF assms same_part_trans [OF that same_part_clear(2)]])
  then show ?thesis by (auto simp: l2tp_recv_CDN_def Let_def split: option.split)
qed

lemma session_recv_step:
  "tunnel_state (c_state c) \<Longrightarrow> conn_step sane est c (l2tp_session_recv io sid p msg_type mandatory c)"
  by (simp add: l2tp_session_recv_def l2tp_recv_OCCN_def l2tp_recv_ICCN_def recv_OCRP_step recv_ICRP_step
      recv_call_connected_step recv_CDN_step session_disconnect_step)

lemma recv_request_steps:
  assumes "tunnel_state (c_state c)"
  shows "conn_step sane est c (l2tp_recv_ICRQ io p c)" "conn_step sane est c (l2tp_recv_OCRQ io p c)"
  using recv_call_request_step [OF assms same_part_incall, of sane est io]
    recv_call_request_step [OF assms same_part_outcall, of sane est io]
  by (simp_all add: l2tp_recv_ICRQ_def l2tp_recv_OCRQ_def)

text \<open>A message that carries the right answer to the challenge, an SCCRP or an SCCCN, made for messages of its type.\<close>

definition auth_msg :: "l2tp_io \<Rightarrow> l2tp_packet_t \<Rightarrow> l2tp_conn_t \<Rightarrow> bool" where
  "auth_msg io p c \<longleftrightarrow> (\<exists>ident \<in> {2, 3}. attr_uint16 (hd (pk_attrs p)) = ucast ident \<and>
     l2tp_tunnel_checkchallresp io ident c (last_attr Challenge_Response p))"

lemma tunnel_recv_step:
  "tunnel_state (c_state c) \<Longrightarrow> msg_type = attr_uint16 (hd (pk_attrs p)) \<Longrightarrow>
    conn_step (sane_msg p) (auth_msg io p c) c (l2tp_tunnel_recv io p msg_type mandatory c)"
  by (simp add: l2tp_tunnel_recv_def recv_SCCRP_step recv_SCCCN_step auth_msg_def recv_StopCCN_step recv_HELLO_step
      recv_request_steps disconnect_step)

text \<open>So the dispatch of messages meets the contract of the transport.\<close>

lemma dispatch_step:
  "tunnel_state (c_state c) \<Longrightarrow> conn_step (sane_msg p) (auth_msg io p c) c (l2tp_dispatch io p c)"
  by (simp add: l2tp_dispatch_def Let_def tunnel_recv_step session_recv_step split: option.split)

lemma conn_step_mono: "conn_step sane est c c' \<Longrightarrow> est \<longrightarrow> est' \<Longrightarrow> conn_step sane est' c c'"
  by (auto simp: conn_step_def)

interpretation dispatch: l2tp_handler "l2tp_dispatch io" for io
  using conn_step_mono [OF dispatch_step] by unfold_locales (simp add: conn_live_def)

text \<open>What a tunnel does of its own accord.\<close>

inductive l2tp_own :: "l2tp_conn_t \<Rightarrow> l2tp_conn_t \<Rightarrow> bool" where
  start_SCCRQ: "c_state c = STATE_INIT \<Longrightarrow> l2tp_own c (l2tp_send_SCCRQ io c)"
| start_SCCRP: "c_state c = STATE_INIT \<Longrightarrow> l2tp_own c (l2tp_send_SCCRP io c)"
| hello: "hello_tpd c \<Longrightarrow> l2tp_own c (l2tp_send_HELLO io c)"
| timeout: "l2tp_own c (l2tp_tunnel_timeout io c)"
| finwait_timeout: "c_state c = STATE_FIN_WAIT \<Longrightarrow> l2tp_own c (l2tp_tunnel_finwait_timeout c)"
| close: "l2tp_own c (l2tp_conn_close io c)"
| session_timeout: "get_sess c sid \<noteq> None \<Longrightarrow> l2tp_own c (l2tp_session_timeout io sid c)"
| apses_finished: "l2tp_own c (l2tp_session_apses_finished io sid c)"
| create_session: "l2tp_own c (l2tp_tunnel_create_session io c)"

lemma send_HELLO_step:
  assumes "tunnel_state (c_state c)"
  shows "conn_step sane est c (l2tp_send_HELLO io c)"
proof (cases "pack_new io c (c_hide_avps c) 6")
  case (Some p)
  obtain res c1 where q: "l2tp_tunnel_push_sendqueue io (snd (l2tp_tunnel_send p c)) = (res, c1)" by fastforce
  have 1: "conn_step sane est c c1"
    using conn_step_trans [OF same_part_step [OF same_part_send [of c p]] conn_step_push [of sane est _ io]] q by simp
  have "conn_step sane est c (l2tp_tunnel_free c1)"
    by (rule conn_step_trans [OF 1 conn_step_free [OF conn_step_tunnel [OF assms 1]]])
  with 1 Some q show ?thesis by (simp add: l2tp_send_HELLO_def)
qed (simp add: l2tp_send_HELLO_def conn_step_free assms)

lemma create_session_step:
  assumes "tunnel_state (c_state c)"
  shows "conn_step sane est c (l2tp_tunnel_create_session io c)"
proof (cases "c_state c \<noteq> STATE_ESTB \<or> l2tp_tunnel_alloc_session io c = None")
  case False
  then obtain sid c1 where a: "c_state c = STATE_ESTB" "l2tp_tunnel_alloc_session io c = Some (sid, c1)" by auto
  obtain ok c2 where 2: "l2tp_session_place_call io sid c1 = (ok, c2)" by fastforce
  obtain res c3 where 3: "l2tp_tunnel_push_sendqueue io c2 = (res, c3)" by fastforce
  have s2: "same_part c c2"
    using same_part_trans [OF same_part_alloc_session [OF a(2)] same_part_place_call [of c1 io sid]] 2 by simp
  have s3: "conn_step sane est c c3"
    using conn_step_trans [OF same_part_step [OF s2] conn_step_push [of sane est c2 io]] 3 by simp
  have "conn_step sane est c (l2tp_session_free io sid c3)"
    by (rule conn_step_trans [OF s3 session_free_step [OF conn_step_tunnel [OF assms s3]]])
  with s3 session_free_after [OF assms s2] a 2 3 show ?thesis by (simp add: l2tp_tunnel_create_session_def)
qed (auto simp: l2tp_tunnel_create_session_def)

lemma own_step:
  assumes "tunnel_state (c_state c)" "l2tp_own c c'"
  shows "conn_step sane est c c'"
  using assms(2)
proof cases
  case (start_SCCRQ io)
  with sccr_finish_step [OF assms(1), of STATE_WAIT_SCCRP] show ?thesis
    by (simp add: l2tp_send_SCCRQ_def tunnel_state_def)
next
  case (start_SCCRP io)
  with sccr_finish_step [OF assms(1), of STATE_WAIT_SCCCN] show ?thesis
    by (simp add: l2tp_send_SCCRP_def tunnel_state_def)
next
  case (hello io)
  with send_HELLO_step [OF assms(1)] show ?thesis by simp
next
  case (timeout io)
  have "conn_step sane est c (c\<lparr>timeout_tpd := False\<rparr>)" by (rule same_part_step) (simp add: part_defs)
  from conn_step_trans [OF this disconnect_push_step] assms(1) timeout show ?thesis
    by (simp add: l2tp_tunnel_timeout_def)
next
  case finwait_timeout
  with assms(1) conn_step_free_of [of "c_state c" c "c\<lparr>timeout_tpd := False\<rparr>"] show ?thesis
    by (simp add: l2tp_tunnel_finwait_timeout_def part_defs)
next
  case (close io)
  with disconnect_push_step [OF assms(1)] show ?thesis by (simp add: l2tp_conn_close_def)
next
  case (session_timeout sid io)
  with session_disconnect_push_step [OF assms(1) same_part_upd] show ?thesis
    by (simp add: l2tp_session_timeout_def)
next
  case (apses_finished io sid)
  with session_disconnect_push_step [OF assms(1) same_part_refl] show ?thesis
    by (simp add: l2tp_session_apses_finished_def split: option.split)
next
  case (create_session io)
  with create_session_step [OF assms(1)] show ?thesis by simp
qed

end
