(* ===== verification/L2tp_Sessions.thy ===== *)
theory L2tp_Sessions
  imports L2tp_Tunnel
begin

text \<open>
  The book-keeping of an L2TP tunnel: the search tree of the sessions, their number, the statistics and the
  links between sessions and queued messages agree in every state a tunnel can reach. The statistics
  count a tunnel once, by its state, and every session of the tunnel once.
\<close>

section \<open>The invariant\<close>

definition sess_num :: "(l2tp_state \<Rightarrow> bool) \<Rightarrow> (u16 \<times> l2tp_sess_t) list \<Rightarrow> int" where
  "sess_num P ss = int (length (filter (\<lambda>(k, s). P (s_state1 s)) ss))"

definition sess_entry_ok :: "u16 \<times> l2tp_sess_t \<Rightarrow> bool" where
  "sess_entry_ok = (\<lambda>(k, s). s_sid s = k \<and> k \<noteq> 0 \<and> sess_live s)"

text \<open>The tree \<open>ss\<close> and the counters.\<close>

definition tree_ok :: "(u16 \<times> l2tp_sess_t) list \<Rightarrow> l2tp_conn_t \<Rightarrow> bool" where
  "tree_ok ss c \<longleftrightarrow> distinct (map fst ss) \<and> (\<forall>e \<in> set ss. sess_entry_ok e) \<and> sess_count c = length ss \<and>
     stat_sess_starting c = sess_num (\<lambda>st. st \<noteq> STATE_ESTB) ss \<and>
     stat_sess_active c = sess_num (\<lambda>st. st = STATE_ESTB) ss"

text \<open>The send queue: its length, and only sessions in the tree hold messages.\<close>

definition queue_ok :: "(u16 \<times> l2tp_sess_t) list \<Rightarrow> l2tp_conn_t \<Rightarrow> bool" where
  "queue_ok ss c \<longleftrightarrow> send_queue_len c = length (send_queue c) \<and>
     (\<forall>(e, p) \<in> set (send_queue c). \<forall>k. e = Some k \<longrightarrow> k \<in> fst ` set ss)"

text \<open>The tunnel itself is counted once, and has no sessions once it is going down.\<close>

definition conn_ok :: "l2tp_conn_t \<Rightarrow> bool" where
  "conn_ok c \<longleftrightarrow>
     stat_conn_starting c = of_bool (c_state c \<in> {STATE_INIT, STATE_WAIT_SCCRP, STATE_WAIT_SCCCN}) \<and>
     stat_conn_active c = of_bool (c_state c = STATE_ESTB) \<and>
     stat_conn_finishing c = of_bool (c_state c \<in> {STATE_FIN, STATE_FIN_WAIT, STATE_CLOSE})"

definition book_ok :: "l2tp_conn_t \<Rightarrow> bool" where
  "book_ok c \<longleftrightarrow> tree_ok (c_sessions c) c \<and> queue_ok (c_sessions c) c \<and> conn_ok c \<and> tunnel_state (c_state c) \<and>
     (c_state c \<in> {STATE_FIN, STATE_FIN_WAIT, STATE_CLOSE} \<longrightarrow> c_sessions c = [])"

section \<open>Counting\<close>

lemma sess_num_simps [simp]:
  "sess_num P [] = 0" "sess_num P ((k, s) # ss) = of_bool (P (s_state1 s)) + sess_num P ss"
  by (simp_all add: sess_num_def)

lemma sess_num_append: "sess_num P (xs @ ys) = sess_num P xs + sess_num P ys"
  by (simp add: sess_num_def)

lemma sess_num_map_entry:
  assumes "distinct (map fst ss)" "map_of ss k = Some s"
  shows "sess_num P (AList.map_entry k f ss) =
    sess_num P ss - of_bool (P (s_state1 s)) + of_bool (P (s_state1 (f s)))"
  using assms
proof (induction ss)
  case (Cons e ss)
  obtain k' s' where e: "e = (k', s')" by fastforce
  show ?case
  proof (cases "k' = k")
    case True
    with Cons.prems e have "k \<notin> set (map fst ss)" "s' = s" by auto
    with True e show ?thesis by simp
  qed (use Cons e in simp)
qed simp

lemma delete_absent: "k \<notin> fst ` set ss \<Longrightarrow> AList.delete k ss = ss"
  by (induction ss) (auto simp: AList.delete_eq)

lemma sess_num_delete:
  assumes "distinct (map fst ss)" "map_of ss k = Some s"
  shows "sess_num P (AList.delete k ss) = sess_num P ss - of_bool (P (s_state1 s))"
    "length (AList.delete k ss) = length ss - 1"
  using assms
proof (induction ss)
  case (Cons e ss)
  obtain k' s' where e: "e = (k', s')" by fastforce
  {
    case 1
    then show ?case
      using Cons.IH(1) e delete_absent [of k ss] by (cases "k' = k") (auto simp: AList.delete_eq)
  next
    case 2
    then have "k' \<noteq> k \<Longrightarrow> ss \<noteq> []" using e by auto
    with 2 show ?case
      using Cons.IH(2) e delete_absent [of k ss] by (cases "k' = k") (auto simp: AList.delete_eq)
  }
qed simp_all

lemma update_fresh: "map_of ss k = None \<Longrightarrow> AList.update k s ss = ss @ [(k, s)]"
  by (induction ss) (auto split: if_splits)

lemma map_entry_fst [simp]: "map fst (AList.map_entry k f ss) = map fst ss"
  by (induction ss) (auto split: prod.splits)

lemma map_entry_fst_set [simp]: "fst ` set (AList.map_entry k f ss) = fst ` set ss"
  by (metis map_entry_fst set_map)

lemma map_of_map_entry: "map_of (AList.map_entry k f ss) k' = (if k' = k then map_option f (map_of ss k) else map_of ss k')"
  by (induction ss) auto

lemma map_entry_absent: "map_of ss k = None \<Longrightarrow> AList.map_entry k f ss = ss"
  by (induction ss) (auto split: if_splits)

section \<open>Queueing and sending\<close>

text \<open>The operations that leave the sessions and counters alone and keep the send queue in order.\<close>

definition tree_part :: "l2tp_conn_t \<Rightarrow> (u16 \<times> l2tp_sess_t) list \<times> nat \<times> int \<times> int \<times> int \<times> int \<times> int \<times> l2tp_state" where
  "tree_part c = (c_sessions c, sess_count c, stat_sess_starting c, stat_sess_active c,
     stat_conn_starting c, stat_conn_active c, stat_conn_finishing c, c_state c)"

definition qstep :: "l2tp_conn_t \<Rightarrow> l2tp_conn_t \<Rightarrow> bool" where
  "qstep c c' \<longleftrightarrow> tree_part c' = tree_part c \<and> (queue_ok (c_sessions c) c \<longrightarrow> queue_ok (c_sessions c) c')"

lemma qstep_refl [simp]: "qstep c c"
  by (simp add: qstep_def)

lemma qstep_trans [trans]: "qstep a b \<Longrightarrow> qstep b c \<Longrightarrow> qstep a c"
  by (simp add: qstep_def tree_part_def)

lemma qstep_same:
  "tree_part c' = tree_part c \<Longrightarrow> send_queue c' = send_queue c \<Longrightarrow> send_queue_len c' = send_queue_len c \<Longrightarrow> qstep c c'"
  by (simp add: qstep_def queue_ok_def)

lemma qstep_book: "qstep c c' \<Longrightarrow> book_ok c \<Longrightarrow> book_ok c'"
  by (simp add: qstep_def book_ok_def tree_part_def tree_ok_def conn_ok_def)

lemma qstep_sess: "qstep c c' \<Longrightarrow> c_sessions c' = c_sessions c" "qstep c c' \<Longrightarrow> c_state c' = c_state c"
  by (simp_all add: qstep_def tree_part_def)

lemma qstep_send [simp]: "qstep c (snd (l2tp_tunnel_send p c))"
  by (auto simp: l2tp_tunnel_send_def qstep_def tree_part_def queue_ok_def)

lemma qstep_session_send [simp]: "qstep c (snd (l2tp_session_send sid p c))"
  by (auto simp: l2tp_session_send_def l2tp_tunnel_send_def qstep_def tree_part_def queue_ok_def
      intro!: image_eqI dest: map_of_SomeD split: option.split)

lemma qstep_try_send [simp]: "qstep c (snd (l2tp_session_try_send sid p c))"
  by (simp add: l2tp_session_try_send_def)

lemma qstep_messages [simp]:
  "qstep c (snd (l2tp_send_StopCCN io res err c))"
  "qstep c (snd (l2tp_send_CDN io sid res err c))"
  "qstep c (snd (l2tp_tunnel_send_CDN io sid psid res err c))"
  "qstep c (snd (l2tp_send_ICRQ io sid c))" "qstep c (snd (l2tp_send_ICRP io sid c))"
  "qstep c (snd (l2tp_send_ICCN io sid c))" "qstep c (snd (l2tp_send_OCRQ io sid c))"
  "qstep c (snd (l2tp_send_OCRP io sid c))" "qstep c (snd (l2tp_send_OCCN io sid c))"
  by (simp_all add: l2tp_send_StopCCN_def l2tp_send_CDN_def l2tp_tunnel_send_CDN_def l2tp_send_ICRQ_def
      l2tp_send_ICRP_def l2tp_send_ICCN_def l2tp_send_OCRQ_def l2tp_send_OCRP_def l2tp_send_OCCN_def
      split: option.split)

lemma qstep_clear [simp]: "qstep c (l2tp_tunnel_clear_sendqueue c)" "qstep c (l2tp_session_clear_sendqueue sid c)"
proof -
  have "length (filter (\<lambda>(e, p). e \<noteq> Some sid) q) = length q - length (filter (\<lambda>(e, p). e = Some sid) q)"
    for q :: "(u16 option \<times> l2tp_packet_t) list"
    using sum_length_filter_compl [of "\<lambda>(e, p). e = Some sid" q] by (simp add: case_prod_unfold)
  then show "qstep c (l2tp_session_clear_sendqueue sid c)"
    by (auto simp: l2tp_session_clear_sendqueue_def qstep_def tree_part_def queue_ok_def)
  show "qstep c (l2tp_tunnel_clear_sendqueue c)"
    by (simp add: l2tp_tunnel_clear_sendqueue_def qstep_def tree_part_def queue_ok_def)
qed

lemma qstep_storechall [simp]: "qstep c (snd (l2tp_tunnel_storechall c a))"
  by (simp add: l2tp_tunnel_storechall_def Let_def qstep_same tree_part_def split: option.split)

lemma qstep_genchall [simp]: "qstep c (snd (l2tp_tunnel_genchall io n c p))"
  by (simp add: l2tp_tunnel_genchall_def Let_def qstep_same tree_part_def split: option.split)

lemma qstep_SCCCN [simp]: "qstep c (snd (l2tp_send_SCCCN io c))"
  by (simp add: l2tp_send_SCCCN_def qstep_trans [OF qstep_storechall qstep_send] split: option.split)

lemma qstep_ZLB [simp]: "qstep c (snd (l2tp_send_ZLB io c))"
  by (simp add: l2tp_send_ZLB_def tunnel_xmit_eq Let_def qstep_same tree_part_def split: option.split)

lemma push_loop_qstep: "push_loop io Nr_max c n = (r, c') \<Longrightarrow> qstep c c'"
proof (induction io Nr_max c n arbitrary: r c' rule: push_loop.induct)
  case (1 io Nr_max c n)
  show ?case
  proof (cases "send_queue c = [] \<or> 0 \<le> nsnr_cmp (c_Ns c) Nr_max")
    case True
    with "1.prems" show ?thesis by (auto simp: push_loop.simps [of io Nr_max c n] split: list.splits)
  next
    case False
    then obtain own p ps where q: "send_queue c = (own, p) # ps" "\<not> 0 \<le> nsnr_cmp (c_Ns c) Nr_max"
      by (cases "send_queue c") auto
    obtain ok p' c1 where x: "tunnel_xmit io c (set_Ns (c_Ns c) p) = (ok, p', c1)" by (metis prod_cases3)
    define c2 where "c2 = c1\<lparr>send_queue := ps, rtms_queue := rtms_queue c @ [p'],
        send_queue_len := send_queue_len c - 1, c_Ns := c_Ns c + 1\<rparr>"
    have c1: "c1 = c\<lparr>c_wire := c_wire c1\<rparr>" using x by (auto simp: tunnel_xmit_eq Let_def)
    have s2: "qstep c c2"
      using q(1) by (subst c2_def, subst c1) (auto simp: qstep_def tree_part_def queue_ok_def)
    have s1: "qstep c (c1\<lparr>send_queue := (own, p') # ps\<rparr>)"
      using q(1) by (subst c1) (auto simp: qstep_def tree_part_def queue_ok_def)
    show ?thesis
    proof (cases ok)
      case True
      then have run: "push_loop io Nr_max c2 (n + 1) = (r, c')"
        using "1.prems" q x by (simp add: push_loop.simps [of io Nr_max c n] c2_def)
      from "1.IH" [OF q(1) refl q(2) x [symmetric] refl refl] True run have "qstep c2 c'" by (simp add: c2_def)
      with s2 show ?thesis by (rule qstep_trans)
    next
      case False
      with "1.prems" q x s1 show ?thesis by (simp add: push_loop.simps [of io Nr_max c n])
    qed
  qed
qed

lemma qstep_push [simp]: "qstep c (snd (l2tp_tunnel_push_sendqueue io c))"
proof -
  obtain r c1 where r: "push_loop io (c_peer_Nr c + peer_rcv_wnd_sz c) c 0 = (r, c1)" by fastforce
  have "qstep c1 (c1\<lparr>rtimeout_period := t, rtimeout_tpd := b\<rparr>)" "qstep c1 (c1\<lparr>rtimeout_period := t\<rparr>)" for t b
    by (simp_all add: qstep_same tree_part_def)
  with push_loop_qstep [OF r] r show ?thesis
    by (auto simp: l2tp_tunnel_push_sendqueue_def Let_def intro: qstep_trans split: option.split)
qed

section \<open>Sessions\<close>

lemma map_entry_mem:
  assumes "distinct (map fst ss)" "map_of ss k = Some s" "e \<in> set (AList.map_entry k f ss)"
  shows "e = (k, f s) \<or> e \<in> set ss"
  using assms by (induction ss) (auto split: if_splits)

text \<open>Changing a session of the tree.\<close>

lemma tree_ok_upd:
  assumes "tree_ok ss c" "map_of ss sid = Some s" "s_sid (f s) = s_sid s" "sess_live (f s)"
    and "sess_count c' = sess_count c"
    and "stat_sess_starting c' = stat_sess_starting c - of_bool (s_state1 s \<noteq> STATE_ESTB) + of_bool (s_state1 (f s) \<noteq> STATE_ESTB)"
    and "stat_sess_active c' = stat_sess_active c - of_bool (s_state1 s = STATE_ESTB) + of_bool (s_state1 (f s) = STATE_ESTB)"
  shows "tree_ok (AList.map_entry sid f ss) c'"
proof -
  have d: "distinct (map fst ss)" using assms(1) by (simp add: tree_ok_def)
  have "sess_entry_ok (sid, s)" using assms(1,2) by (auto simp: tree_ok_def dest: map_of_SomeD)
  then have new: "sess_entry_ok (sid, f s)" using assms(3,4) by (simp add: sess_entry_ok_def)
  have "\<forall>e \<in> set (AList.map_entry sid f ss). sess_entry_ok e"
    using map_entry_mem [OF d assms(2)] new assms(1) by (fastforce simp: tree_ok_def)
  moreover have "length (AList.map_entry sid f ss) = length ss"
    by (metis length_map map_entry_fst)
  ultimately show ?thesis
    using assms(1,5-7) by (simp add: tree_ok_def sess_num_map_entry [OF d assms(2)])
qed

lemma upd_sess_book:
  assumes "book_ok c" "\<And>s. s_sid (f s) = s_sid s" "\<And>s. s_state1 (f s) = s_state1 s"
  shows "book_ok (upd_sess sid f c)"
proof (cases "get_sess c sid")
  case None
  with assms(1) show ?thesis by (simp add: upd_sess_def map_entry_absent)
next
  case (Some s)
  have t: "tree_ok (c_sessions c) c" using assms(1) by (simp add: book_ok_def)
  have "sess_live s" using t Some by (auto simp: tree_ok_def sess_entry_ok_def dest!: map_of_SomeD)
  then have "sess_live (f s)" using assms(3) by (simp add: sess_live_def)
  from tree_ok_upd [where f = f and c' = "upd_sess sid f c", OF t Some assms(2) this] assms(1,3) show ?thesis
    by (auto simp: book_ok_def upd_sess_def queue_ok_def conn_ok_def)
qed

lemma upd_sess_state:
  assumes "book_ok c" "get_sess c sid = Some s" "s_state1 s \<noteq> STATE_ESTB"
    "st \<in> {STATE_INIT, STATE_WAIT_ICRP, STATE_WAIT_ICCN, STATE_WAIT_OCRP, STATE_WAIT_OCCN}"
  shows "book_ok (upd_sess sid (\<lambda>s. s\<lparr>s_state1 := st\<rparr>) c)"
proof -
  have t: "tree_ok (c_sessions c) c" using assms(1) by (simp add: book_ok_def)
  have "sess_live (s\<lparr>s_state1 := st\<rparr>)" using assms(4) by (auto simp: sess_live_def)
  with tree_ok_upd [where f = "\<lambda>s. s\<lparr>s_state1 := st\<rparr>" and c' = "upd_sess sid (\<lambda>s. s\<lparr>s_state1 := st\<rparr>) c",
      OF t assms(2)] assms show ?thesis
    by (auto simp: book_ok_def upd_sess_def queue_ok_def conn_ok_def)
qed

text \<open>A new session has an id of its own.\<close>

lemma pick_sid_fresh: "pick_sid rd ss n i = Some w \<Longrightarrow> w \<noteq> 0 \<and> map_of ss w = None"
proof (induction rd ss n i rule: pick_sid.induct)
  case (1 rd ss n i)
  then show ?case by (subst (asm) (2) pick_sid.simps) (auto split: if_splits option.splits)
qed

lemma alloc_session_book:
  assumes "book_ok c" "l2tp_tunnel_alloc_session io c = Some (sid, c')" "conn_live c"
  shows "book_ok c'" "\<exists>s. get_sess c' sid = Some s \<and> s_state1 s = STATE_INIT" "get_sess c sid = None" "sid \<noteq> 0"
    "c_state c' = c_state c"
proof -
  define s where "s = sess_init io c sid"
  have s: "s_sid s = sid" "s_state1 s = STATE_INIT" by (simp_all add: s_def sess_init_def)
  have pick: "pick_sid (io_urandom16 io c) (c_sessions c) 65535 0 = Some sid"
    and c': "c' = c\<lparr>c_sessions := AList.update sid s (c_sessions c), sess_count := sess_count c + 1,
      stat_sess_starting := stat_sess_starting c + 1\<rparr>"
    using assms(2) by (auto simp: l2tp_tunnel_alloc_session_def s_def split: option.splits)
  note fresh = pick_sid_fresh [OF pick]
  have upd: "c_sessions c' = c_sessions c @ [(sid, s)]" using fresh by (simp add: c' update_fresh)
  have "sess_entry_ok (sid, s)" using s fresh by (simp add: sess_entry_ok_def sess_live_def)
  moreover have "sid \<notin> fst ` set (c_sessions c)" using fresh by (auto simp: map_of_eq_None_iff)
  ultimately show "book_ok c'"
    using assms(1,3) s upd unfolding book_ok_def
    by (auto simp: tree_ok_def queue_ok_def conn_ok_def sess_num_append conn_live_def c')
  show "\<exists>s. get_sess c' sid = Some s \<and> s_state1 s = STATE_INIT"
    using fresh s upd by (intro exI [of _ s]) (simp add: map_add_def)
  show "get_sess c sid = None" "sid \<noteq> 0" using fresh by simp_all
  show "c_state c' = c_state c" by (simp add: c')
qed

text \<open>Connecting a session that is still being set up.\<close>

lemma session_connect_book:
  assumes "book_ok c" "get_sess c sid = Some s" "s_state1 s \<noteq> STATE_ESTB"
  shows "book_ok (snd (l2tp_session_connect io sid c))"
proof -
  define c1 where "c1 = upd_sess sid (\<lambda>s. s\<lparr>s_timeout_tpd := False\<rparr>) c"
  define c2 where "c2 = (upd_sess sid (\<lambda>s. s\<lparr>s_state1 := STATE_ESTB\<rparr>) c1)
      \<lparr>c_events := c_events c1 @ [Ctrl_started sid], stat_sess_starting := stat_sess_starting c1 - 1,
       stat_sess_active := stat_sess_active c1 + 1\<rparr>"
  have b1: "book_ok c1" unfolding c1_def by (rule upd_sess_book [OF assms(1)]) simp_all
  have s1: "get_sess c1 sid = Some (s\<lparr>s_timeout_tpd := False\<rparr>)"
    using assms(2) by (simp add: c1_def upd_sess_def map_of_map_entry)
  have t: "tree_ok (c_sessions c1) c1" using b1 by (simp add: book_ok_def)
  from tree_ok_upd [where f = "\<lambda>s. s\<lparr>s_state1 := STATE_ESTB\<rparr>" and c' = c2, OF t s1] assms(3) b1
  have b2: "book_ok c2"
    by (auto simp: book_ok_def c2_def upd_sess_def queue_ok_def conn_ok_def sess_live_def)
  have "book_ok (upd_sess sid (\<lambda>s. s\<lparr>s_apses_ctx := True\<rparr>) c2)"
    by (rule upd_sess_book [OF b2]) simp_all
  then have "book_ok ((upd_sess sid (\<lambda>s. s\<lparr>s_apses_ctx := True\<rparr>) c2)\<lparr>c_events := e\<rparr>)" for e
    by (rule qstep_book [OF qstep_same, rotated -1]) (simp_all add: tree_part_def)
  with b1 b2 show ?thesis
    by (simp add: l2tp_session_connect_def l2tp_session_start_data_channel_def Let_def flip: c1_def c2_def)
qed

section \<open>Freeing and disconnecting\<close>

text \<open>Releasing a session that has been taken out of the tree.\<close>

lemma release_book:
  assumes "tree_ok ((k, s) # ss) c" "queue_ok ((k, s) # ss) c"
  shows "tree_ok ss (sess_release s c)" "queue_ok ss (sess_release s c)"
proof -
  have s: "s_sid s = k" "sess_live s" using assms(1) by (simp_all add: tree_ok_def sess_entry_ok_def)
  show "tree_ok ss (sess_release s c)"
    using assms(1) s(2) by (auto simp: tree_ok_def sess_release_def Let_def)
  have "e = Some j \<Longrightarrow> j \<in> fst ` set ss" if "(e, p) \<in> set (send_queue (sess_release s c))" for e p j
    using that assms(2) s by (fastforce simp: queue_ok_def sess_release_def Let_def split: if_splits)
  moreover have "send_queue_len (sess_release s c) = length (send_queue (sess_release s c))"
    using assms(2) s by (simp add: queue_ok_def sess_release_def Let_def)
  ultimately show "queue_ok ss (sess_release s c)" by (auto simp: queue_ok_def)
qed

lemma release_conn [simp]:
  "c_state (sess_release s c) = c_state c" "conn_ok (sess_release s c) = conn_ok c"
  "c_sessions (sess_release s c) = c_sessions c"
  by (simp_all add: sess_release_def Let_def conn_ok_def)

lemma fold_release_book:
  "tree_ok ss c \<Longrightarrow> queue_ok ss c \<Longrightarrow>
   tree_ok [] (fold sess_release (map snd ss) c) \<and> queue_ok [] (fold sess_release (map snd ss) c)"
proof (induction ss arbitrary: c)
  case (Cons e ss)
  obtain k s where e: "e = (k, s)" by fastforce
  from Cons.IH [OF release_book [OF Cons.prems [unfolded e]]] e show ?case by simp
qed simp

lemma fold_release_conn [simp]:
  "c_state (fold sess_release ss c) = c_state c" "conn_ok (fold sess_release ss c) = conn_ok c"
  "c_sessions (fold sess_release ss c) = c_sessions c"
  by (induction ss arbitrary: c) simp_all

lemma free_sessions_book:
  assumes "tree_ok (c_sessions c) c" "queue_ok (c_sessions c) c"
  shows "tree_ok [] (l2tp_tunnel_free_sessions c)" "queue_ok [] (l2tp_tunnel_free_sessions c)"
    "c_sessions (l2tp_tunnel_free_sessions c) = []" "c_state (l2tp_tunnel_free_sessions c) = c_state c"
    "conn_ok (l2tp_tunnel_free_sessions c) = conn_ok c"
proof -
  have "tree_ok (c_sessions c) (c\<lparr>c_sessions := []\<rparr>)" "queue_ok (c_sessions c) (c\<lparr>c_sessions := []\<rparr>)"
    using assms by (simp_all add: tree_ok_def queue_ok_def)
  from fold_release_book [OF this]
  show "tree_ok [] (l2tp_tunnel_free_sessions c)" "queue_ok [] (l2tp_tunnel_free_sessions c)"
    by (simp_all add: l2tp_tunnel_free_sessions_def)
  have "conn_ok (c\<lparr>c_sessions := []\<rparr>) = conn_ok c" by (simp add: conn_ok_def)
  then show "c_sessions (l2tp_tunnel_free_sessions c) = []" "c_state (l2tp_tunnel_free_sessions c) = c_state c"
    "conn_ok (l2tp_tunnel_free_sessions c) = conn_ok c"
    by (simp_all add: l2tp_tunnel_free_sessions_def)
qed

text \<open>A tunnel that goes down: counted as finishing, without sessions.\<close>

lemma finishing_conn_ok:
  assumes "conn_ok c" "tunnel_state (c_state c)" "st \<in> {STATE_FIN, STATE_FIN_WAIT, STATE_CLOSE}"
  shows "conn_ok ((conn_finishing c)\<lparr>c_state := st\<rparr>)"
  using assms by (cases "c_state c") (auto simp: conn_ok_def conn_finishing_def tunnel_state_def)

lemma going_down_book:
  assumes "tree_ok (c_sessions d) d" "queue_ok (c_sessions d) d" "conn_ok d"
    "c_state d \<in> {STATE_FIN, STATE_FIN_WAIT, STATE_CLOSE}"
  shows "book_ok (l2tp_tunnel_free_sessions d)"
  using free_sessions_book [OF assms(1,2)] assms(3,4) by (auto simp: book_ok_def tunnel_state_def)

lemma tunnel_free_ok:
  assumes "tree_ok (c_sessions c) c" "conn_ok c" "tunnel_state (c_state c)" "c_state c \<noteq> STATE_CLOSE"
  shows "book_ok (l2tp_tunnel_free c)"
proof -
  define d where "d = l2tp_tunnel_clear_recvqueue (l2tp_tunnel_clear_sendqueue
      ((conn_finishing c)\<lparr>c_state := STATE_CLOSE, c_registered := False, timeout_tpd := False,
         rtimeout_tpd := False, hello_tpd := False, rtms_queue := []\<rparr>))"
  have "conn_ok d"
    using finishing_conn_ok [OF assms(2,3), of STATE_CLOSE]
    by (simp add: d_def conn_ok_def l2tp_tunnel_clear_recvqueue_def l2tp_tunnel_clear_sendqueue_def)
  moreover have "tree_ok (c_sessions d) d" "queue_ok (c_sessions d) d" "c_state d = STATE_CLOSE"
    using assms(1)
    by (simp_all add: d_def tree_ok_def queue_ok_def l2tp_tunnel_clear_recvqueue_def
        l2tp_tunnel_clear_sendqueue_def conn_finishing_def)
  ultimately have "book_ok (l2tp_tunnel_free_sessions d)" by (intro going_down_book) simp_all
  moreover have "l2tp_tunnel_free c = l2tp_tunnel_free_sessions d"
    using assms(3,4) by (cases "c_state c") (simp_all add: l2tp_tunnel_free_def d_def tunnel_state_def)
  ultimately show ?thesis by simp
qed

lemma tunnel_free_book: "book_ok c \<Longrightarrow> book_ok (l2tp_tunnel_free c)"
  using tunnel_free_ok [of c] by (cases "c_state c = STATE_CLOSE") (auto simp: book_ok_def l2tp_tunnel_free_def)

lemma disconnect_book:
  assumes "book_ok c"
  shows "book_ok (snd (l2tp_tunnel_disconnect io res err c))"
proof (cases "c_state c \<in> {STATE_INIT, STATE_WAIT_SCCRP, STATE_WAIT_SCCCN, STATE_ESTB}")
  case True
  define c1 where "c1 = l2tp_tunnel_clear_sendqueue (conn_finishing c)"
  obtain ok c2 where stop: "l2tp_send_StopCCN io res err c1 = (ok, c2)" by fastforce
  define c3 where "c3 = c2\<lparr>c_state := STATE_FIN\<rparr>"
  have b: "tree_ok (c_sessions c) c" "conn_ok c" "tunnel_state (c_state c)"
    using assms by (simp_all add: book_ok_def)
  have t1: "tree_ok (c_sessions c1) c1" "queue_ok (c_sessions c1) c1" "c_sessions c1 = c_sessions c"
    using b(1) by (simp_all add: c1_def tree_ok_def queue_ok_def l2tp_tunnel_clear_sendqueue_def conn_finishing_def)
  have q: "qstep c1 c2" using qstep_messages(1) [of c1 io res err] stop by simp
  then have "tree_ok (c_sessions c3) c3" "queue_ok (c_sessions c3) c3"
    using t1 by (simp_all add: qstep_def tree_part_def tree_ok_def queue_ok_def c3_def)
  moreover have "conn_ok c3"
    using finishing_conn_ok [OF b(2,3), of STATE_FIN] q
    by (simp add: qstep_def tree_part_def conn_ok_def c3_def c1_def l2tp_tunnel_clear_sendqueue_def)
  ultimately have d: "book_ok (l2tp_tunnel_free_sessions (c3\<lparr>timeout_tpd := False, hello_tpd := False\<rparr>))"
    and e: "tree_ok (c_sessions c3) c3" "queue_ok (c_sessions c3) c3" "conn_ok c3"
    by (auto intro!: going_down_book simp: tree_ok_def queue_ok_def conn_ok_def c3_def)
  have "book_ok (l2tp_tunnel_free c3)" using e by (intro tunnel_free_ok) (simp_all add: c3_def tunnel_state_def)
  with d True stop show ?thesis
    by (simp add: l2tp_tunnel_disconnect_def Let_def flip: c1_def c3_def)
qed (simp add: l2tp_tunnel_disconnect_def assms)

lemma disconnect_push_book:
  assumes "book_ok c"
  shows "book_ok (snd (l2tp_tunnel_disconnect_push io res err c))"
proof -
  obtain ok c1 where 1: "l2tp_tunnel_disconnect io res err c = (ok, c1)" by fastforce
  obtain r c2 where 2: "l2tp_tunnel_push_sendqueue io c1 = (r, c2)" by fastforce
  have b1: "book_ok c1" using disconnect_book [OF assms, of io res err] 1 by simp
  have b2: "book_ok c2" using qstep_book [OF qstep_push b1, of io] 2 by simp
  from b1 b2 tunnel_free_book [OF b2] 1 2 show ?thesis by (simp add: l2tp_tunnel_disconnect_push_def)
qed

lemma session_free_book:
  assumes "book_ok c"
  shows "book_ok (l2tp_session_free io sid c)"
proof (cases "get_sess c sid")
  case (Some s)
  define d where "d = c\<lparr>c_sessions := AList.delete sid (c_sessions c)\<rparr>"
  define c1 where "c1 = sess_release s d"
  let ?ss = "AList.delete sid (c_sessions c)"
  have t: "tree_ok (c_sessions c) c" "queue_ok (c_sessions c) c" using assms by (simp_all add: book_ok_def)
  have dist: "distinct (map fst (c_sessions c))" using t(1) by (simp add: tree_ok_def)
  have "sess_entry_ok (sid, s)" using t(1) Some by (auto simp: tree_ok_def dest: map_of_SomeD)
  moreover have "distinct (map fst ?ss)" "sid \<notin> fst ` set ?ss" "set ?ss \<subseteq> set (c_sessions c)"
    using dist by (auto simp: AList.delete_eq distinct_map_filter)
  moreover have "c_sessions c \<noteq> []" using Some by auto
  ultimately have tree: "tree_ok ((sid, s) # ?ss) d"
    using t(1) sess_num_delete [OF dist Some] by (auto simp: tree_ok_def d_def)
  have "fst ` set (c_sessions c) \<subseteq> insert sid (fst ` set ?ss)"
    by (auto simp: AList.delete_eq image_iff)
  then have queue: "queue_ok ((sid, s) # ?ss) d" using t(2) by (fastforce simp: queue_ok_def d_def)
  have ss: "c_sessions c1 = ?ss" by (simp add: c1_def d_def)
  have down: "c_state c \<in> {STATE_FIN, STATE_FIN_WAIT, STATE_CLOSE} \<longrightarrow> ?ss = []"
    using assms by (auto simp: book_ok_def)
  have "conn_ok d" "tunnel_state (c_state d)" using assms by (simp_all add: book_ok_def d_def conn_ok_def)
  with release_book [OF tree queue] ss down have b1: "book_ok c1"
    by (auto simp: book_ok_def c1_def d_def)
  with disconnect_push_book [OF b1] Some assms show ?thesis
    by (simp add: l2tp_session_free_def Let_def flip: d_def c1_def)
qed (simp add: l2tp_session_free_def assms)

lemma session_disconnect_book: "book_ok c \<Longrightarrow> book_ok (l2tp_session_disconnect io sid res err c)"
  unfolding l2tp_session_disconnect_def
  by (rule session_free_book) (rule qstep_book [OF qstep_trans [OF qstep_clear(2) qstep_messages(2)]])

lemma session_disconnect_push_book:
  assumes "book_ok c"
  shows "book_ok (l2tp_session_disconnect_push io sid res err c)"
proof -
  obtain ok c1 where 1: "l2tp_send_CDN io sid res err c = (ok, c1)" by fastforce
  have "book_ok c1" using qstep_book [OF qstep_messages(2) assms, of io sid res err] 1 by simp
  with session_free_book qstep_book [OF qstep_push] 1 show ?thesis
    by (simp add: l2tp_session_disconnect_push_def)
qed

lemma finwait_book:
  assumes "book_ok c"
  shows "book_ok (l2tp_tunnel_finwait io c)"
proof (cases "c_state c \<in> {STATE_WAIT_SCCRP, STATE_WAIT_SCCCN, STATE_ESTB, STATE_FIN}")
  case True
  define c1 where "c1 = (conn_finishing c)\<lparr>c_state := STATE_FIN_WAIT, timeout_tpd := False, hello_tpd := False\<rparr>"
  define c3 where "c3 = (l2tp_tunnel_free_sessions (l2tp_tunnel_clear_sendqueue c1))
      \<lparr>timeout_period := finwait_period (nat (c_max_retransmit c)) (c_rtimeout c) (c_rtimeout_cap c) 0\<rparr>"
  have b: "tree_ok (c_sessions c) c" "conn_ok c" "tunnel_state (c_state c)"
    using assms by (simp_all add: book_ok_def)
  have "tree_ok (c_sessions c1) (l2tp_tunnel_clear_sendqueue c1)" "queue_ok (c_sessions c1) (l2tp_tunnel_clear_sendqueue c1)"
    "c_sessions (l2tp_tunnel_clear_sendqueue c1) = c_sessions c1" "c_state (l2tp_tunnel_clear_sendqueue c1) = STATE_FIN_WAIT"
    using b(1) by (simp_all add: c1_def tree_ok_def queue_ok_def l2tp_tunnel_clear_sendqueue_def conn_finishing_def)
  moreover have "conn_ok (l2tp_tunnel_clear_sendqueue c1)"
    using finishing_conn_ok [OF b(2,3), of STATE_FIN_WAIT]
    by (simp add: c1_def conn_ok_def l2tp_tunnel_clear_sendqueue_def)
  ultimately have "book_ok (l2tp_tunnel_free_sessions (l2tp_tunnel_clear_sendqueue c1))"
    by (intro going_down_book) simp_all
  then have b3: "book_ok c3"
    by (rule qstep_book [OF qstep_same, rotated -1]) (simp_all add: c3_def tree_part_def)
  then have "book_ok (c3\<lparr>timeout_tpd := True\<rparr>)"
    by (rule qstep_book [OF qstep_same, rotated -1]) (simp_all add: tree_part_def)
  with tunnel_free_book [OF qstep_book [OF qstep_ZLB b3]] True show ?thesis
    by (simp add: l2tp_tunnel_finwait_def Let_def flip: c1_def c3_def)
qed (simp add: l2tp_tunnel_finwait_def assms)

section \<open>The handlers\<close>

lemma book_same:
  "book_ok c \<Longrightarrow> tree_part c' = tree_part c \<Longrightarrow> send_queue c' = send_queue c \<Longrightarrow> send_queue_len c' = send_queue_len c \<Longrightarrow> book_ok c'"
  by (rule qstep_book [OF qstep_same])

lemma tunnel_connect_book:
  assumes "book_ok c" "c_state c \<in> {STATE_WAIT_SCCRP, STATE_WAIT_SCCCN}"
  shows "book_ok (snd (l2tp_tunnel_connect io c))"
  using assms by (auto simp: l2tp_tunnel_connect_def Let_def book_ok_def tree_ok_def queue_ok_def conn_ok_def tunnel_state_def)

lemma sccr_finish_book:
  assumes "book_ok c" "c_state c = STATE_INIT" "st \<in> {STATE_WAIT_SCCRP, STATE_WAIT_SCCCN}"
  shows "book_ok (sccr_finish io st pack c)"
proof (cases pack; cases "io_chall_len io c")
  fix p w assume pw: "pack = Some p" "io_chall_len io c = Some w"
  obtain r c1 where g: "l2tp_tunnel_genchall io ((w AND 0x007F) + 16) c p = (r, c1)" by fastforce
  have q1: "qstep c c1" using qstep_genchall [of c io "(w AND 0x007F) + 16" p] g by simp
  show ?thesis
  proof (cases r)
    case None
    with pw g tunnel_free_book [OF qstep_book [OF q1 assms(1)]] show ?thesis by (simp add: sccr_finish_def)
  next
    case (Some p')
    obtain res c2 where 2: "l2tp_tunnel_push_sendqueue io (snd (l2tp_tunnel_send p' c1)) = (res, c2)" by fastforce
    have q2: "qstep c c2"
      using qstep_trans [OF qstep_trans [OF q1 qstep_send [of c1 p']] qstep_push [of _ io]] 2 by simp
    have "book_ok (c2\<lparr>c_state := st\<rparr>)"
      using qstep_book [OF q2 assms(1)] qstep_sess(2) [OF q2] assms(2,3)
      by (auto simp: book_ok_def tree_ok_def queue_ok_def conn_ok_def tunnel_state_def)
    with pw g 2 Some tunnel_free_book [OF qstep_book [OF q2 assms(1)]] show ?thesis by (simp add: sccr_finish_def)
  qed
qed (simp_all add: sccr_finish_def tunnel_free_book assms)

lemma sccrp_finish_book:
  assumes "book_ok c" "c_state c = STATE_WAIT_SCCRP"
  shows "book_ok (sccrp_finish io p c)"
proof -
  obtain ok1 c1 where 1: "l2tp_tunnel_storechall c (last_attr Challenge p) = (ok1, c1)" by fastforce
  obtain ok2 c2 where 2: "l2tp_send_SCCCN io c1 = (ok2, c2)" by fastforce
  obtain ok3 c3 where 3: "l2tp_tunnel_connect io c2 = (ok3, c3)" by fastforce
  have q1: "qstep c c1" using qstep_storechall [of c "last_attr Challenge p"] 1 by simp
  have q2: "qstep c c2" using qstep_trans [OF q1 qstep_SCCCN [of c1 io]] 2 by simp
  have b3: "book_ok c3"
    using tunnel_connect_book [OF qstep_book [OF q2 assms(1)], of io] qstep_sess(2) [OF q2] assms(2) 3 by simp
  show ?thesis
    using 1 2 3 b3 disconnect_book [OF assms(1)] disconnect_book [OF qstep_book [OF q1 assms(1)]]
      disconnect_book [OF qstep_book [OF q2 assms(1)]] disconnect_book [OF b3]
    by (simp add: sccrp_finish_def)
qed

lemma recv_SCCRP_book:
  assumes "book_ok c"
  shows "book_ok (l2tp_recv_SCCRP io p c)"
proof (cases "c_state c = STATE_WAIT_SCCRP \<and> last_attr Assigned_Tunnel_ID p \<noteq> None")
  case True
  then obtain a where a: "last_attr Assigned_Tunnel_ID p = Some a" "c_state c = STATE_WAIT_SCCRP" by blast
  define c1 where "c1 = c\<lparr>c_peer_tid := attr_uint16 a\<rparr>"
  obtain ok c2 where w: "sccrp_window p c1 = (ok, c2)" by fastforce
  have b1: "book_ok c1" by (rule book_same [OF assms]) (simp_all add: c1_def tree_part_def)
  have c2: "book_ok c2" "c_state c2 = STATE_WAIT_SCCRP"
    using w a(2) b1
    by (auto simp: sccrp_window_def c1_def tree_part_def intro: book_same split: option.splits if_splits)
  show ?thesis
    using a w disconnect_book [OF b1] disconnect_book [OF c2(1)] sccrp_finish_book [OF c2]
    by (simp add: l2tp_recv_SCCRP_def Let_def flip: c1_def split: option.split)
next
  case False
  then show ?thesis by (auto simp: l2tp_recv_SCCRP_def assms intro: disconnect_book)
qed

lemma recv_SCCCN_book:
  assumes "book_ok c"
  shows "book_ok (l2tp_recv_SCCCN io p c)"
proof (cases "c_state c = STATE_WAIT_SCCCN")
  case True
  define c1 where "c1 = snd (l2tp_tunnel_storechall c None)"
  have q1: "qstep c c1" by (simp add: c1_def)
  obtain ok c2 where t: "l2tp_tunnel_connect io c1 = (ok, c2)" by fastforce
  have b2: "book_ok c2"
    using tunnel_connect_book [OF qstep_book [OF q1 assms], of io] qstep_sess(2) [OF q1] True t by simp
  show ?thesis
    using True t b2 disconnect_book [OF assms] disconnect_book [OF b2]
    by (simp add: l2tp_recv_SCCCN_def Let_def flip: c1_def)
qed (simp add: l2tp_recv_SCCCN_def assms)

lemma recv_StopCCN_book: "book_ok c \<Longrightarrow> book_ok (l2tp_recv_StopCCN io p c)"
  by (auto simp: l2tp_recv_StopCCN_def Let_def tree_part_def intro!: finwait_book intro: book_same split: option.split)

lemma recv_HELLO_book: "book_ok c \<Longrightarrow> book_ok (l2tp_recv_HELLO p c)"
  by (erule book_same) (simp_all add: l2tp_recv_HELLO_def tree_part_def)

text \<open>Answering a call, on a session that has just been allocated.\<close>

abbreviation sess_in :: "l2tp_conn_t \<Rightarrow> u16 \<Rightarrow> (l2tp_state \<Rightarrow> bool) \<Rightarrow> bool" where
  "sess_in c sid P \<equiv> \<exists>s. get_sess c sid = Some s \<and> P (s_state1 s)"

lemma sess_in_upd:
  "sess_in c sid P \<Longrightarrow> (\<And>s. s_state1 (f s) = s_state1 s) \<Longrightarrow> sess_in (upd_sess sid f c) sid P"
  by (auto simp: upd_sess_def map_of_map_entry)

lemma sess_in_qstep: "qstep c c' \<Longrightarrow> sess_in c sid P \<Longrightarrow> sess_in c' sid P"
  using qstep_sess(1) [of c c'] by simp

lemma sess_timer_book: "book_ok c \<Longrightarrow> book_ok (sess_timer b sid c)"
  by (rule upd_sess_book) simp_all

lemma incall_book:
  assumes "book_ok c" "sess_in c sid (\<lambda>st. st \<noteq> STATE_ESTB)"
  shows "book_ok (snd (l2tp_session_incall_reply io sid c))"
proof -
  obtain ok c1 where 1: "l2tp_send_ICRP io sid (sess_timer True sid c) = (ok, c1)" by fastforce
  have q: "qstep (sess_timer True sid c) c1" using qstep_messages(5) [of "sess_timer True sid c" io sid] 1 by simp
  have b1: "book_ok c1" by (rule qstep_book [OF q sess_timer_book [OF assms(1)]])
  have "sess_in c1 sid (\<lambda>st. st \<noteq> STATE_ESTB)"
    by (rule sess_in_qstep [OF q sess_in_upd [OF assms(2)]]) simp
  with upd_sess_state [OF b1, of sid _ STATE_WAIT_ICCN] sess_timer_book [OF b1] 1 assms(1) show ?thesis
    by (auto simp: l2tp_session_incall_reply_def)
qed

lemma outcall_book:
  assumes "book_ok c" "sess_in c sid (\<lambda>st. st \<noteq> STATE_ESTB)"
  shows "book_ok (snd (l2tp_session_outcall_reply io sid c))"
proof -
  obtain ok1 c1 where 1: "l2tp_send_OCRP io sid (sess_timer True sid c) = (ok1, c1)" by fastforce
  obtain ok2 c2 where 2: "l2tp_send_OCCN io sid c1 = (ok2, c2)" by fastforce
  obtain ok3 c3 where 3: "l2tp_session_connect io sid c2 = (ok3, c3)" by fastforce
  have q1: "qstep (sess_timer True sid c) c1" using qstep_messages(8) [of "sess_timer True sid c" io sid] 1 by simp
  have q2: "qstep (sess_timer True sid c) c2" using qstep_trans [OF q1 qstep_messages(9) [of c1 io sid]] 2 by simp
  have b: "book_ok c1" "book_ok c2"
    using qstep_book [OF q1 sess_timer_book [OF assms(1)]] qstep_book [OF q2 sess_timer_book [OF assms(1)]] by simp_all
  have "sess_in c2 sid (\<lambda>st. st \<noteq> STATE_ESTB)"
    by (rule sess_in_qstep [OF q2 sess_in_upd [OF assms(2)]]) simp
  then have b3: "book_ok c3" using session_connect_book [OF b(2), of sid _ io] 3 by auto
  show ?thesis
    using 1 2 3 b b3 sess_timer_book assms(1) by (simp add: l2tp_session_outcall_reply_def)
qed

lemma place_call_book:
  assumes "book_ok c" "sess_in c sid (\<lambda>st. st \<noteq> STATE_ESTB)"
  shows "book_ok (snd (l2tp_session_place_call io sid c))"
proof -
  let ?c0 = "sess_timer True sid c"
  obtain s where s: "get_sess c sid = Some s" using assms(2) by blast
  obtain ok c1 where 1: "(if s_lns_mode s then l2tp_send_OCRQ io sid ?c0 else l2tp_send_ICRQ io sid ?c0) = (ok, c1)"
    by fastforce
  have q: "qstep ?c0 c1"
    by (metis (full_types) 1 qstep_messages(4,7) snd_conv)
  have b1: "book_ok c1" by (rule qstep_book [OF q sess_timer_book [OF assms(1)]])
  have "sess_in c1 sid (\<lambda>st. st \<noteq> STATE_ESTB)"
    by (rule sess_in_qstep [OF q sess_in_upd [OF assms(2)]]) simp
  with upd_sess_state [OF b1, of sid _ "if s_lns_mode s then STATE_WAIT_OCRP else STATE_WAIT_ICRP"]
  have "book_ok (upd_sess sid (\<lambda>t. t\<lparr>s_state1 := (if s_lns_mode s then STATE_WAIT_OCRP else STATE_WAIT_ICRP)\<rparr>) c1)"
    by auto
  with sess_timer_book [OF b1] s 1 assms(1) show ?thesis
    by (simp add: l2tp_session_place_call_def Let_def)
qed

lemma recv_call_request_book:
  assumes "book_ok c" "conn_live c"
    and "\<And>sid d. book_ok d \<Longrightarrow> sess_in d sid (\<lambda>st. st \<noteq> STATE_ESTB) \<Longrightarrow> book_ok (snd (answer sid d))"
  shows "book_ok (recv_call_request io known answer p c)"
proof (cases "call_refused io c \<or> last_attr Assigned_Session_ID p = None \<or> l2tp_tunnel_alloc_session io c = None")
  case True
  then show ?thesis
    using qstep_book [OF qstep_messages(3) assms(1)] assms(1)
    by (auto simp: recv_call_request_def Let_def split: option.split)
next
  case False
  then obtain a sid c1 where n: "last_attr Assigned_Session_ID p = Some a" "l2tp_tunnel_alloc_session io c = Some (sid, c1)"
    by auto
  define c2 where "c2 = upd_sess sid (\<lambda>s. s\<lparr>s_peer_sid := attr_uint16 a\<rparr>) c1"
  obtain ok c3 where ans: "answer sid c2 = (ok, c3)" by fastforce
  note al = alloc_session_book [OF assms(1) n(2) assms(2)]
  have b2: "book_ok c2" unfolding c2_def by (rule upd_sess_book [OF al(1)]) simp_all
  have "sess_in c1 sid (\<lambda>st. st \<noteq> STATE_ESTB)" using al(2) by auto
  then have "sess_in c2 sid (\<lambda>st. st \<noteq> STATE_ESTB)" unfolding c2_def by (rule sess_in_upd) simp
  then have b3: "book_ok c3" using assms(3) [OF b2, of sid] ans by simp
  show ?thesis
    using False n ans b3 session_free_book [OF qstep_book [OF qstep_messages(3) b2]]
      session_free_book [OF qstep_book [OF qstep_messages(3) b3]]
    by (simp add: recv_call_request_def Let_def flip: c2_def)
qed

lemma recv_call_reply_book:
  assumes "book_ok c" "sess_in c sid (\<lambda>st. st = was)" "\<And>d. book_ok d \<Longrightarrow> sess_in d sid (\<lambda>st. st = was) \<Longrightarrow> book_ok (finish d)"
  shows "book_ok (recv_call_reply io sid p finish c)"
proof -
  have u: "book_ok (upd_sess sid (\<lambda>s. s\<lparr>s_peer_sid := w\<rparr>) c)" for w
    by (rule upd_sess_book [OF assms(1)]) simp_all
  have "sess_in (upd_sess sid (\<lambda>s. s\<lparr>s_peer_sid := w\<rparr>) c) sid (\<lambda>st. st = was)" for w
    by (rule sess_in_upd [OF assms(2)]) simp
  with assms(3) [OF u] session_disconnect_book [OF u] session_disconnect_book [OF assms(1)] show ?thesis
    by (simp add: recv_call_reply_def Let_def split: option.split)
qed

lemma recv_ICRP_book:
  assumes "book_ok c"
  shows "book_ok (l2tp_recv_ICRP io sid p c)"
proof -
  have "book_ok (let (ok, c2) = l2tp_send_ICCN io sid d
          in if \<not> ok then l2tp_session_disconnect io sid 2 6 c2
             else (let (ok, c3) = l2tp_session_connect io sid c2
                   in if \<not> ok then l2tp_session_disconnect io sid 2 6 c3 else c3))"
    if d: "book_ok d" "sess_in d sid (\<lambda>st. st = STATE_WAIT_ICRP)" for d
  proof -
    obtain ok2 c2 where 2: "l2tp_send_ICCN io sid d = (ok2, c2)" by fastforce
    obtain ok3 c3 where 3: "l2tp_session_connect io sid c2 = (ok3, c3)" by fastforce
    have q: "qstep d c2" using qstep_messages(6) [of d io sid] 2 by simp
    note b2 = qstep_book [OF q d(1)]
    have b3: "book_ok c3"
      using session_connect_book [OF b2, of sid _ io] sess_in_qstep [OF q d(2)] 3 by auto
    show ?thesis using 2 3 b3 session_disconnect_book [OF b2] session_disconnect_book [OF b3] by simp
  qed
  then show ?thesis
    using assms by (auto simp: l2tp_recv_ICRP_def intro!: recv_call_reply_book [where was = STATE_WAIT_ICRP])
qed

lemma recv_OCRP_book:
  assumes "book_ok c"
  shows "book_ok (l2tp_recv_OCRP io sid p c)"
  using assms upd_sess_state [of _ sid _ STATE_WAIT_OCCN]
  by (auto simp: l2tp_recv_OCRP_def intro!: recv_call_reply_book [where was = STATE_WAIT_OCRP])

lemma recv_call_connected_book:
  assumes "book_ok c" "sess_in c sid (\<lambda>st. st \<noteq> STATE_ESTB)"
  shows "book_ok (recv_call_connected io known sid p c)"
proof -
  define c1 where "c1 = (if last_attr Sequencing_Required p \<noteq> None \<and> conf_dataseq io \<noteq> L2TP_DATASEQ_DENY
      then upd_sess sid (\<lambda>s. s\<lparr>s_send_seq := True\<rparr>) c else c)"
  have b1: "book_ok c1" using assms(1) by (auto simp: c1_def intro: upd_sess_book)
  have s1: "sess_in c1 sid (\<lambda>st. st \<noteq> STATE_ESTB)"
    using sess_in_upd [OF assms(2), of "\<lambda>s. s\<lparr>s_send_seq := True\<rparr>"] assms(2) by (simp add: c1_def)
  obtain ok c2 where 2: "l2tp_session_connect io sid c1 = (ok, c2)" by fastforce
  have b2: "book_ok c2" using session_connect_book [OF b1, of sid _ io] s1 2 by auto
  show ?thesis
    unfolding recv_call_connected_def Let_def c1_def [symmetric]
    using 2 b2 session_disconnect_book [OF b1] session_disconnect_book [OF b2] by simp
qed

lemma recv_CDN_book:
  assumes "book_ok c"
  shows "book_ok (l2tp_recv_CDN io sid p c)"
proof -
  have "book_ok (upd_sess sid (\<lambda>s. s\<lparr>s_peer_sid := w\<rparr>) c)" for w
    by (rule upd_sess_book [OF assms]) simp_all
  then show ?thesis
    using session_free_book qstep_book [OF qstep_clear(2)] assms
    by (auto simp: l2tp_recv_CDN_def Let_def split: option.split)
qed

lemma session_recv_book: "book_ok c \<Longrightarrow> book_ok (l2tp_session_recv io sid p msg_type mandatory c)"
  by (auto simp: l2tp_session_recv_def l2tp_recv_OCCN_def l2tp_recv_ICCN_def
      intro: recv_OCRP_book recv_ICRP_book recv_call_connected_book recv_CDN_book session_disconnect_book)

lemma tunnel_recv_book:
  "book_ok c \<Longrightarrow> conn_live c \<Longrightarrow> book_ok (l2tp_tunnel_recv io p msg_type mandatory c)"
  by (auto simp: l2tp_tunnel_recv_def l2tp_recv_OCRQ_def l2tp_recv_ICRQ_def
      intro!: recv_SCCRP_book recv_SCCCN_book recv_StopCCN_book recv_HELLO_book disconnect_book
        recv_call_request_book incall_book outcall_book)

lemma dispatch_book: "book_ok c \<Longrightarrow> conn_live c \<Longrightarrow> book_ok (l2tp_dispatch io p c)"
  by (simp add: l2tp_dispatch_def Let_def tunnel_recv_book session_recv_book split: option.split)

section \<open>Runs\<close>

lemma store_msg_qstep: "l2tp_tunnel_store_msg p a c = (s, a', c') \<Longrightarrow> qstep c c'"
  by (auto simp: l2tp_tunnel_store_msg_def Let_def tree_part_def intro!: qstep_same split: if_splits)

lemma read_loop_qstep: "read_loop io rs a c = (d, a', c') \<Longrightarrow> qstep c c'"
proof (induction io rs a c arbitrary: d a' c' rule: read_loop.induct)
  case (4 io p rs a c)
  define c1 where "c1 = (if c_port_set c then c
      else c\<lparr>c_peer_addr := (fst (c_peer_addr c), snd (pk_addr p)), c_port_set := True\<rparr>)"
  have q1: "qstep c c1" by (rule qstep_same) (simp_all add: c1_def tree_part_def)
  obtain s b c2 where st: "l2tp_tunnel_store_msg p a c1 = (s, b, c2)" by (metis prod_cases3)
  have q2: "qstep c c2" by (rule qstep_trans [OF q1 store_msg_qstep [OF st]])
  from "4.prems" q1 q2 st show ?case
    using "4.IH"(1) [OF _ c1_def] "4.IH"(2) [OF _ c1_def _ st [symmetric] refl refl] qstep_trans [of c]
    by (auto simp: Let_def simp flip: c1_def split: if_splits)
qed auto

lemma clean_qstep [simp]: "qstep c (snd (l2tp_tunnel_clean_rtmsqueue io c))"
  by (rule qstep_same) (simp_all add: l2tp_tunnel_clean_rtmsqueue_def Let_def tree_part_def)

lemma process_msg_book:
  assumes "book_ok c" "c_state c \<noteq> STATE_CLOSE"
  shows "book_ok (process_msg (l2tp_dispatch io) p c)"
  using assms dispatch_book [OF assms(1), of io p] by (auto simp: process_msg_def conn_live_def book_ok_def)

lemma reply_loop_book:
  assumes "reply_loop (l2tp_dispatch io) i n c = Some (m, c')" "book_ok c"
  shows "book_ok c'"
proof -
  let ?P = "\<lambda>deliver i n c y. deliver = l2tp_dispatch io \<longrightarrow> book_ok c \<longrightarrow> book_ok (snd (y :: nat \<times> l2tp_conn_t))"
  have "?P (l2tp_dispatch io) i n c (m, c')"
  proof (rule reply_loop.raw_induct [where P = ?P, OF _ assms(1)], intro impI)
    fix loop deliver i n c y
    assume IH: "\<And>deliver i n c y. loop deliver i n c = Some y \<Longrightarrow> ?P deliver i n c y"
      and body: "(case recv_queue c ! i of None \<Rightarrow> Some (n, c)
        | Some p \<Rightarrow>
            if c_state c = STATE_CLOSE then Some (n, c)
            else let c1 = c\<lparr>recv_queue := (recv_queue c)[i := None], c_Nr := c_Nr c + 1, c_dequeued := c_dequeued c @ [p]\<rparr>;
                     i' = (i + 1) mod recv_queue_sz c;
                     c2 = process_msg deliver p c1
                 in if i' \<noteq> recv_queue_offt c2 then loop deliver i' (n + 1) c2 else Some (n + 1, c2)) = Some y"
      and d: "deliver = l2tp_dispatch io" and b: "book_ok c"
    show "book_ok (snd y)"
    proof (cases "recv_queue c ! i = None \<or> c_state c = STATE_CLOSE")
      case True
      with body b show ?thesis by (auto split: option.splits)
    next
      case False
      then obtain p where p: "recv_queue c ! i = Some p" "c_state c \<noteq> STATE_CLOSE" by auto
      define c1 where "c1 = c\<lparr>recv_queue := (recv_queue c)[i := None], c_Nr := c_Nr c + 1,
          c_dequeued := c_dequeued c @ [p]\<rparr>"
      have "book_ok c1" by (rule book_same [OF b]) (simp_all add: c1_def tree_part_def)
      then have "book_ok (process_msg deliver p c1)"
        unfolding d using p(2) by (intro process_msg_book) (simp_all add: c1_def)
      with body IH d p show ?thesis
        by (auto simp: Let_def simp flip: c1_def split: if_splits)
    qed
  qed
  with assms(2) show ?thesis by simp
qed

lemma conn_read_book:
  assumes "book_ok c" "l2tp_conn_read io (l2tp_dispatch io) rs c = Some (res, c')"
  shows "book_ok c'"
proof -
  obtain d a c1 where rd: "read_loop io rs False c = (d, a, c1)" by (metis prod_cases3)
  obtain r c2 where cl: "l2tp_tunnel_clean_rtmsqueue io c1 = (r, c2)" by fastforce
  have b1: "book_ok c1" by (rule qstep_book [OF read_loop_qstep [OF rd] assms(1)])
  have b2: "book_ok c2" using qstep_book [OF clean_qstep b1, of io] cl by simp
  have reply: "book_ok c3" if rep: "l2tp_tunnel_reply io (l2tp_dispatch io) a c2 = Some (r', c3)" for r' c3
  proof -
    obtain n c4 where loop: "reply_loop (l2tp_dispatch io) (recv_queue_offt c2) 0 c2 = Some (n, c4)"
      using rep by (cases "reply_loop (l2tp_dispatch io) (recv_queue_offt c2) 0 c2") (auto simp: l2tp_tunnel_reply_def)
    define c5 where "c5 = c4\<lparr>recv_queue_offt := (recv_queue_offt c4 + n) mod recv_queue_sz c4\<rparr>"
    obtain r5 c6 where push: "l2tp_tunnel_push_sendqueue io c5 = (r5, c6)" by fastforce
    have "book_ok c5" by (rule book_same [OF reply_loop_book [OF loop b2]]) (simp_all add: c5_def tree_part_def)
    then have "book_ok c6" using qstep_book [OF qstep_push, of c5 io] push by simp
    with qstep_book [OF qstep_ZLB, of c6 io] rep loop push show ?thesis
      by (auto simp: l2tp_tunnel_reply_def Let_def simp flip: c5_def split: if_splits)
  qed
  from assms(2) rd cl b1 b2 reply tunnel_free_book show ?thesis
    by (auto simp: l2tp_conn_read_def split: if_splits option.splits)
qed

lemma rtimeout_book:
  assumes "book_ok c"
  shows "book_ok (l2tp_rtimeout io c)"
proof (cases "rtms_queue c")
  case (Cons p ps)
  have keep: "book_ok d" if "tree_part d = tree_part c" "send_queue d = send_queue c" "send_queue_len d = send_queue_len c" for d
    using that assms by (rule book_same [rotated])
  have drop: "book_ok (l2tp_tunnel_free d)"
    if "tree_part d = tree_part c" "send_queue d = send_queue c" "send_queue_len d = send_queue_len c" for d
    by (rule tunnel_free_book [OF keep [OF that]])
  show ?thesis
    unfolding l2tp_rtimeout_def Cons list.case Let_def tunnel_xmit_eq prod.case
    by (simp add: drop keep tree_part_def)
qed (simp add: l2tp_rtimeout_def assms)

lemma send_HELLO_book:
  assumes "book_ok c"
  shows "book_ok (l2tp_send_HELLO io c)"
proof (cases "pack_new io c (c_hide_avps c) 6")
  case (Some p)
  obtain res c1 where q: "l2tp_tunnel_push_sendqueue io (snd (l2tp_tunnel_send p c)) = (res, c1)" by fastforce
  have "book_ok c1" using qstep_book [OF qstep_trans [OF qstep_send [of c p] qstep_push [of _ io]] assms] q by simp
  with tunnel_free_book Some q show ?thesis by (simp add: l2tp_send_HELLO_def)
qed (simp add: l2tp_send_HELLO_def tunnel_free_book assms)

lemma create_session_book:
  assumes "book_ok c"
  shows "book_ok (l2tp_tunnel_create_session io c)"
proof (cases "c_state c \<noteq> STATE_ESTB \<or> l2tp_tunnel_alloc_session io c = None")
  case False
  then obtain sid c1 where a: "c_state c = STATE_ESTB" "l2tp_tunnel_alloc_session io c = Some (sid, c1)" by auto
  then have "conn_live c" by (simp add: conn_live_def tunnel_state_def)
  note al = alloc_session_book [OF assms a(2) this]
  obtain ok c2 where 2: "l2tp_session_place_call io sid c1 = (ok, c2)" by fastforce
  obtain res c3 where 3: "l2tp_tunnel_push_sendqueue io c2 = (res, c3)" by fastforce
  have b2: "book_ok c2" using place_call_book [OF al(1), of sid io] al(2) 2 by auto
  have b3: "book_ok c3" using qstep_book [OF qstep_push b2, of io] 3 by simp
  from b3 session_free_book [OF b2] session_free_book [OF b3] a 2 3 show ?thesis
    by (simp add: l2tp_tunnel_create_session_def)
qed (use assms in \<open>auto simp: l2tp_tunnel_create_session_def\<close>)

lemma own_book:
  assumes "book_ok c" "l2tp_own c c'"
  shows "book_ok c'"
  using assms(2)
proof cases
  case (start_SCCRQ io)
  with sccr_finish_book [OF assms(1), of STATE_WAIT_SCCRP] show ?thesis by (simp add: l2tp_send_SCCRQ_def)
next
  case (start_SCCRP io)
  with sccr_finish_book [OF assms(1), of STATE_WAIT_SCCCN] show ?thesis by (simp add: l2tp_send_SCCRP_def)
next
  case (hello io)
  with send_HELLO_book [OF assms(1)] show ?thesis by simp
next
  case (timeout io)
  have "book_ok (c\<lparr>timeout_tpd := False\<rparr>)" by (rule book_same [OF assms(1)]) (simp_all add: tree_part_def)
  with disconnect_push_book timeout show ?thesis by (simp add: l2tp_tunnel_timeout_def)
next
  case finwait_timeout
  have "book_ok (c\<lparr>timeout_tpd := False\<rparr>)" by (rule book_same [OF assms(1)]) (simp_all add: tree_part_def)
  with tunnel_free_book finwait_timeout show ?thesis by (simp add: l2tp_tunnel_finwait_timeout_def)
next
  case (close io)
  with disconnect_push_book [OF assms(1)] show ?thesis by (simp add: l2tp_conn_close_def)
next
  case (session_timeout sid io)
  with session_disconnect_push_book [OF sess_timer_book [OF assms(1)]] show ?thesis
    by (simp add: l2tp_session_timeout_def)
next
  case (apses_finished io sid)
  with session_disconnect_push_book [OF assms(1)] assms(1) show ?thesis
    by (simp add: l2tp_session_apses_finished_def split: option.split)
next
  case (create_session io)
  with create_session_book [OF assms(1)] show ?thesis by simp
qed

lemma step_book:
  assumes "l2tp_step l2tp_own sane l2tp_dispatch c c'" "book_ok c"
  shows "book_ok c'"
  using assms(1)
proof cases
  case own
  then show ?thesis using own_book [OF assms(2)] by simp
next
  case (read rs io res)
  then show ?thesis using conn_read_book [OF assms(2)] by simp
next
  case (timer io)
  then show ?thesis using rtimeout_book [OF assms(2)] by simp
qed

end
