(* ===== verification/L2tp_Ident.thy ===== *)
theory L2tp_Ident
  imports L2tp_Sessions
begin

text \<open>
  What a tunnel keeps for its whole life: its id, the address of its peer (the port may change once), the
  shared secret, its role and the size of its receive window.
\<close>

definition ident :: "l2tp_conn_t \<Rightarrow> u16 \<times> u32 \<times> bytes \<times> bool \<times> nat" where
  "ident c = (c_tid c, fst (c_peer_addr c), c_secret c, c_lns_mode c, recv_queue_sz c)"

named_theorems ident \<open>operations that keep the identity of a tunnel\<close>

lemma ident_fields [simp]:
  "ident (c\<lparr>c_peer_tid := x1\<rparr>) = ident c" "ident (c\<lparr>c_challenge := x2\<rparr>) = ident c" "ident (c\<lparr>c_state := x3\<rparr>) = ident c"
  "ident (c\<lparr>c_registered := b\<rparr>) = ident c" "ident (c\<lparr>timeout_tpd := b\<rparr>) = ident c" "ident (c\<lparr>timeout_period := i\<rparr>) = ident c"
  "ident (c\<lparr>rtimeout_tpd := b\<rparr>) = ident c" "ident (c\<lparr>rtimeout_period := i\<rparr>) = ident c" "ident (c\<lparr>hello_tpd := b\<rparr>) = ident c"
  "ident (c\<lparr>hello_mods := n\<rparr>) = ident c" "ident (c\<lparr>c_retransmit := i\<rparr>) = ident c" "ident (c\<lparr>c_Ns := x1\<rparr>) = ident c"
  "ident (c\<lparr>c_Nr := x1\<rparr>) = ident c" "ident (c\<lparr>c_peer_Nr := x1\<rparr>) = ident c" "ident (c\<lparr>send_queue := q\<rparr>) = ident c"
  "ident (c\<lparr>rtms_queue := ps\<rparr>) = ident c" "ident (c\<lparr>send_queue_len := n\<rparr>) = ident c" "ident (c\<lparr>recv_queue := rq\<rparr>) = ident c"
  "ident (c\<lparr>recv_queue_offt := n\<rparr>) = ident c" "ident (c\<lparr>peer_rcv_wnd_sz := x1\<rparr>) = ident c"
  "ident (c\<lparr>c_sessions := ss\<rparr>) = ident c" "ident (c\<lparr>sess_count := n\<rparr>) = ident c"
  "ident (c\<lparr>stat_conn_starting := i\<rparr>) = ident c" "ident (c\<lparr>stat_conn_active := i\<rparr>) = ident c"
  "ident (c\<lparr>stat_conn_finishing := i\<rparr>) = ident c" "ident (c\<lparr>stat_sess_starting := i\<rparr>) = ident c"
  "ident (c\<lparr>stat_sess_active := i\<rparr>) = ident c" "ident (c\<lparr>stat_sess_finishing := i\<rparr>) = ident c"
  "ident (c\<lparr>c_wire := ps\<rparr>) = ident c" "ident (c\<lparr>c_dequeued := ps\<rparr>) = ident c" "ident (c\<lparr>c_events := es\<rparr>) = ident c"
  "ident (c\<lparr>c_port_set := b\<rparr>) = ident c" "ident (c\<lparr>c_peer_addr := (fst (c_peer_addr c), port)\<rparr>) = ident c"
  by (simp_all add: ident_def)

section \<open>The transport\<close>

lemma ident_queues [ident]:
  "ident (l2tp_tunnel_clear_recvqueue c) = ident c" "ident (l2tp_tunnel_clear_sendqueue c) = ident c"
  "ident (snd (snd (tunnel_xmit io c p))) = ident c" "ident (snd (l2tp_tunnel_clean_rtmsqueue io c)) = ident c"
  "ident (snd (l2tp_tunnel_send p c)) = ident c" "ident (conn_finishing c) = ident c"
  by (simp_all add: l2tp_tunnel_clear_recvqueue_def l2tp_tunnel_clear_sendqueue_def tunnel_xmit_def
      l2tp_tunnel_clean_rtmsqueue_def l2tp_tunnel_send_def conn_finishing_def Let_def)

lemma ident_push_loop: "push_loop io Nr_max c n = (r, c') \<Longrightarrow> ident c' = ident c"
proof (induction io Nr_max c n arbitrary: r c' rule: push_loop.induct)
  case (1 io Nr_max c n)
  show ?case
  proof (cases "send_queue c = [] \<or> 0 \<le> nsnr_cmp (c_Ns c) Nr_max")
    case True
    with "1.prems" show ?thesis by (auto simp: push_loop.simps [of io Nr_max c n] split: list.splits)
  next
    case False
    then obtain own p ps where q: "send_queue c = (own, p) # ps" "\<not> 0 \<le> nsnr_cmp (c_Ns c) Nr_max"
      by (cases "send_queue c") auto
    obtain ok p' c1 where x: "tunnel_xmit io c (set_Ns (c_Ns c) p) = (ok, p', c1)" by (metis prod_cases3)
    have c1: "ident c1 = ident c" using ident_queues(3) [of io c "set_Ns (c_Ns c) p"] x by simp
    show ?thesis
    proof (cases ok)
      case True
      then have run: "push_loop io Nr_max (c1\<lparr>send_queue := ps, rtms_queue := rtms_queue c @ [p'],
          send_queue_len := send_queue_len c - 1, c_Ns := c_Ns c + 1\<rparr>) (n + 1) = (r, c')"
        using "1.prems" q x by (simp add: push_loop.simps [of io Nr_max c n])
      from "1.IH" [OF q(1) refl q(2) x [symmetric] refl refl _ run] True c1 show ?thesis by simp
    next
      case False
      with "1.prems" q x have "c' = c1\<lparr>send_queue := (own, p') # ps\<rparr>" by (simp add: push_loop.simps [of io Nr_max c n])
      with c1 show ?thesis by simp
    qed
  qed
qed

lemma ident_push [ident]: "ident (snd (l2tp_tunnel_push_sendqueue io c)) = ident c"
proof -
  obtain r c1 where r: "push_loop io (c_peer_Nr c + peer_rcv_wnd_sz c) c 0 = (r, c1)" by fastforce
  with ident_push_loop [OF r] show ?thesis
    by (simp add: l2tp_tunnel_push_sendqueue_def Let_def split: option.split)
qed

lemma ident_release [ident]: "ident (sess_release s c) = ident c"
  by (simp add: sess_release_def Let_def)

lemma ident_free [ident]: "ident (l2tp_tunnel_free_sessions c) = ident c" "ident (l2tp_tunnel_free c) = ident c"
proof -
  have "ident (fold sess_release ss c) = ident c" for ss c
    by (induction ss arbitrary: c) (simp_all add: ident)
  then show *: "ident (l2tp_tunnel_free_sessions c) = ident c" for c by (simp add: l2tp_tunnel_free_sessions_def)
  show "ident (l2tp_tunnel_free c) = ident c" by (simp add: l2tp_tunnel_free_def * ident)
qed

lemma ident_ZLB [ident]: "ident (snd (l2tp_send_ZLB io c)) = ident c"
  by (simp add: l2tp_send_ZLB_def split_beta ident split: option.split)

lemma ident_rtimeout [ident]: "ident (l2tp_rtimeout io c) = ident c"
  by (simp add: l2tp_rtimeout_def Let_def split_beta ident split: list.split)

lemma ident_store_msg [ident]: "ident (snd (snd (l2tp_tunnel_store_msg p need_ack c))) = ident c"
  by (simp add: l2tp_tunnel_store_msg_def Let_def)

lemma ident_read_loop: "ident (snd (snd (read_loop io rs need_ack c))) = ident c"
proof (induction rs arbitrary: need_ack c)
  case (Cons r rs)
  then show ?case by (cases r) (simp_all add: Let_def split_beta ident)
qed simp

section \<open>The handlers\<close>

lemma ident_upd_sess [ident]: "ident (upd_sess sid f c) = ident c" "ident (l2tp_session_clear_sendqueue sid c) = ident c"
  by (simp_all add: upd_sess_def l2tp_session_clear_sendqueue_def)

lemma ident_session_send [ident]:
  "ident (snd (l2tp_session_send sid p c)) = ident c" "ident (snd (l2tp_session_try_send sid p c)) = ident c"
proof -
  show *: "ident (snd (l2tp_session_send sid p c)) = ident c"
    by (simp add: l2tp_session_send_def split_beta Let_def ident split: option.split)
  show "ident (snd (l2tp_session_try_send sid p c)) = ident c" by (simp add: l2tp_session_try_send_def *)
qed

lemma ident_messages [ident]:
  "ident (snd (l2tp_send_StopCCN io res err c)) = ident c"
  "ident (snd (l2tp_send_CDN io sid res err c)) = ident c"
  "ident (snd (l2tp_tunnel_send_CDN io sid psid res err c)) = ident c"
  "ident (snd (l2tp_send_ICRQ io sid c)) = ident c" "ident (snd (l2tp_send_ICRP io sid c)) = ident c"
  "ident (snd (l2tp_send_ICCN io sid c)) = ident c" "ident (snd (l2tp_send_OCRQ io sid c)) = ident c"
  "ident (snd (l2tp_send_OCRP io sid c)) = ident c" "ident (snd (l2tp_send_OCCN io sid c)) = ident c"
  by (simp_all add: l2tp_send_StopCCN_def l2tp_send_CDN_def l2tp_tunnel_send_CDN_def l2tp_send_ICRQ_def
      l2tp_send_ICRP_def l2tp_send_ICCN_def l2tp_send_OCRQ_def l2tp_send_OCRP_def l2tp_send_OCCN_def ident
      split: option.split)

lemma ident_disconnect [ident]:
  "ident (snd (l2tp_tunnel_disconnect io res err c)) = ident c"
  "ident (snd (l2tp_tunnel_disconnect_push io res err c)) = ident c"
proof -
  show *: "ident (snd (l2tp_tunnel_disconnect io res err c)) = ident c"
    by (simp add: l2tp_tunnel_disconnect_def Let_def split_beta ident)
  show "ident (snd (l2tp_tunnel_disconnect_push io res err c)) = ident c"
    by (simp add: l2tp_tunnel_disconnect_push_def Let_def split_beta ident *)
qed

lemma ident_session_free [ident]: "ident (l2tp_session_free io sid c) = ident c"
  by (simp add: l2tp_session_free_def Let_def ident split: option.split)

lemma ident_session_disconnect [ident]:
  "ident (l2tp_session_disconnect io sid res err c) = ident c"
  "ident (l2tp_session_disconnect_push io sid res err c) = ident c"
  by (simp_all add: l2tp_session_disconnect_def l2tp_session_disconnect_push_def Let_def split_beta ident)

lemma ident_chall [ident]:
  "ident (snd (l2tp_tunnel_storechall c a)) = ident c" "ident (snd (l2tp_tunnel_genchall io n c p)) = ident c"
  "ident (snd (l2tp_tunnel_connect io c)) = ident c"
  by (simp_all add: l2tp_tunnel_storechall_def l2tp_tunnel_genchall_def l2tp_tunnel_connect_def Let_def split: option.split)

lemma ident_sccr [ident]:
  "ident (sccr_finish io st pack c) = ident c" "ident (snd (l2tp_send_SCCCN io c)) = ident c"
  "ident (l2tp_send_SCCRQ io c) = ident c" "ident (l2tp_send_SCCRP io c) = ident c"
proof -
  show *: "ident (sccr_finish io st pack c) = ident c" for st pack
    using ident_chall(2) [of io _ c]
    by (auto simp: sccr_finish_def Let_def split_beta ident split: option.split prod.split)
  show "ident (snd (l2tp_send_SCCCN io c)) = ident c"
    by (simp add: l2tp_send_SCCCN_def ident split: option.split)
  show "ident (l2tp_send_SCCRQ io c) = ident c" "ident (l2tp_send_SCCRP io c) = ident c"
    by (simp_all add: l2tp_send_SCCRQ_def l2tp_send_SCCRP_def *)
qed

lemma ident_tunnel_recv [ident]:
  "ident (snd (sccrp_window p c)) = ident c" "ident (l2tp_tunnel_finwait io c) = ident c"
  "ident (l2tp_recv_HELLO p c) = ident c"
  by (simp_all add: sccrp_window_def l2tp_tunnel_finwait_def l2tp_recv_HELLO_def Let_def ident split: option.split)

lemma ident_sccrp [ident]:
  "ident (sccrp_finish io p c) = ident c" "ident (l2tp_recv_SCCRP io p c) = ident c"
  "ident (l2tp_recv_SCCCN io p c) = ident c" "ident (l2tp_recv_StopCCN io p c) = ident c"
proof -
  show *: "ident (sccrp_finish io p c) = ident c" for c
    by (simp add: sccrp_finish_def Let_def split_beta ident)
  show "ident (l2tp_recv_SCCRP io p c) = ident c" "ident (l2tp_recv_SCCCN io p c) = ident c"
    "ident (l2tp_recv_StopCCN io p c) = ident c"
    by (simp_all add: l2tp_recv_SCCRP_def l2tp_recv_SCCCN_def l2tp_recv_StopCCN_def Let_def split_beta ident *
        split: option.split)
qed

lemma ident_alloc_session: "l2tp_tunnel_alloc_session io c = Some (sid, c') \<Longrightarrow> ident c' = ident c"
  by (auto simp: l2tp_tunnel_alloc_session_def split: option.splits)

lemma ident_session_connect [ident]: "ident (snd (l2tp_session_connect io sid c)) = ident c"
  by (simp add: l2tp_session_connect_def l2tp_session_start_data_channel_def Let_def ident)

lemma ident_calls [ident]:
  "ident (snd (l2tp_session_incall_reply io sid c)) = ident c" "ident (snd (l2tp_session_outcall_reply io sid c)) = ident c"
  "ident (snd (l2tp_session_place_call io sid c)) = ident c"
  by (simp_all add: l2tp_session_incall_reply_def l2tp_session_outcall_reply_def l2tp_session_place_call_def
      Let_def split_beta ident split: option.split)

lemma ident_create_session [ident]: "ident (l2tp_tunnel_create_session io c) = ident c"
  by (auto simp: l2tp_tunnel_create_session_def Let_def split_beta ident dest: ident_alloc_session split: option.split)

lemma ident_call_request:
  "(\<And>sid c. ident (snd (answer sid c)) = ident c) \<Longrightarrow> ident (recv_call_request io known answer p c) = ident c"
  by (auto simp: recv_call_request_def Let_def split_beta ident dest: ident_alloc_session split: option.split)

lemma ident_call_reply: "(\<And>c. ident (finish c) = ident c) \<Longrightarrow> ident (recv_call_reply io sid p finish c) = ident c"
  by (simp add: recv_call_reply_def Let_def ident split: option.split)

lemma ident_call_connected: "ident (recv_call_connected io known sid p c) = ident c"
  by (simp add: recv_call_connected_def Let_def split_beta ident)

lemma ident_recv_calls [ident]:
  "ident (l2tp_recv_ICRQ io p c) = ident c" "ident (l2tp_recv_OCRQ io p c) = ident c"
  "ident (l2tp_recv_ICRP io sid p c) = ident c" "ident (l2tp_recv_OCRP io sid p c) = ident c"
  "ident (l2tp_recv_ICCN io sid p c) = ident c" "ident (l2tp_recv_OCCN io sid p c) = ident c"
  "ident (l2tp_recv_CDN io sid p c) = ident c"
  by (simp_all add: l2tp_recv_ICRQ_def l2tp_recv_OCRQ_def l2tp_recv_ICRP_def l2tp_recv_OCRP_def l2tp_recv_ICCN_def
      l2tp_recv_OCCN_def l2tp_recv_CDN_def ident_call_request ident_call_reply ident_call_connected Let_def split_beta
      ident split: option.split)

lemma ident_dispatch [ident]: "ident (l2tp_dispatch io p c) = ident c"
  by (simp add: l2tp_dispatch_def l2tp_session_recv_def l2tp_tunnel_recv_def Let_def ident split: option.split)

section \<open>Every step\<close>

lemma ident_process_msg:
  "(\<And>p c. ident (deliver p c) = ident c) \<Longrightarrow> ident (process_msg deliver p c) = ident c"
  by (simp add: process_msg_def)

lemma ident_reply_loop:
  assumes "reply_loop deliver i n c = Some r"
  shows "(\<forall>p c. ident (deliver p c) = ident c) \<longrightarrow> ident (snd r) = ident c"
  using assms
proof (rule reply_loop.raw_induct [rotated])
  fix loop :: "handler \<Rightarrow> nat \<Rightarrow> nat \<Rightarrow> l2tp_conn_t \<Rightarrow> (nat \<times> l2tp_conn_t) option" and deliver i n c r
  assume IH: "\<And>deliver i n c r. loop deliver i n c = Some r \<Longrightarrow>
      (\<forall>p c. ident (deliver p c) = ident c) \<longrightarrow> ident (snd r) = ident c"
    and run: "(case recv_queue c ! i of None \<Rightarrow> Some (n, c)
      | Some p \<Rightarrow>
          if c_state c = STATE_CLOSE then Some (n, c)
          else let c1 = c\<lparr>recv_queue := (recv_queue c)[i := None], c_Nr := c_Nr c + 1, c_dequeued := c_dequeued c @ [p]\<rparr>;
                   i' = (i + 1) mod recv_queue_sz c;
                   c2 = process_msg deliver p c1
               in if i' \<noteq> recv_queue_offt c2 then loop deliver i' (n + 1) c2 else Some (n + 1, c2)) = Some r"
  have msg: "ident (process_msg deliver p (c\<lparr>recv_queue := (recv_queue c)[i := None], c_Nr := c_Nr c + 1,
      c_dequeued := c_dequeued c @ [p]\<rparr>)) = ident c" if "\<forall>p c. ident (deliver p c) = ident c" for p
    using that by (simp add: ident_process_msg)
  show "(\<forall>p c. ident (deliver p c) = ident c) \<longrightarrow> ident (snd r) = ident c"
    using run msg by (auto simp: Let_def split: option.splits if_splits dest!: IH)
qed

lemma ident_conn_read:
  assumes "l2tp_conn_read io (l2tp_dispatch io') rs c = Some (res, c')"
  shows "ident c' = ident c"
proof -
  obtain drained need_ack c1 where 1: "read_loop io rs False c = (drained, need_ack, c1)" by (metis prod_cases3)
  obtain r2 c2 where 2: "l2tp_tunnel_clean_rtmsqueue io c1 = (r2, c2)" by fastforce
  have i1: "ident c1 = ident c" using ident_read_loop [of io rs False c] 1 by simp
  have i2: "ident c2 = ident c" using ident_queues(4) [of io c1] 2 i1 by simp
  have i3: "ident c3 = ident c" if rep: "l2tp_tunnel_reply io (l2tp_dispatch io') need_ack c2 = Some (r3, c3)" for r3 c3
  proof -
    obtain n d where d: "reply_loop (l2tp_dispatch io') (recv_queue_offt c2) 0 c2 = Some (n, d)"
      using rep by (auto simp: l2tp_tunnel_reply_def split: option.splits)
    have "ident d = ident c" using ident_reply_loop [OF d] i2 by (simp add: ident)
    moreover define e where "e = d\<lparr>recv_queue_offt := (recv_queue_offt d + n) mod recv_queue_sz d\<rparr>"
    ultimately have "ident (snd (l2tp_tunnel_push_sendqueue io e)) = ident c" by (simp add: ident)
    with rep d ident_ZLB [of io "snd (l2tp_tunnel_push_sendqueue io e)"] show ?thesis
      by (auto simp: l2tp_tunnel_reply_def Let_def split_beta simp flip: e_def split: if_splits)
  qed
  from assms 1 2 i1 i2 i3 show ?thesis
    by (auto simp: l2tp_conn_read_def Let_def ident_free split: if_splits option.splits)
qed

lemma ident_own: "l2tp_own c c' \<Longrightarrow> ident c' = ident c"
  by (cases rule: l2tp_own.cases)
    (auto simp: l2tp_tunnel_timeout_def l2tp_conn_close_def l2tp_tunnel_finwait_timeout_def l2tp_session_timeout_def
      l2tp_session_apses_finished_def l2tp_send_HELLO_def Let_def split_beta ident split: option.split)

lemma ident_step:
  assumes "l2tp_step l2tp_own sane l2tp_dispatch c c'"
  shows "ident c' = ident c"
  using assms by cases (auto simp: ident_own ident_rtimeout dest: ident_conn_read)

end
