(* ===== verification/L2tp_Correct.thy ===== *)
theory L2tp_Correct
  imports L2tp_Sessions
begin

text \<open>
  What the L2TP control plane guarantees: the statements about whole runs of a tunnel, made from the
  component lemmas of \<open>L2tp_Transport\<close>, \<open>L2tp_Tunnel\<close> and \<open>L2tp_Sessions\<close>. A run is any
  sequence of received datagrams, timer expiries and requests from other parts of the daemon, with
  any outcome of the calls that leave the daemon.
\<close>

section \<open>Runs\<close>

abbreviation l2tp_run :: "bool \<Rightarrow> l2tp_conn_t \<Rightarrow> l2tp_conn_t \<Rightarrow> bool" where
  "l2tp_run sane \<equiv> (l2tp_step l2tp_own sane l2tp_dispatch)\<^sup>*\<^sup>*"

lemma run_inv: "l2tp_run sane c c' \<Longrightarrow> l2tp_inv sane c \<Longrightarrow> l2tp_inv sane c' \<and> delivers c c'"
  by (rule l2tp_run_inv [OF dispatch.l2tp_handler_axioms own_step])

lemma run_book: "l2tp_run sane c c' \<Longrightarrow> book_ok c \<Longrightarrow> book_ok c'"
  by (induction rule: rtranclp_induct) (auto intro: step_book)

text \<open>A tunnel as it is made starts in order.\<close>

lemma conn_init_inv:
  "0 < conf_recv_window k \<Longrightarrow> l2tp_inv sane (conn_init k tid peer fc lns ps hide)"
  by (simp add: l2tp_inv_def conn_init_def rcv_inv_def ring_ok_def ring_slot_def snd_inv_def ring_sane_def
      tunnel_state_def word_less_nat_alt)

lemma conn_init_book: "book_ok (conn_init k tid peer fc lns ps hide)"
  by (simp add: book_ok_def conn_init_def tree_ok_def queue_ok_def conn_ok_def tunnel_state_def)

section \<open>A concrete tunnel\<close>

definition demo_io :: l2tp_io where
  "demo_io = \<lparr>io_env = demo_env, io_rnd = \<lambda>_ _. demo_rand, io_send_ok = \<lambda>_ _. True, io_timer_ok = \<lambda>_. True,
     io_peerport_ok = \<lambda>_. True, io_tunnel_ok = \<lambda>_. True, io_pppox_ok = \<lambda>_ _. True, io_apses_ok = \<lambda>_ _. True,
     io_urandom16 = \<lambda>_ i. Some (of_nat i), io_chall_len = \<lambda>_. Some 0, io_chall = \<lambda>_. Some (\<lambda>i. of_nat i),
     io_connlimit = \<lambda>_. False, ses_starting = \<lambda>_. 0, ses_active = \<lambda>_. 0, ap_shutdown = False,
     conf_max_starting = 0, conf_max_sessions = 0, conf_dir300_quirk = False, conf_hello_interval = 60,
     conf_dataseq = L2TP_DATASEQ_ALLOW, conf_reorder_timeout = 0, conf_host_name = vendor_name\<rparr>"

definition demo_conf :: l2tp_conf where
  "demo_conf = \<lparr>conf_recv_window = 4, conf_l2tp_timeout = 60, conf_rtimeout = 1, conf_rtimeout_cap = 16,
     conf_retransmit = 5, conf_hello = 60\<rparr>"

definition demo_conn :: l2tp_conn_t where
  "demo_conn = conn_init demo_conf 7 (0x0A000001, 1701) 3 True True False"

text \<open>A HELLO message.\<close>

definition demo_hello :: "u16 \<Rightarrow> l2tp_packet_t" where
  "demo_hello n = \<lparr>pk_addr = (0x0A000001, 1701),
     pk_hdr = \<lparr>h_flags = 0xC802, h_length = 20, h_tid = 7, h_sid = 0, h_Ns = n, h_Nr = 0\<rparr>,
     pk_attrs = [\<lparr>la_attr = \<lparr>da_id = 0, da_type = ATTR_TYPE_INT16, da_M = -1, da_H = 0\<rparr>, la_M = True, la_H = False,
       la_length = 2, la_val = V_int16 6\<rparr>],
     pk_last_RV = None, pk_secret = [], pk_hide_avps = False\<rparr>"

lemmas demo_conn_defs = demo_io_def demo_conf_def demo_conn_def conn_init_def demo_hello_def int32_def

lemma replicate_4: "replicate 4 x = [x, x, x, x]"
  by (simp add: numeral_eq_Suc)

lemma demo_conn_fields [simp]:
  "c_tid demo_conn = 7" "c_Ns demo_conn = 0" "c_Nr demo_conn = 0" "c_peer_Nr demo_conn = 0" "c_port_set demo_conn"
  "recv_queue_sz demo_conn = 4" "recv_queue_offt demo_conn = 0" "recv_queue demo_conn = [None, None, None, None]"
  "c_state demo_conn = STATE_INIT" "send_queue demo_conn = []" "rtms_queue demo_conn = []" "c_dequeued demo_conn = []"
  "peer_rcv_wnd_sz demo_conn = 4" "\<not> rtimeout_tpd demo_conn"
  by (simp_all add: demo_conn_def demo_conf_def conn_init_def replicate_4)

lemma demo_hello_fields [simp]:
  "pack_Ns (demo_hello n) = n" "pack_Nr (demo_hello n) = 0" "h_tid (pk_hdr (demo_hello n)) = 7" "h_sid (pk_hdr (demo_hello n)) = 0"
  "\<not> l2tp_packet_is_ZLB (demo_hello n)" "da_id (la_attr (hd (pk_attrs (demo_hello n)))) = 0"
  "val_uint16 (la_val (hd (pk_attrs (demo_hello n)))) = 6"
  by (simp_all add: demo_hello_def l2tp_packet_is_ZLB_def)

lemma demo_dispatch [simp]: "c_state c \<noteq> STATE_ESTB \<Longrightarrow> l2tp_dispatch io (demo_hello n) c = c"
  by (simp add: l2tp_dispatch_def l2tp_tunnel_recv_def l2tp_recv_HELLO_def Let_def)

lemma demo_read_loop:
  "read_loop demo_io [Rx_msg (demo_hello 1), Rx_msg (demo_hello 0)] False demo_conn =
   (True, True, demo_conn\<lparr>recv_queue := [Some (demo_hello 0), Some (demo_hello 1), None, None]\<rparr>)"
  by (simp add: l2tp_tunnel_store_msg_def nsnr_cmp_iff Let_def)

lemma demo_reply_loop:
  "reply_loop (l2tp_dispatch demo_io) 0 0
     (demo_conn\<lparr>recv_queue := [Some (demo_hello 0), Some (demo_hello 1), None, None], rtms_queue := []\<rparr>) =
   Some (2, demo_conn\<lparr>rtms_queue := [], recv_queue := [None, None, None, None], c_Nr := 2, c_dequeued := [demo_hello 0, demo_hello 1]\<rparr>)"
  by (simp add: reply_loop.simps process_msg_def Let_def)


lemma demo_ZLB: "l2tp_send_ZLB demo_io c = (0, c\<lparr>c_wire := c_wire c @ [set_Nr (c_Nr c) (set_Ns (c_Ns c) (set_tid (c_peer_tid c)
    \<lparr>pk_addr = c_peer_addr c, pk_hdr = \<lparr>h_flags = 0xC802, h_length = 0, h_tid = 0, h_sid = 0, h_Ns = 0, h_Nr = 0\<rparr>,
     pk_attrs = [], pk_last_RV = None, pk_secret = [], pk_hide_avps = False\<rparr>))]\<rparr>)"
  by (simp add: l2tp_send_ZLB_def demo_io_def l2tp_packet_alloc_def tunnel_xmit_def xmit_ok_def l2tp_packet_send_def Let_def set_Nr_def set_Ns_def set_tid_def)

lemma demo_read:
  "\<exists>c'. l2tp_conn_read demo_io (l2tp_dispatch demo_io) [Rx_msg (demo_hello 1), Rx_msg (demo_hello 0)] demo_conn = Some (0, c') \<and>
    c_dequeued c' = [demo_hello 0, demo_hello 1]"
  by (simp add: l2tp_conn_read_def demo_read_loop l2tp_tunnel_clean_rtmsqueue_def l2tp_tunnel_reply_def demo_reply_loop
     l2tp_tunnel_push_sendqueue_def push_loop.simps demo_ZLB Let_def del: read_loop.simps)

lemma demo_inv: "l2tp_inv sane demo_conn"
  by (simp add: demo_conn_def conn_init_inv demo_conf_def)

lemma demo_book: "book_ok demo_conn"
  by (simp add: demo_conn_def conn_init_book)

lemma demo_run: "\<exists>c'. l2tp_run False demo_conn c' \<and> c_dequeued c' = [demo_hello 0, demo_hello 1]"
proof -
  obtain c' where c': "l2tp_conn_read demo_io (l2tp_dispatch demo_io) [Rx_msg (demo_hello 1), Rx_msg (demo_hello 0)]
      demo_conn = Some (0, c')" "c_dequeued c' = [demo_hello 0, demo_hello 1]"
    using demo_read by blast
  have "l2tp_run False demo_conn c'" by (rule r_into_rtranclp, rule l2tp_step.read [where deliver = l2tp_dispatch, OF _ _ c'(1)]) simp_all
  with c'(2) show ?thesis by blast
qed

text \<open>A tunnel with a message to send, and what sending it gives.\<close>

definition demo_estb :: l2tp_conn_t where
  "demo_estb = demo_conn\<lparr>c_state := STATE_ESTB, hello_tpd := True, send_queue := [(None, demo_hello 0)], send_queue_len := 1\<rparr>"

lemma demo_estb_fields [simp]:
  "rtms_queue demo_estb = []" "recv_queue demo_estb = [None, None, None, None]" "recv_queue_offt demo_estb = 0"
  "recv_queue_sz demo_estb = 4" "c_state demo_estb = STATE_ESTB" "send_queue demo_estb = [(None, demo_hello 0)]"
  by (simp_all add: demo_estb_def)

lemma demo_estb_inv: "l2tp_inv sane demo_estb" "snd_inv 0 demo_estb"
  using demo_inv [of True]
  by (simp_all add: demo_estb_def l2tp_inv_def rcv_inv_def ring_ok_def ring_slot_def ring_sane_def snd_inv_def tunnel_state_def)

lemma demo_xmit [simp]:
  "set_Nr 0 (set_Ns 0 (demo_hello 0)) = demo_hello 0" "\<exists>d. l2tp_packet_send (demo_hello 0) = Some d"
  by (simp_all add: demo_hello_def set_Nr_def set_Ns_def l2tp_packet_send_def)

lemma demo_push:
  "l2tp_tunnel_push_sendqueue demo_io demo_estb = (1, demo_estb\<lparr>send_queue := [], send_queue_len := 0,
     rtms_queue := [demo_hello 0], c_wire := c_wire demo_estb @ [demo_hello 0], c_Ns := 1,
     rtimeout_period := c_rtimeout demo_estb, rtimeout_tpd := True\<rparr>)"
  by (simp add: demo_estb_def l2tp_tunnel_push_sendqueue_def push_loop.simps tunnel_xmit_def xmit_ok_def nsnr_cmp_iff
      Let_def demo_io_def)

lemma demo_push_run: "\<exists>c'. l2tp_run True demo_estb c' \<and> c_state c' = STATE_ESTB \<and> rtms_queue c' \<noteq> []"
proof -
  have id: "demo_estb\<lparr>rtms_queue := []\<rparr> = demo_estb" "demo_estb\<lparr>recv_queue_offt := 0\<rparr> = demo_estb"
    by (simp_all add: demo_estb_def demo_conn_def conn_init_def)
  have "\<exists>c'. l2tp_conn_read demo_io (l2tp_dispatch demo_io) [] demo_estb = Some (0, c') \<and>
      c_state c' = STATE_ESTB \<and> rtms_queue c' \<noteq> []"
    by (simp add: l2tp_conn_read_def l2tp_tunnel_clean_rtmsqueue_def l2tp_tunnel_reply_def reply_loop.simps id demo_push Let_def)
  then obtain c' where c': "l2tp_conn_read demo_io (l2tp_dispatch demo_io) [] demo_estb = Some (0, c')"
    "c_state c' = STATE_ESTB" "rtms_queue c' \<noteq> []" by blast
  have "l2tp_run True demo_estb c'"
    by (rule r_into_rtranclp, rule l2tp_step.read [where deliver = l2tp_dispatch, OF _ _ c'(1)])
      (simp_all add: demo_estb_def peer_sane_def)
  with c'(2,3) show ?thesis by blast
qed

section \<open>Reliable delivery\<close>

text \<open>
  C1: Reliable delivery. In every run, whatever datagrams arrive in whatever order, with duplicates and losses,
  the messages handed to the message handlers carry the sequence numbers from the expected one on,
  one after the other; \<open>Nr\<close> counts them, and the tunnel's state only moves forward.
\<close>

theorem l2tp_delivery_in_order:
  assumes "l2tp_inv False c" "l2tp_run False c c'"
  shows "(\<exists>ds. c_dequeued c' = c_dequeued c @ ds \<and> c_Nr c' = c_Nr c + of_nat (length ds) \<and>
      map pack_Ns ds = map (\<lambda>j. c_Nr c + of_nat j) [0..<length ds]) \<and>
    state_rank (c_state c) \<le> state_rank (c_state c')"
proof -
  have d: "delivers c c'" using run_inv [OF assms(2,1)] by simp
  then obtain ds where "c_dequeued c' = c_dequeued c @ ds" "c_Nr c' = c_Nr c + of_nat (length ds)"
    "\<forall>j < length ds. pack_Ns (ds ! j) = c_Nr c + of_nat j"
    unfolding delivers_def by blast
  moreover from this(3) have "map pack_Ns ds = map (\<lambda>j. c_Nr c + of_nat j) [0..<length ds]"
    by (intro nth_equalityI) simp_all
  ultimately show ?thesis using d unfolding delivers_def by blast
qed

theorem l2tp_delivery_in_order_witness:
  "\<exists>c'. l2tp_run False demo_conn c' \<and> c_dequeued c' = [demo_hello 0, demo_hello 1] \<and> c_Nr c' = 2"
proof -
  obtain c' where c': "l2tp_run False demo_conn c'" "c_dequeued c' = [demo_hello 0, demo_hello 1]"
    using demo_run by blast
  with l2tp_delivery_in_order [OF demo_inv c'(1)] show ?thesis by auto
qed

text \<open>
  C2: The sender's book-keeping. In every run with a peer that stays clear of the two values the comparison of
  sequence numbers cannot handle, the retransmission queue of an open tunnel holds exactly the messages
  from the peer's \<open>Nr\<close> up to \<open>Ns\<close>, in order, and never more than the comparison can tell apart.
\<close>

theorem l2tp_sender_in_flight:
  assumes "l2tp_inv True c" "l2tp_run True c c'" "c_state c' \<noteq> STATE_CLOSE"
  shows "map pack_Ns (rtms_queue c') = map (\<lambda>i. c_peer_Nr c' + of_nat i) [0..<length (rtms_queue c')] \<and>
    c_Ns c' = c_peer_Nr c' + of_nat (length (rtms_queue c')) \<and> length (rtms_queue c') \<le> 32767"
proof -
  have "snd_inv 0 c'" using run_inv [OF assms(2,1)] assms(3) by (simp add: l2tp_inv_def)
  then show ?thesis by (auto simp: snd_inv_def Let_def intro: nth_equalityI)
qed

theorem l2tp_sender_in_flight_witness:
  "\<exists>c'. l2tp_run True demo_estb c' \<and> rtms_queue c' \<noteq> [] \<and> pack_Ns (hd (rtms_queue c')) = c_peer_Nr c'"
proof -
  obtain c' where c': "l2tp_run True demo_estb c'" "c_state c' = STATE_ESTB" "rtms_queue c' \<noteq> []"
    using demo_push_run by blast
  with l2tp_sender_in_flight [OF demo_estb_inv(1) c'(1)]
  have "map pack_Ns (rtms_queue c') = map (\<lambda>i. c_peer_Nr c' + of_nat i) [0..<length (rtms_queue c')]" by simp
  from arg_cong [OF this, of hd] c'(3) have "pack_Ns (hd (rtms_queue c')) = c_peer_Nr c'" by (simp add: hd_map)
  with c' show ?thesis by blast
qed

text \<open>
  C3: Sending from the queue keeps the order of the messages, numbers them one after the other from \<open>Ns\<close>,
  puts every one of them in the retransmission queue, and stays within the peer's receive window. Unless
  sending failed, it stops only when the queue is empty or the window is full.
\<close>

theorem l2tp_push_fifo:
  assumes "snd_inv 0 c" "l2tp_tunnel_push_sendqueue io c = (res, c')"
  shows "\<exists>sent. c_wire c' = c_wire c @ sent \<and> rtms_queue c' = rtms_queue c @ sent \<and>
      list_all2 same_msg (map snd (send_queue c)) (sent @ map snd (send_queue c')) \<and>
      map pack_Ns sent = map (\<lambda>i. c_Ns c + of_nat i) [0..<length sent] \<and>
      (sent \<noteq> [] \<longrightarrow> length (rtms_queue c') \<le> unat (peer_rcv_wnd_sz c)) \<and>
      (0 \<le> res \<longrightarrow> send_queue c' = [] \<or> unat (peer_rcv_wnd_sz c) \<le> length (rtms_queue c'))"
proof -
  obtain r d where r: "push_loop io (c_peer_Nr c + peer_rcv_wnd_sz c) c 0 = (r, d)" by fastforce
  have f: "rtms_queue c' = rtms_queue d" "send_queue c' = send_queue d" "c_wire c' = c_wire d"
    using push_sendqueue_fields(1-3) [of io c] assms(2) r by simp_all
  have res: "0 \<le> res \<Longrightarrow> r \<noteq> None"
    using assms(2) r by (cases r) (simp_all add: l2tp_tunnel_push_sendqueue_def)
  from push_loop_spec [OF assms(1) refl r] obtain sent where
    s: "snd_inv 0 d" "c_peer_Nr d = c_peer_Nr c" "rtms_queue d = rtms_queue c @ sent" "c_wire d = c_wire c @ sent"
      "list_all2 same_msg (map snd (send_queue c)) (sent @ map snd (send_queue d))"
      "sent \<noteq> [] \<longrightarrow> length (rtms_queue d) \<le> unat (peer_rcv_wnd_sz c)"
      "r \<noteq> None \<longrightarrow> send_queue d = [] \<or> unat (peer_rcv_wnd_sz c) \<le> length (rtms_queue d)"
    by (auto simp: push_post_def split: option.splits)
  have "pack_Ns (sent ! i) = c_Ns c + of_nat i" if "i < length sent" for i
  proof -
    have "pack_Ns (rtms_queue d ! (length (rtms_queue c) + i)) = c_peer_Nr d + of_nat (length (rtms_queue c) + i)"
      using s(1) that spec [of "\<lambda>i. i < length (rtms_queue d) \<longrightarrow> pack_Ns (rtms_queue d ! i) = c_peer_Nr d + of_nat i"]
        arg_cong [OF s(3), of length] unfolding snd_inv_def Let_def by simp
    with s(2,3) assms(1) show ?thesis by (simp add: nth_append snd_inv_def Let_def)
  qed
  then have "map pack_Ns sent = map (\<lambda>i. c_Ns c + of_nat i) [0..<length sent]"
    by (intro nth_equalityI) simp_all
  with s f res show ?thesis by (intro exI [of _ sent]) simp
qed

theorem l2tp_push_fifo_witness:
  "\<exists>c'. l2tp_tunnel_push_sendqueue demo_io demo_estb = (1, c') \<and>
     (\<exists>sent. c_wire c' = c_wire demo_estb @ sent \<and> rtms_queue c' = sent \<and> map pack_Ns sent = [0])"
proof -
  obtain c' where c': "l2tp_tunnel_push_sendqueue demo_io demo_estb = (1, c')" "rtms_queue c' = [demo_hello 0]"
    using demo_push by simp
  with l2tp_push_fifo [OF demo_estb_inv(2) c'(1)] show ?thesis
    by (intro exI [of _ c']) (auto simp: demo_estb_def)
qed

section \<open>Reading always comes to an end\<close>

text \<open>
  C13: The read handler returns for every list of received datagrams, although its loop runs over a ring while
  the handlers it calls may change the tunnel. It leaves the tunnel closed, or with its ring in order and
  the next expected message not in it, so that no message that could be handled is left behind.
\<close>

theorem l2tp_conn_read_returns:
  assumes "rcv_inv c" "tunnel_state (c_state c)" "c_state c \<noteq> STATE_CLOSE"
  shows "\<exists>res c'. l2tp_conn_read io (l2tp_dispatch io) rs c = Some (res, c') \<and>
    (c_state c' = STATE_CLOSE \<or> rcv_inv c' \<and> ring_slot (recv_queue_offt c') c' 0 = None)"
  using dispatch.conn_read_spec [OF assms(1,3,2), of io io rs] by (auto simp: settled_def)

theorem l2tp_conn_read_returns_witness:
  "\<exists>res c'. l2tp_conn_read demo_io (l2tp_dispatch demo_io) [Rx_msg (demo_hello 1), Rx_null, Rx_msg (demo_hello 0)] demo_conn =
     Some (res, c')"
proof -
  have "rcv_inv demo_conn" using demo_inv [of False] by (simp add: l2tp_inv_def)
  from l2tp_conn_read_returns [OF this, of demo_io "[Rx_msg (demo_hello 1), Rx_null, Rx_msg (demo_hello 0)]"]
  show ?thesis by (auto simp: tunnel_state_def)
qed

section \<open>Retransmission\<close>

text \<open>
  C19: While nothing is acknowledged, every expiry of the retransmission timer resends the oldest message and
  doubles the period up to the cap, in the arithmetic of a C \<open>int\<close>; with a cap below \<open>2 ^ 30\<close> the period is
  the doubled one as a number, at most the cap. After \<open>max_retransmit\<close> copies the next expiry sends nothing and
  closes the tunnel.
\<close>

theorem l2tp_retransmission_bounded:
  assumes "rtms_queue c = p # ps" "c_retransmit c = 0" "0 \<le> rtimeout_period c" "rtimeout_period c \<le> c_rtimeout_cap c"
    "0 \<le> c_max_retransmit c" "tunnel_state (c_state c)"
    and "\<And>d. xmit_ok io d (set_Nr (c_Nr c) p)" "\<And>d. io_timer_ok io d"
  defines "n \<equiv> nat (c_max_retransmit c)" and "after \<equiv> \<lambda>i. (l2tp_rtimeout io ^^ i) c"
  shows "(\<forall>i \<le> n. c_wire (after i) = c_wire c @ replicate i (set_Nr (c_Nr c) p) \<and>
      rtimeout_period (after i) = (next_rtimeout (c_rtimeout_cap c) ^^ i) (rtimeout_period c) \<and>
      (c_rtimeout_cap c < 2 ^ 30 \<longrightarrow> rtimeout_period (after i) = backoff (rtimeout_period c) (c_rtimeout_cap c) i) \<and>
      c_state (after i) = c_state c) \<and>
    c_wire (after (Suc n)) = c_wire (after n) \<and> c_state (after (Suc n)) = STATE_CLOSE"
proof -
  note run = rtimeout_run [OF assms(1,2) refl assms(7,8)]
  have last: "rtms_queue (after n) \<noteq> []" "c_max_retransmit (after n) \<le> c_retransmit (after n)"
    "tunnel_state (c_state (after n))"
    using run [of n] assms(5,6) by (simp_all add: n_def after_def)
  have "after (Suc n) = l2tp_rtimeout io (after n)" by (simp add: after_def)
  with rtimeout_gives_up [OF last, of io] run next_rtimeout_iterate [OF assms(3,4)] show ?thesis
    by (simp add: n_def after_def)
qed

theorem l2tp_retransmission_bounded_witness:
  "let c = snd (l2tp_tunnel_push_sendqueue demo_io demo_estb)
   in c_wire ((l2tp_rtimeout demo_io ^^ 5) c) = c_wire c @ replicate 5 (demo_hello 0) \<and>
      rtimeout_period ((l2tp_rtimeout demo_io ^^ 5) c) = 16000 \<and> c_state ((l2tp_rtimeout demo_io ^^ Suc 5) c) = STATE_CLOSE"
proof -
  define c where "c = snd (l2tp_tunnel_push_sendqueue demo_io demo_estb)"
  have c: "rtms_queue c = [demo_hello 0]" "c_retransmit c = 0" "rtimeout_period c = 1000" "c_rtimeout_cap c = 16000"
    "c_max_retransmit c = 5" "c_state c = STATE_ESTB" "c_Nr c = 0"
    by (simp_all add: c_def demo_push) (simp_all add: demo_estb_def demo_conn_def conn_init_def demo_conf_def int32_def)
  have "set_Nr 0 (demo_hello 0) = demo_hello 0" by (simp add: demo_hello_def set_Nr_def)
  then have ok: "\<And>d. xmit_ok demo_io d (set_Nr (c_Nr c) (demo_hello 0))" "\<And>d. io_timer_ok demo_io d" and
    h: "set_Nr (c_Nr c) (demo_hello 0) = demo_hello 0" using c(7) by (simp_all add: xmit_ok_def demo_io_def)
  note t = l2tp_retransmission_bounded [OF c(1,2) _ _ _ _ ok]
  have "c_wire ((l2tp_rtimeout demo_io ^^ 5) c) = c_wire c @ replicate 5 (demo_hello 0)"
    "rtimeout_period ((l2tp_rtimeout demo_io ^^ 5) c) = 16000"
    using t [THEN conjunct1, THEN spec, of 5] c h by (simp_all add: tunnel_state_def backoff_def)
  moreover have "c_state ((l2tp_rtimeout demo_io ^^ Suc 5) c) = STATE_CLOSE"
    using t [THEN conjunct2] c by (simp add: tunnel_state_def del: funpow.simps)
  ultimately show ?thesis by (simp only: Let_def simp_thms flip: c_def)
qed

text \<open>What freeing the sessions of a tunnel, and the tunnel itself, leaves.\<close>

lemma release_keep:
  "timeout_tpd (sess_release t c) = timeout_tpd c" "hello_tpd (sess_release t c) = hello_tpd c"
  "rtimeout_tpd (sess_release t c) = rtimeout_tpd c" "c_registered (sess_release t c) = c_registered c"
  "c_sessions (sess_release t c) = c_sessions c"
  "\<forall>e \<in> set (send_queue c). fst e = None \<Longrightarrow> send_queue (sess_release t c) = send_queue c"
  by (auto simp: sess_release_def Let_def intro!: map_idI)

lemma fold_release_keep:
  "timeout_tpd (fold sess_release ts c) = timeout_tpd c" "hello_tpd (fold sess_release ts c) = hello_tpd c"
  "rtimeout_tpd (fold sess_release ts c) = rtimeout_tpd c" "c_registered (fold sess_release ts c) = c_registered c"
  "c_sessions (fold sess_release ts c) = c_sessions c"
  "\<forall>e \<in> set (send_queue c). fst e = None \<Longrightarrow> send_queue (fold sess_release ts c) = send_queue c"
  by (induction ts arbitrary: c) (simp_all add: release_keep)

lemma tunnel_free_clean:
  assumes "tunnel_state (c_state c)" "c_state c \<noteq> STATE_CLOSE"
  shows "c_state (l2tp_tunnel_free c) = STATE_CLOSE" "c_sessions (l2tp_tunnel_free c) = []"
    "\<not> c_registered (l2tp_tunnel_free c)" "\<not> timeout_tpd (l2tp_tunnel_free c)" "\<not> rtimeout_tpd (l2tp_tunnel_free c)"
    "\<not> hello_tpd (l2tp_tunnel_free c)" "send_queue (l2tp_tunnel_free c) = []" "rtms_queue (l2tp_tunnel_free c) = []"
proof -
  have rt: "rtms_queue (fold sess_release ts d) = rtms_queue d" for ts d
    by (induction ts arbitrary: d) (simp_all add: sess_release_def Let_def)
  show "c_state (l2tp_tunnel_free c) = STATE_CLOSE" by (rule tunnel_free_fields(3) [OF assms(1)])
  show "c_sessions (l2tp_tunnel_free c) = []" "\<not> c_registered (l2tp_tunnel_free c)" "\<not> timeout_tpd (l2tp_tunnel_free c)"
    "\<not> rtimeout_tpd (l2tp_tunnel_free c)" "\<not> hello_tpd (l2tp_tunnel_free c)" "send_queue (l2tp_tunnel_free c) = []"
    "rtms_queue (l2tp_tunnel_free c) = []"
    using assms
    by (cases "c_state c"; simp add: l2tp_tunnel_free_def l2tp_tunnel_free_sessions_def fold_release_keep rt tunnel_state_def
        l2tp_tunnel_clear_recvqueue_def l2tp_tunnel_clear_sendqueue_def)+
qed

lemma finwait_period_sum:
  assumes "0 \<le> r" "r \<le> cap" "cap < 2 ^ 30" "int n * cap < 2 ^ 31"
  shows "finwait_period n r cap 0 = (\<Sum>i<n. backoff r cap i)"
proof -
  have b: "0 \<le> backoff r cap k" "backoff r cap k \<le> cap" for k using assms(1,2) by (simp_all add: backoff_def min_def)
  have "finwait_period n (backoff r cap k) cap t = t + (\<Sum>i<n. backoff r cap (k + i))"
    if "0 \<le> t" "t + int n * cap < 2 ^ 31" for k t
    using that
  proof (induction n arbitrary: k t)
    case (Suc n)
    have "0 \<le> cap" using assms(1,2) by linarith
    then have "0 \<le> int n * cap" by simp
    with Suc.prems b [of k] have t: "0 \<le> t + backoff r cap k" "t + backoff r cap k + int n * cap < 2 ^ 31"
      by (simp_all add: distrib_right)
    with \<open>0 \<le> int n * cap\<close> have "int32 (t + backoff r cap k) = t + backoff r cap k" by (intro int32_id) simp_all
    with Suc.IH [OF t, of "Suc k"] next_rtimeout_backoff [OF assms(1-3), of k] show ?case
      by (simp add: sum.lessThan_Suc_shift del: sum.lessThan_Suc)
  qed simp
  from this [of 0 0] assms show ?thesis by (simp add: backoff_def)
qed

definition demo_stopccn :: l2tp_packet_t where
  "demo_stopccn = (demo_hello 0)\<lparr>pk_attrs :=
     [\<lparr>la_attr = \<lparr>da_id = 0, da_type = ATTR_TYPE_INT16, da_M = -1, da_H = 0\<rparr>, la_M = True, la_H = False,
       la_length = 2, la_val = V_int16 4\<rparr>]\<rparr>"

lemma free_sessions_keep:
  "c_state (l2tp_tunnel_free_sessions c) = c_state c" "c_sessions (l2tp_tunnel_free_sessions c) = []"
  "hello_tpd (l2tp_tunnel_free_sessions c) = hello_tpd c"
  "send_queue c = [] \<Longrightarrow> send_queue (l2tp_tunnel_free_sessions c) = []"
  using free_sessions_part(1) [of c]
  by (simp_all add: rcv_part_def l2tp_tunnel_free_sessions_def fold_release_keep)

text \<open>
  C28: A tunnel that its peer stops lingers for a full cycle of retransmissions. When a StopCCN arrives at a tunnel that
  is being set up, established or finishing, the tunnel drops its sessions, its outgoing messages and its hello timer,
  moves to \<open>FIN_WAIT\<close> and starts its timer for exactly the sum of the \<open>max_retransmit\<close> periods that
  the retransmission timer goes through; if the timer cannot be started, the tunnel is closed at once with no
  timer left. The cap is below \<open>2 ^ 30\<close> milliseconds and the whole cycle below \<open>2 ^ 31\<close>, so that no sum
  overflows a C \<open>int\<close>.
\<close>

theorem l2tp_finwait_covers_cycle:
  fixes io :: l2tp_io
  assumes "c_state c \<in> {STATE_WAIT_SCCRP, STATE_WAIT_SCCCN, STATE_ESTB, STATE_FIN}"
    and "val_uint16 (la_val (hd (pk_attrs p))) = 4" "h_sid (pk_hdr p) = 0"
    and "0 \<le> c_rtimeout c" "c_rtimeout c \<le> c_rtimeout_cap c" "c_rtimeout_cap c < 2 ^ 30"
    and "0 \<le> c_max_retransmit c" "c_max_retransmit c * c_rtimeout_cap c < 2 ^ 31"
  defines "d \<equiv> l2tp_dispatch io p c"
  shows "((\<forall>x. io_timer_ok io x) \<longrightarrow> c_state d = STATE_FIN_WAIT \<and> c_sessions d = [] \<and> send_queue d = [] \<and>
      \<not> hello_tpd d \<and> timeout_tpd d \<and>
      timeout_period d = (\<Sum>i<nat (c_max_retransmit c). backoff (c_rtimeout c) (c_rtimeout_cap c) i)) \<and>
    ((\<forall>x. \<not> io_timer_ok io x) \<longrightarrow> c_state d = STATE_CLOSE \<and> c_sessions d = [] \<and> send_queue d = [] \<and>
      \<not> timeout_tpd d \<and> \<not> rtimeout_tpd d \<and> \<not> hello_tpd d)"
proof -
  obtain c1 where c1: "d = l2tp_tunnel_finwait io c1" "c_state c1 = c_state c" "c_rtimeout c1 = c_rtimeout c"
    "c_rtimeout_cap c1 = c_rtimeout_cap c" "c_max_retransmit c1 = c_max_retransmit c"
  proof
    let ?c1 = "case last_attr Assigned_Tunnel_ID p of Some a \<Rightarrow> if c_peer_tid c = 0 then c\<lparr>c_peer_tid := val_uint16 (la_val a)\<rparr> else c
        | None \<Rightarrow> c"
    show "d = l2tp_tunnel_finwait io ?c1"
      using assms(1-3) by (auto simp: d_def l2tp_dispatch_def l2tp_tunnel_recv_def l2tp_recv_StopCCN_def Let_def)
  qed (auto split: option.split)
  define c2 where "c2 = l2tp_tunnel_free_sessions (l2tp_tunnel_clear_sendqueue ((conn_finishing c1)
      \<lparr>c_state := STATE_FIN_WAIT, timeout_tpd := False, hello_tpd := False\<rparr>))"
  define c3 where "c3 = c2\<lparr>timeout_period := finwait_period (nat (c_max_retransmit c1)) (c_rtimeout c1) (c_rtimeout_cap c1) 0\<rparr>"
  have eq: "d = (if io_timer_ok io c3 then c3\<lparr>timeout_tpd := True\<rparr> else l2tp_tunnel_free (snd (l2tp_send_ZLB io c3)))"
    using assms(1) c1(1,2) by (simp add: l2tp_tunnel_finwait_def Let_def flip: c2_def c3_def)
  have f: "c_state c3 = STATE_FIN_WAIT" "c_sessions c3 = []" "send_queue c3 = []" "\<not> hello_tpd c3"
    by (simp_all add: c3_def c2_def free_sessions_keep l2tp_tunnel_clear_sendqueue_def)
  have t: "timeout_period c3 = (\<Sum>i<nat (c_max_retransmit c). backoff (c_rtimeout c) (c_rtimeout_cap c) i)"
    using finwait_period_sum [OF assms(4-6), of "nat (c_max_retransmit c)"] assms(7,8) c1 by (simp add: c3_def)
  have z: "c_state (snd (l2tp_send_ZLB io c3)) = STATE_FIN_WAIT"
    using same_part_state [OF same_part_ZLB [of c3 io]] f(1) by simp
  from tunnel_free_clean [of "snd (l2tp_send_ZLB io c3)"] z eq f t show ?thesis
    by (simp add: tunnel_state_def)
qed

theorem l2tp_finwait_covers_cycle_witness:
  "c_state (l2tp_dispatch demo_io demo_stopccn demo_estb) = STATE_FIN_WAIT \<and>
   timeout_period (l2tp_dispatch demo_io demo_stopccn demo_estb) = 31000"
proof -
  have p: "val_uint16 (la_val (hd (pk_attrs demo_stopccn))) = 4" "h_sid (pk_hdr demo_stopccn) = 0"
    by (simp_all add: demo_stopccn_def)
  have c: "c_state demo_estb \<in> {STATE_WAIT_SCCRP, STATE_WAIT_SCCCN, STATE_ESTB, STATE_FIN}" "c_rtimeout demo_estb = 1000"
    "c_rtimeout_cap demo_estb = 16000" "c_max_retransmit demo_estb = 5"
    by (simp_all add: demo_estb_def demo_conn_def conn_init_def demo_conf_def int32_def)
  have "(\<Sum>i<nat 5. backoff 1000 16000 i) = 31000" by (simp add: backoff_def eval_nat_numeral)
  with l2tp_finwait_covers_cycle [OF c(1) p, of demo_io] c show ?thesis by (simp add: demo_io_def)
qed

section \<open>Authentication\<close>

lemma checkchallresp_secret:
  assumes "l2tp_tunnel_checkchallresp io ident c (last_attr Challenge_Response p)" "c_secret c \<noteq> []"
  obtains chall a where "c_challenge c = Some chall" "a \<in> set (pk_attrs p)" "da_id (la_attr a) = Challenge_Response"
    "la_length a = 16"
    "take 16 (val_octets (la_val a)) = take 16 (comp_chap_md5 (env_md5 (io_env io)) ident (c_secret c) chall)"
  using assms that by (auto simp: l2tp_tunnel_checkchallresp_def split: option.splits if_splits dest!: last_attr_SomeD)

text \<open>
  C5: Authentication. A tunnel with a shared secret that is not yet established becomes established only by a message
  of type SCCRP or SCCCN whose Challenge Response attribute has 16 bytes and is the digest of the message's type, the
  secret and the challenge the daemon has stored for this tunnel.
\<close>

theorem l2tp_established_authenticated:
  assumes "tunnel_state (c_state c)" "c_secret c \<noteq> []" "c_state c \<noteq> STATE_ESTB"
    and "c_state (l2tp_dispatch io p c) = STATE_ESTB"
  shows "\<exists>ident \<in> {2, 3}. val_uint16 (la_val (hd (pk_attrs p))) = ucast ident \<and> (\<exists>chall a. c_challenge c = Some chall \<and> a \<in> set (pk_attrs p) \<and>
    da_id (la_attr a) = Challenge_Response \<and> la_length a = 16 \<and>
    take 16 (val_octets (la_val a)) = take 16 (comp_chap_md5 (env_md5 (io_env io)) ident (c_secret c) chall))"
proof -
  from dispatch_step [OF assms(1), of p io] assms(3,4) have "auth_msg io p c" by (simp add: conn_step_def)
  then obtain ident where "ident \<in> {2, 3}" "val_uint16 (la_val (hd (pk_attrs p))) = ucast ident"
    "l2tp_tunnel_checkchallresp io ident c (last_attr Challenge_Response p)"
    unfolding auth_msg_def by blast
  with checkchallresp_secret [OF this(3) assms(2)] show ?thesis by metis
qed

definition demo_auth_conn :: l2tp_conn_t where
  "demo_auth_conn = demo_conn\<lparr>c_state := STATE_WAIT_SCCCN, c_secret := [115], c_challenge := Some [1, 2, 3]\<rparr>"

definition demo_scccn :: "bytes \<Rightarrow> l2tp_packet_t" where
  "demo_scccn resp = (demo_hello 0)\<lparr>pk_attrs :=
     [\<lparr>la_attr = \<lparr>da_id = 0, da_type = ATTR_TYPE_INT16, da_M = -1, da_H = 0\<rparr>, la_M = True, la_H = False,
       la_length = 2, la_val = V_int16 3\<rparr>,
      \<lparr>la_attr = \<lparr>da_id = 13, da_type = ATTR_TYPE_OCTETS, da_M = 1, da_H = -1\<rparr>, la_M = True, la_H = False,
       la_length = 16, la_val = V_octets resp\<rparr>]\<rparr>"

lemma demo_scccn_accepted:
  "c_state (l2tp_dispatch demo_io (demo_scccn (comp_chap_md5 md5 3 [115] [1, 2, 3])) demo_auth_conn) = STATE_ESTB"
  by (simp add: demo_scccn_def demo_auth_conn_def l2tp_dispatch_def l2tp_tunnel_recv_def l2tp_recv_SCCCN_def Let_def
      unknown_attr_def last_attr_def l2tp_tunnel_checkchallresp_def l2tp_tunnel_storechall_def l2tp_tunnel_connect_def
      demo_io_def demo_env_def demo_hello_def)

theorem l2tp_established_authenticated_witness:
  "\<exists>a \<in> set (pk_attrs (demo_scccn (comp_chap_md5 md5 3 [115] [1, 2, 3]))). la_length a = 16"
proof -
  have "tunnel_state (c_state demo_auth_conn)" "c_secret demo_auth_conn \<noteq> []" "c_state demo_auth_conn \<noteq> STATE_ESTB"
    by (simp_all add: demo_auth_conn_def tunnel_state_def)
  from l2tp_established_authenticated [OF this demo_scccn_accepted] show ?thesis by blast
qed

section \<open>Book-keeping\<close>

text \<open>
  C9: Book-keeping. In every run, the number of sessions is the size of the search tree, session ids are distinct,
  not 0 and agree with their keys, the statistics count every session and the tunnel once and in the right
  class, the length of the send queue is right, queued messages refer to existing sessions only, and a
  tunnel that is going down has no sessions.
\<close>

theorem l2tp_bookkeeping:
  assumes "book_ok c" "l2tp_run False c c'"
  shows "book_ok c'"
  using run_book [OF assms(2,1)] .

theorem l2tp_bookkeeping_witness: "\<exists>c'. l2tp_run False demo_conn c' \<and> c_Nr demo_conn = 0 \<and> c_dequeued c' \<noteq> [] \<and> book_ok c'"
proof -
  obtain c' where c': "l2tp_run False demo_conn c'" "c_dequeued c' = [demo_hello 0, demo_hello 1]"
    using demo_run by blast
  with l2tp_bookkeeping [OF demo_book c'(1)] show ?thesis by auto
qed

section \<open>Session ids\<close>

text \<open>
  C27: A new session gets the first random number that is neither 0 nor the id of a session of the tunnel; the search
  fails exactly when a read fails before such a number comes, or none comes within the given number of attempts.
\<close>

theorem l2tp_pick_sid_first_free:
  "pick_sid rd ss n i = Some w \<longleftrightarrow>
     (\<exists>j < n. rd (i + j) = Some w \<and> w \<noteq> 0 \<and> map_of ss w = None \<and>
        (\<forall>l < j. \<exists>v. rd (i + l) = Some v \<and> (v = 0 \<or> map_of ss v \<noteq> None)))"
proof (induction n arbitrary: i)
  case 0
  show ?case by (simp add: pick_sid.simps)
next
  case (Suc n)
  show ?case
  proof (cases "rd i")
    case None
    then show ?thesis by (subst pick_sid.simps) (auto simp: Ex_less_Suc2 All_less_Suc2)
  next
    case (Some v)
    then show ?thesis
      by (subst pick_sid.simps) (auto simp: Suc.IH Ex_less_Suc2 All_less_Suc2)
  qed
qed

theorem l2tp_pick_sid_first_free_witness: "pick_sid (\<lambda>i. Some (of_nat i)) [] 5 0 = Some 1"
  unfolding l2tp_pick_sid_first_free by (rule exI [of _ 1]) simp

section \<open>Sequence numbers\<close>

text \<open>
  C26: The comparison of sequence numbers is the one RFC 2661 asks for, across the wrap-around: a number equals the last
  one received, or is one of the 32767 before it and compares as earlier, or else compares as later. The number
  exactly 32768 away is later on both sides.
\<close>

theorem l2tp_nsnr_cmp_window:
  "nsnr_cmp ns nr = (if ns = nr then 0 else if \<exists>i. 1 \<le> i \<and> i \<le> 32767 \<and> ns = nr - of_nat i then -1 else 1)"
proof -
  have v: "nsnr_cmp ns nr \<in> {-1, 0, 1}" by (simp add: nsnr_cmp_def Let_def)
  have "0 < unat (ns - nr) \<longleftrightarrow> ns \<noteq> nr" by (simp add: unat_gt_0)
  then have z: "nsnr_cmp ns nr = 0 \<longleftrightarrow> ns = nr"
    using nsnr_cmp_iff [of ns nr] by (cases "ns = nr") (simp, linarith)
  have neg: "nsnr_cmp ns nr < 0 \<longleftrightarrow> ns \<noteq> nr \<and> (\<exists>i \<le> 32767. ns = nr - of_nat i)"
    unfolding nsnr_cmp_rfc2661 [symmetric] z [symmetric] by (simp add: less_le conj_commute)
  have "(ns \<noteq> nr \<and> (\<exists>i \<le> 32767. ns = nr - of_nat i)) \<longleftrightarrow> ns \<noteq> nr \<and> (\<exists>i. 1 \<le> i \<and> i \<le> 32767 \<and> ns = nr - of_nat i)"
    (is "?L \<longleftrightarrow> ?R")
  proof
    assume ?L
    then obtain i where i: "ns \<noteq> nr" "i \<le> 32767" "ns = nr - of_nat i" by blast
    then have "1 \<le> i" by (cases i) simp_all
    with i show ?R by blast
  qed blast
  with neg have "nsnr_cmp ns nr < 0 \<longleftrightarrow> ns \<noteq> nr \<and> (\<exists>i. 1 \<le> i \<and> i \<le> 32767 \<and> ns = nr - of_nat i)" by (rule trans)
  with v z show ?thesis by (cases "ns = nr"; cases "nsnr_cmp ns nr < 0") simp_all
qed

section \<open>Taking a tunnel down\<close>

text \<open>The StopCCN message with result and error code.\<close>

definition StopCCN_pack :: "l2tp_io \<Rightarrow> u16 \<Rightarrow> u16 \<Rightarrow> l2tp_conn_t \<Rightarrow> l2tp_packet_t option" where
  "StopCCN_pack io res err c =
     pack_new io c (c_hide_avps c) 4 \<bind> add16 io c Assigned_Tunnel_ID (c_tid c) True
       \<bind> add_oct io c Result_Code (put16 res @ put16 err) True"

text \<open>A message has an attribute with a value: in clear, or ciphered by \<open>encode_attr\<close>.\<close>

definition has_avp :: "l2tp_io \<Rightarrow> int \<Rightarrow> bytes \<Rightarrow> l2tp_value_t \<Rightarrow> l2tp_packet_t \<Rightarrow> bool" where
  "has_avp io i v w q \<longleftrightarrow> (\<exists>a \<in> set (pk_attrs q). da_id (la_attr a) = i \<and>
     (if la_H a then \<exists>rnd p b. encode_attr (io_env io) rnd p b v = Some a
      else la_val a = w \<and> la_length a = int (length v)))"

lemma add_attr_has:
  assumes "add_attr env rnd p a v w = Some q"
  shows "set (pk_attrs p) \<subseteq> set (pk_attrs q)"
    and "env = io_env io \<Longrightarrow> has_avp io (da_id (la_attr a)) v w q"
proof -
  have rv: "set (pk_attrs p) \<subseteq> set (pk_attrs p')" if "l2tp_packet_add_random_vector env rnd p = Some p'" for p'
    using that by (rule add_random_vectorD) (auto simp: list_add_tail_def)
  have enc: "la_H b \<and> la_attr b = la_attr a" if "encode_attr env rnd p' a v = Some b" "la_H a" for p' b
    using that by (auto simp: encode_attr_def Let_def split: if_splits option.splits)
  show "set (pk_attrs p) \<subseteq> set (pk_attrs q)"
    using assms rv by (auto simp: add_attr_def list_add_tail_def split: if_splits option.splits)
  show "has_avp io (da_id (la_attr a)) v w q" if "env = io_env io"
    using assms enc that by (force simp: add_attr_def has_avp_def list_add_tail_def split: if_splits option.splits)
qed

lemma has_avp_mono: "has_avp io i v w p \<Longrightarrow> set (pk_attrs p) \<subseteq> set (pk_attrs q) \<Longrightarrow> has_avp io i v w q"
  by (auto simp: has_avp_def)

lemma add16_has:
  assumes "l2tp_packet_add_int16 (io_env io) rnd p i w M = Some q"
  shows "has_avp io i (put16 w) (V_int16 w) q" "set (pk_attrs p) \<subseteq> set (pk_attrs q)"
proof -
  from assms obtain a where a: "attr_alloc (io_env io) i M (pk_hide_avps p) = Some a"
    "add_attr (io_env io) rnd p a (put16 w) (V_int16 w) = Some q"
    by (auto simp: l2tp_packet_add_int16_def split: option.splits)
  have "da_id (la_attr a) = i" by (rule attr_allocD [OF a(1)]) simp
  with add_attr_has [OF a(2)] show "has_avp io i (put16 w) (V_int16 w) q" "set (pk_attrs p) \<subseteq> set (pk_attrs q)"
    by auto
qed

lemma add_oct_has:
  assumes "l2tp_packet_add_octets (io_env io) rnd p i v M = Some q" "v \<noteq> []"
  shows "has_avp io i v (V_octets v) q" "set (pk_attrs p) \<subseteq> set (pk_attrs q)"
proof -
  from assms obtain a where a: "attr_alloc (io_env io) i M (pk_hide_avps p) = Some a"
    "add_attr (io_env io) rnd p a v (V_octets v) = Some q"
    by (auto simp: l2tp_packet_add_octets_def split: option.splits)
  have "da_id (la_attr a) = i" by (rule attr_allocD [OF a(1)]) simp
  with add_attr_has [OF a(2)] show "has_avp io i v (V_octets v) q" "set (pk_attrs p) \<subseteq> set (pk_attrs q)"
    by auto
qed

text \<open>What a StopCCN says: its type, the tunnel's id, the result and the error code.\<close>

definition is_StopCCN :: "l2tp_io \<Rightarrow> u16 \<Rightarrow> u16 \<Rightarrow> u16 \<Rightarrow> l2tp_packet_t \<Rightarrow> bool" where
  "is_StopCCN io tid res err q \<longleftrightarrow> has_avp io Message_Type (put16 4) (V_int16 4) q \<and>
     has_avp io Assigned_Tunnel_ID (put16 tid) (V_int16 tid) q \<and>
     has_avp io Result_Code (put16 res @ put16 err) (V_octets (put16 res @ put16 err)) q"

lemma StopCCN_pack_content:
  assumes "StopCCN_pack io res err c = Some q"
  shows "is_StopCCN io (c_tid c) res err (set_tid t q)"
proof -
  from assms obtain p0 p1 p2 where p: "l2tp_packet_add_int16 (io_env io) (io_rnd io c 0) p0 Message_Type 4 True = Some p1"
    "l2tp_packet_add_int16 (io_env io) (pack_rnd io c p1) p1 Assigned_Tunnel_ID (c_tid c) True = Some p2"
    "l2tp_packet_add_octets (io_env io) (pack_rnd io c p2) p2 Result_Code (put16 res @ put16 err) True = Some q"
    by (auto simp: StopCCN_pack_def bind_eq_Some_conv pack_new_def add16_def add_oct_def l2tp_packet_alloc_def Let_def)
  have "put16 res @ put16 err \<noteq> []" by (simp add: put16_def)
  note o = add_oct_has [OF p(3) this]
  note m = has_avp_mono [OF add16_has(1) [OF p(1)] order_trans [OF add16_has(2) [OF p(2)] o(2)]]
  from m has_avp_mono [OF add16_has(1) [OF p(2)] o(2)] o(1) have "is_StopCCN io (c_tid c) res err q"
    by (simp add: is_StopCCN_def)
  then show ?thesis by (simp add: is_StopCCN_def has_avp_def set_tid_def)
qed

lemma disconnect_cases:
  fixes io :: l2tp_io and res err :: u16
  assumes "conn_live c"
  defines "stop \<equiv> StopCCN_pack io res err (l2tp_tunnel_clear_sendqueue (conn_finishing c))"
  shows "(\<exists>p c'. l2tp_tunnel_disconnect io res err c = (True, c') \<and> stop = Some p \<and>
       send_queue c' = [(None, set_tid (c_peer_tid c) p)] \<and> is_StopCCN io (c_tid c) res err (set_tid (c_peer_tid c) p) \<and>
       c_state c' = STATE_FIN \<and> c_sessions c' = [] \<and> \<not> timeout_tpd c' \<and> \<not> hello_tpd c') \<or>
     (\<exists>c'. l2tp_tunnel_disconnect io res err c = (False, c') \<and> stop = None \<and> c_state c' = STATE_CLOSE \<and> c_sessions c' = [] \<and>
       \<not> timeout_tpd c' \<and> \<not> rtimeout_tpd c' \<and> \<not> hello_tpd c' \<and> send_queue c' = [] \<and> rtms_queue c' = [])"
proof -
  define d where "d = l2tp_tunnel_clear_sendqueue (conn_finishing c)"
  have st: "c_state c \<in> {STATE_INIT, STATE_WAIT_SCCRP, STATE_WAIT_SCCCN, STATE_ESTB}"
    using assms by (cases "c_state c") (simp_all add: conn_live_def tunnel_state_def)
  have d: "c_state d = c_state c" "c_peer_tid d = c_peer_tid c" "send_queue d = []" "c_tid d = c_tid c" "stop = StopCCN_pack io res err d"
    by (simp_all add: d_def stop_def l2tp_tunnel_clear_sendqueue_def conn_finishing_def)
  have stop: "l2tp_send_StopCCN io res err d = (case StopCCN_pack io res err d of None \<Rightarrow> (False, d)
      | Some p \<Rightarrow> (True, snd (l2tp_tunnel_send p d)))"
    by (simp add: l2tp_send_StopCCN_def StopCCN_pack_def)
  show ?thesis
  proof (cases "StopCCN_pack io res err d")
    case None
    with st stop have "l2tp_tunnel_disconnect io res err c = (False, l2tp_tunnel_free (d\<lparr>c_state := STATE_FIN\<rparr>))"
      by (simp add: l2tp_tunnel_disconnect_def Let_def flip: d_def)
    with tunnel_free_clean [of "d\<lparr>c_state := STATE_FIN\<rparr>"] None d(5) show ?thesis by (simp add: tunnel_state_def)
  next
    case (Some p)
    define e where "e = (snd (l2tp_tunnel_send p d))\<lparr>c_state := STATE_FIN, timeout_tpd := False, hello_tpd := False\<rparr>"
    have "send_queue e = [(None, set_tid (c_peer_tid c) p)]"
      using st d by (auto simp: e_def l2tp_tunnel_send_def)
    moreover from st stop Some have "l2tp_tunnel_disconnect io res err c = (True, l2tp_tunnel_free_sessions e)"
      by (simp add: l2tp_tunnel_disconnect_def Let_def e_def flip: d_def)
    moreover have "c_state (l2tp_tunnel_free_sessions e) = STATE_FIN"
      using free_sessions_part(1) [of e] by (simp add: rcv_part_def e_def)
    ultimately show ?thesis using Some d(4,5) StopCCN_pack_content [OF Some, of "c_peer_tid c"]
      by (simp add: l2tp_tunnel_free_sessions_def fold_release_keep) (simp add: e_def)
  qed
qed

text \<open>
  C21: Taking a tunnel down. When a tunnel that is being set up or established is disconnected and its StopCCN can be
  built, the only message left to send is that StopCCN, which carries the tunnel's id and the given codes; nothing of
  its sessions is left, the establishment and hello timers are off and the tunnel waits in \<open>FIN\<close>. The
  tunnel is closed instead, with all its timers off and its queues empty, exactly when the message cannot be built.
\<close>

theorem l2tp_disconnect_outcome:
  fixes io :: l2tp_io and res err :: u16
  assumes "conn_live c"
  defines "stop \<equiv> StopCCN_pack io res err (l2tp_tunnel_clear_sendqueue (conn_finishing c))"
  shows "(\<exists>p c'. l2tp_tunnel_disconnect io res err c = (True, c') \<and> stop = Some p \<and>
       send_queue c' = [(None, set_tid (c_peer_tid c) p)] \<and> is_StopCCN io (c_tid c) res err (set_tid (c_peer_tid c) p) \<and>
       c_state c' = STATE_FIN \<and> c_sessions c' = [] \<and> \<not> timeout_tpd c' \<and> \<not> hello_tpd c') \<or>
     (\<exists>c'. l2tp_tunnel_disconnect io res err c = (False, c') \<and> stop = None \<and> c_state c' = STATE_CLOSE \<and> c_sessions c' = [] \<and>
       \<not> timeout_tpd c' \<and> \<not> rtimeout_tpd c' \<and> \<not> hello_tpd c' \<and> send_queue c' = [] \<and> rtms_queue c' = [])"
  using disconnect_cases [OF assms(1)] by (simp only: stop_def)

text \<open>A dictionary with the attributes of a StopCCN.\<close>

definition stop_io :: l2tp_io where
  "stop_io = demo_io\<lparr>io_env := demo_env\<lparr>env_dict := env_dict demo_env @
     [\<lparr>da_id = 1, da_type = ATTR_TYPE_OCTETS, da_M = 1, da_H = 0\<rparr>]\<rparr>\<rparr>"

lemma stop_io_pack: "\<not> c_hide_avps c \<Longrightarrow> StopCCN_pack stop_io res err c \<noteq> None"
  by (simp add: StopCCN_pack_def stop_io_def demo_io_def demo_env_def pack_new_def l2tp_packet_alloc_def add16_def add_oct_def
      l2tp_packet_add_int16_def l2tp_packet_add_octets_def attr_alloc_def l2tp_dict_find_attr_by_id_def add_attr_def
      list_add_tail_def put16_def)

theorem l2tp_disconnect_outcome_witness:
  "\<exists>c' q. l2tp_tunnel_disconnect stop_io 1 0 demo_estb = (True, c') \<and> c_state c' = STATE_FIN \<and> send_queue c' = [(None, q)] \<and>
     is_StopCCN stop_io 7 1 0 q \<and> \<not> hello_tpd c'"
proof -
  have "conn_live demo_estb" by (simp add: conn_live_def tunnel_state_def)
  moreover have "StopCCN_pack stop_io 1 0 (l2tp_tunnel_clear_sendqueue (conn_finishing demo_estb)) \<noteq> None"
    by (rule stop_io_pack)
      (simp add: l2tp_tunnel_clear_sendqueue_def conn_finishing_def demo_estb_def demo_conn_def conn_init_def)
  moreover have "c_tid demo_estb = 7" by (simp add: demo_estb_def)
  ultimately show ?thesis using l2tp_disconnect_outcome [of demo_estb stop_io 1 0] by auto
qed

section \<open>A wrong answer to the challenge\<close>

text \<open>
  The SCCRP or SCCCN a tunnel is waiting for, with everything in order up to the Challenge Response: the attributes
  the handler asks for, no unknown mandatory one, and for an SCCRP version 1.0 and a receive window
  from 1 to 32768.
\<close>

definition awaited_setup :: "u8 \<Rightarrow> l2tp_packet_t \<Rightarrow> l2tp_conn_t \<Rightarrow> bool" where
  "awaited_setup ident p c \<longleftrightarrow> h_sid (pk_hdr p) = 0 \<and> val_uint16 (la_val (hd (pk_attrs p))) = ucast ident \<and>
     (ident = 3 \<and> c_state c = STATE_WAIT_SCCCN \<and>
        \<not> unknown_attr [Message_Type, Host_Name, Vendor_Name, Bearer_Capabilities, Recv_Window_Size, Protocol_Version,
            Framing_Capabilities, Assigned_Tunnel_ID, Random_Vector, Challenge_Response] p \<or>
      ident = 2 \<and> c_state c = STATE_WAIT_SCCRP \<and> last_attr Assigned_Tunnel_ID p \<noteq> None \<and>
        \<not> unknown_attr [Message_Type, Random_Vector, Host_Name, Bearer_Capabilities, Firmware_Revision, Vendor_Name,
            Protocol_Version, Framing_Capabilities, Assigned_Tunnel_ID, Recv_Window_Size, Challenge, Challenge_Response] p \<and>
        last_attr Framing_Capabilities p \<noteq> None \<and>
        map_option (\<lambda>v. val_uint16 (la_val v)) (last_attr Protocol_Version p) = Some 0x0100 \<and>
        (case last_attr Recv_Window_Size p of None \<Rightarrow> True
         | Some a \<Rightarrow> val_uint16 (la_val a) \<noteq> 0 \<and> val_uint16 (la_val a) \<le> 32768))"

lemma setup_refused:
  assumes "awaited_setup ident p c" "\<not> l2tp_tunnel_checkchallresp io ident c (last_attr Challenge_Response p)"
  obtains d where "l2tp_dispatch io p c = snd (l2tp_tunnel_disconnect io 4 0 d)" "conn_live d" "c_tid d = c_tid c"
    "c_hide_avps d = c_hide_avps c"
proof (cases "ident = 3")
  case True
  with assms have "l2tp_dispatch io p c = snd (l2tp_tunnel_disconnect io 4 0 c)" "conn_live c"
    by (simp_all add: awaited_setup_def l2tp_dispatch_def l2tp_tunnel_recv_def l2tp_recv_SCCCN_def Let_def conn_live_def
        tunnel_state_def)
  with that show thesis by blast
next
  case False
  with assms(1) obtain t v where a: "ident = 2" "c_state c = STATE_WAIT_SCCRP" "last_attr Assigned_Tunnel_ID p = Some t"
    "last_attr Protocol_Version p = Some v" "val_uint16 (la_val v) = 0x0100"
    by (auto simp: awaited_setup_def)
  define d where "d = snd (sccrp_window p (c\<lparr>c_peer_tid := val_uint16 (la_val t)\<rparr>))"
  have w: "sccrp_window p (c\<lparr>c_peer_tid := val_uint16 (la_val t)\<rparr>) = (True, d)"
    using assms(1) False by (auto simp: d_def awaited_setup_def sccrp_window_def not_less split: option.splits)
  have d: "c_secret d = c_secret c" "c_challenge d = c_challenge c" "c_state d = c_state c" "c_tid d = c_tid c"
    "c_hide_avps d = c_hide_avps c"
    by (simp_all add: d_def sccrp_window_def split: option.split)
  have chk: "l2tp_tunnel_checkchallresp io ident d = l2tp_tunnel_checkchallresp io ident c"
    by (rule ext) (simp only: l2tp_tunnel_checkchallresp_def d(1,2))
  have "l2tp_dispatch io p c = sccrp_finish io p d"
    using assms(1) False a w
    by (auto simp: awaited_setup_def l2tp_dispatch_def l2tp_tunnel_recv_def l2tp_recv_SCCRP_def Let_def)
  also have "\<dots> = snd (l2tp_tunnel_disconnect io 4 0 d)"
    using assms(2) a(1) chk by (simp add: sccrp_finish_def)
  finally show thesis using that d(3-5) a(2) by (simp add: conn_live_def tunnel_state_def)
qed

text \<open>
  C22: A wrong answer to the challenge. When a tunnel with a secret gets the SCCRP or SCCCN it waits for, well-formed, but
  none of the message's Challenge Response attributes has 16 bytes that are the digest of the message's type, the secret
  and the stored challenge (because there is none, it is wrong, or no challenge is stored), the tunnel is taken down: no
  session is left, and the only message to send is a StopCCN with result code 4, not authorised, and error code 0,
  with the tunnel in \<open>FIN\<close>; or that message cannot be built and the tunnel is closed with nothing left to send.
\<close>

theorem l2tp_wrong_response_refused:
  fixes io :: l2tp_io
  assumes "awaited_setup ident p c" "c_secret c \<noteq> []"
    and "\<And>chall a. c_challenge c = Some chall \<Longrightarrow> a \<in> set (pk_attrs p) \<Longrightarrow> da_id (la_attr a) = Challenge_Response \<Longrightarrow>
      la_length a = 16 \<Longrightarrow> take 16 (val_octets (la_val a)) \<noteq> take 16 (env_md5 (io_env io) ([ident] @ c_secret c @ chall))"
  defines "c' \<equiv> l2tp_dispatch io p c"
  shows "c_sessions c' = [] \<and> \<not> timeout_tpd c' \<and> \<not> hello_tpd c' \<and>
    (c_state c' = STATE_FIN \<and> (\<exists>q. send_queue c' = [(None, q)] \<and> is_StopCCN io (c_tid c) 4 0 q) \<or>
     c_state c' = STATE_CLOSE \<and> send_queue c' = [] \<and> rtms_queue c' = [] \<and>
       (\<exists>d. c_tid d = c_tid c \<and> c_hide_avps d = c_hide_avps c \<and> StopCCN_pack io 4 0 d = None))"
proof -
  have "\<not> l2tp_tunnel_checkchallresp io ident c (last_attr Challenge_Response p)"
  proof
    assume "l2tp_tunnel_checkchallresp io ident c (last_attr Challenge_Response p)"
    from checkchallresp_secret [OF this assms(2)] assms(3) show False by (metis comp_chap_md5_def)
  qed
  from setup_refused [OF assms(1) this] obtain d where d: "c' = snd (l2tp_tunnel_disconnect io 4 0 d)" "conn_live d"
    "c_tid d = c_tid c" "c_hide_avps d = c_hide_avps c" unfolding c'_def by blast
  have t: "c_tid (l2tp_tunnel_clear_sendqueue (conn_finishing d)) = c_tid c"
    "c_hide_avps (l2tp_tunnel_clear_sendqueue (conn_finishing d)) = c_hide_avps c"
    by (simp_all add: d(3,4) l2tp_tunnel_clear_sendqueue_def conn_finishing_def)
  from disconnect_cases [OF d(2), of io 4 0] show ?thesis
  proof (elim disjE exE conjE)
    fix e assume "StopCCN_pack io 4 0 (l2tp_tunnel_clear_sendqueue (conn_finishing d)) = None"
      "l2tp_tunnel_disconnect io 4 0 d = (False, e)" "c_state e = STATE_CLOSE" "c_sessions e = []" "\<not> timeout_tpd e"
      "\<not> hello_tpd e" "send_queue e = []" "rtms_queue e = []"
    with t d(1) show ?thesis by auto
  qed (simp add: d)
qed

theorem l2tp_wrong_response_refused_witness:
  "\<exists>q. c_state (l2tp_dispatch stop_io (demo_scccn (map (\<lambda>b. b + 1) (md5 [3, 115, 1, 2, 3]))) demo_auth_conn) = STATE_FIN \<and>
     send_queue (l2tp_dispatch stop_io (demo_scccn (map (\<lambda>b. b + 1) (md5 [3, 115, 1, 2, 3]))) demo_auth_conn) = [(None, q)] \<and>
     is_StopCCN stop_io 7 4 0 q"
proof -
  define d where "d = md5 [3, 115, 1, 2, 3]"
  let ?p = "demo_scccn (map (\<lambda>b. b + 1) d)"
  have len: "length d = 16" unfolding d_def by (rule md5d.digest_length)
  then have "map (\<lambda>b. b + 1) d \<noteq> d" by (cases d) auto
  with len have wrong: "take 16 (map (\<lambda>b. b + 1) d) \<noteq> take 16 d" by simp
  have p: "awaited_setup 3 ?p demo_auth_conn"
    by (simp add: awaited_setup_def demo_scccn_def demo_auth_conn_def unknown_attr_def)
  have c: "c_secret demo_auth_conn = [115]" "c_challenge demo_auth_conn = Some [1, 2, 3]" "c_tid demo_auth_conn = 7"
    "\<not> c_hide_avps demo_auth_conn"
    by (simp_all add: demo_auth_conn_def demo_conn_def conn_init_def)
  have io: "env_md5 (io_env stop_io) ([3] @ [115] @ [1, 2, 3]) = d"
    by (simp add: stop_io_def demo_io_def demo_env_def d_def)
  have "take 16 (val_octets (la_val a)) \<noteq> take 16 (env_md5 (io_env stop_io) ([3] @ c_secret demo_auth_conn @ chall))"
    if "c_challenge demo_auth_conn = Some chall" "a \<in> set (pk_attrs ?p)" "da_id (la_attr a) = Challenge_Response" for chall a
  proof -
    have "chall = [1, 2, 3]" using that(1) c(2) by simp
    moreover have "val_octets (la_val a) = map (\<lambda>b. b + 1) d" using that(2,3) by (auto simp: demo_scccn_def)
    ultimately show ?thesis using wrong io by (simp only: c(1) not_False_eq_True)
  qed
  note t = l2tp_wrong_response_refused [OF p _ this]
  have "c_secret demo_auth_conn \<noteq> []" using c(1) by simp
  moreover have "\<not> (\<exists>x. c_tid x = c_tid demo_auth_conn \<and> c_hide_avps x = c_hide_avps demo_auth_conn \<and>
      StopCCN_pack stop_io 4 0 x = None)"
    using stop_io_pack c(4) by blast
  ultimately have "c_state (l2tp_dispatch stop_io ?p demo_auth_conn) = STATE_FIN \<and>
      (\<exists>q. send_queue (l2tp_dispatch stop_io ?p demo_auth_conn) = [(None, q)] \<and> is_StopCCN stop_io (c_tid demo_auth_conn) 4 0 q)"
    using t by blast
  then show ?thesis unfolding d_def c(3) by blast
qed

section \<open>Where the code departs from its intent\<close>

text \<open>
  A receive window of 32768 is accepted from the peer, but the comparison of sequence numbers then finds
  the window always full: nothing is ever sent.
\<close>

lemma window_32768_stalls:
  assumes "peer_rcv_wnd_sz c = 32768" "c_Ns c = c_peer_Nr c"
  shows "l2tp_tunnel_push_sendqueue io c = (0, c)"
  using assms by (simp add: l2tp_tunnel_push_sendqueue_def push_loop.simps [of io _ c 0] nsnr_cmp_iff split: list.split)

text \<open>An acknowledgement exactly 32768 ahead of what was sent passes the test for unsent messages and is believed.\<close>

lemma ack_32768_believed:
  assumes "c_peer_Nr c = c_Ns c" "pack_Nr p = c_Ns c + 32768" "l2tp_tunnel_store_msg p a c = (s, a', c')"
  shows "c_peer_Nr c' = c_Ns c + 32768"
  using assms by (auto simp: l2tp_tunnel_store_msg_def nsnr_cmp_iff Let_def split: if_splits)

definition call_io :: l2tp_io where
  "call_io = demo_io\<lparr>io_env := demo_env\<lparr>env_dict := env_dict demo_env @ [\<lparr>da_id = 14, da_type = ATTR_TYPE_INT16, da_M = 1, da_H = 0\<rparr>]\<rparr>\<rparr>"

definition demo_icrq :: l2tp_packet_t where
  "demo_icrq = (demo_hello 0)\<lparr>pk_attrs :=
     [\<lparr>la_attr = \<lparr>da_id = 0, da_type = ATTR_TYPE_INT16, da_M = -1, da_H = 0\<rparr>, la_M = True, la_H = False,
       la_length = 2, la_val = V_int16 10\<rparr>,
      \<lparr>la_attr = \<lparr>da_id = 14, da_type = ATTR_TYPE_INT16, da_M = 1, da_H = -1\<rparr>, la_M = True, la_H = False,
       la_length = 2, la_val = V_int16 5\<rparr>]\<rparr>"

text \<open>
  A call request is accepted before the tunnel is established, hence before the peer has been authenticated: the guard
  joins the two conditions for a refusal with a conjunction.
\<close>

lemma early_call_accepted:
  assumes "c = demo_conn\<lparr>c_state := STATE_WAIT_SCCRP, c_lns_mode := False, c_secret := [115]\<rparr>"
  shows "map_option s_state1 (get_sess (l2tp_dispatch call_io demo_icrq c) 1) = Some STATE_WAIT_ICCN"
proof -
  have f: "c_state c = STATE_WAIT_SCCRP" "\<not> c_lns_mode c" "c_sessions c = []" "\<not> c_hide_avps c"
    by (simp_all add: assms demo_conn_def conn_init_def)
  have io: "\<And>c. io_timer_ok call_io c" "\<not> ap_shutdown call_io" "conf_max_starting call_io = 0" "conf_max_sessions call_io = 0"
    "\<And>a. \<not> io_connlimit call_io a"
    "env_dict (io_env call_io) = env_dict demo_env @ [\<lparr>da_id = 14, da_type = ATTR_TYPE_INT16, da_M = 1, da_H = 0\<rparr>]"
    by (simp_all add: call_io_def demo_io_def)
  have sid: "pick_sid (io_urandom16 call_io c) [] 65535 0 = Some 1"
    by (simp add: pick_sid.simps call_io_def demo_io_def)
  have al: "l2tp_tunnel_alloc_session call_io c = Some (1, c\<lparr>c_sessions := [(1, sess_init call_io c 1)],
      sess_count := sess_count c + 1, stat_sess_starting := stat_sess_starting c + 1\<rparr>)"
    by (simp add: l2tp_tunnel_alloc_session_def f sid)
  show ?thesis
    using f
    by (simp add: l2tp_dispatch_def demo_icrq_def l2tp_tunnel_recv_def l2tp_recv_ICRQ_def recv_call_request_def al
      call_refused_def last_attr_def unknown_attr_def Let_def l2tp_session_incall_reply_def io demo_env_def
      l2tp_send_ICRP_def sess_message_def pack_new_def add16_def l2tp_packet_alloc_def list_add_tail_def
      l2tp_packet_add_int16_def attr_alloc_def l2tp_dict_find_attr_by_id_def add_attr_def upd_sess_def sess_init_def
      l2tp_session_send_def l2tp_tunnel_send_def)
qed

end
