(* ===== verification/L2tp_Server.thy ===== *)
theory L2tp_Server
  imports L2tp_Correct L2tp_Ident Iprange Connlimit
begin

text \<open>
  The L2TP server of \<open>micro-bngd/ctrl/l2tp/l2tp.c\<close> around its tunnels: the configuration, the table of
  tunnels, how a tunnel is made for a Start-Control-Connection-Request or for a command of the command line
  interface, and the reception on the server's socket, which consults the client ranges and the connection
  limit. The settings that a message reaches through \<open>l2tp_io\<close> are those of the time of the message.
\<close>

section \<open>Configuration\<close>

datatype mppe = MPPE_UNSET | MPPE_ALLOW | MPPE_DENY | MPPE_PREFER | MPPE_REQUIRE

record l2tp_settings = l2tp_conf +
  cfg_verbose :: bool
  cfg_ephemeral_ports :: bool
  cfg_hide_avps :: bool
  cfg_avp_permissive :: bool
  cfg_dataseq :: l2tp_dataseq
  cfg_reorder_timeout :: int
  cfg_ppp_max_mtu :: int
  cfg_host_name :: string
  cfg_secret :: "string option"
  cfg_dir300_quirk :: int
  cfg_mppe :: mppe
  cfg_ip_pool :: "string option"
  cfg_ipv6_pool :: "string option"
  cfg_dpv6_pool :: "string option"
  cfg_ifname :: "string option"
  cfg_session_timeout :: int

text \<open>An option that is taken when its number is at least \<open>lo\<close> (and at most \<open>hi\<close>).\<close>

definition opt_num :: "(string \<Rightarrow> string option) \<Rightarrow> string \<Rightarrow> (int \<Rightarrow> bool) \<Rightarrow> int \<Rightarrow> int" where
  "opt_num opt name ok old =
     (case opt name of None \<Rightarrow> old | Some s \<Rightarrow> if ok (atoi s) then atoi s else old)"

definition opt_flag :: "(string \<Rightarrow> string option) \<Rightarrow> string \<Rightarrow> bool \<Rightarrow> bool" where
  "opt_flag opt name old =
     (case opt name of None \<Rightarrow> old | Some s \<Rightarrow> if atoi s \<ge> 0 then atoi s > 0 else old)"

definition opt_enum :: "(string \<Rightarrow> string option) \<Rightarrow> string \<Rightarrow> (string \<times> 'a) list \<Rightarrow> 'a \<Rightarrow> 'a" where
  "opt_enum opt name vals old =
     (case opt name of None \<Rightarrow> old | Some s \<Rightarrow> (case map_of vals s of None \<Rightarrow> old | Some v \<Rightarrow> v))"

definition l2tp_load_config :: "(string \<Rightarrow> string option) \<Rightarrow> l2tp_settings \<Rightarrow> l2tp_settings" where
  "l2tp_load_config opt k =
     (let rtimeout = opt_num opt ''rtimeout'' (\<lambda>n. n > 0) 1;
          rtimeout_cap = opt_num opt ''rtimeout-cap'' (\<lambda>n. n > 0) 16
      in \<lparr>conf_recv_window = of_int (opt_num opt ''recv-window'' (\<lambda>n. n > 0 \<and> n \<le> 32768) 16),
          conf_l2tp_timeout = opt_num opt ''timeout'' (\<lambda>n. n > 0) (conf_l2tp_timeout k),
          conf_rtimeout = rtimeout,
          conf_rtimeout_cap = (if rtimeout_cap < rtimeout then rtimeout else rtimeout_cap),
          conf_retransmit = opt_num opt ''retransmit'' (\<lambda>n. n > 0) 5,
          conf_hello = opt_num opt ''hello-interval'' (\<lambda>n. n > 0) (conf_hello k),
          cfg_verbose = opt_flag opt ''verbose'' (cfg_verbose k),
          cfg_ephemeral_ports = opt_flag opt ''use-ephemeral-ports'' (cfg_ephemeral_ports k),
          cfg_hide_avps = opt_flag opt ''hide-avps'' (cfg_hide_avps k),
          cfg_avp_permissive = opt_flag opt ''avp_permissive'' (cfg_avp_permissive k),
          cfg_dataseq = opt_enum opt ''dataseq'' [(''deny'', L2TP_DATASEQ_DENY), (''allow'', L2TP_DATASEQ_ALLOW),
            (''prefer'', L2TP_DATASEQ_PREFER), (''require'', L2TP_DATASEQ_REQUIRE)] (cfg_dataseq k),
          cfg_reorder_timeout = opt_num opt ''reorder-timeout'' (\<lambda>n. n \<ge> 0) (cfg_reorder_timeout k),
          cfg_ppp_max_mtu = opt_num opt ''ppp-max-mtu'' (\<lambda>n. n > 0) 1420,
          cfg_host_name = (case opt ''host-name'' of None \<Rightarrow> ''micro-bng'' | Some s \<Rightarrow> s),
          cfg_secret = opt ''secret'',
          cfg_dir300_quirk = opt_num opt ''dir300_quirk'' (\<lambda>_. True) (cfg_dir300_quirk k),
          cfg_mppe = opt_enum opt ''mppe'' [(''deny'', MPPE_DENY), (''allow'', MPPE_ALLOW), (''prefer'', MPPE_PREFER),
            (''require'', MPPE_REQUIRE)] MPPE_UNSET,
          cfg_ip_pool = opt ''ip-pool'', cfg_ipv6_pool = opt ''ipv6-pool'',
          cfg_dpv6_pool = opt ''ipv6-pool-delegate'', cfg_ifname = opt ''ifname'',
          cfg_session_timeout = opt_num opt ''session-timeout'' (\<lambda>_. True) 0\<rparr>)"

text \<open>The settings before the first load.\<close>

definition l2tp_defaults :: l2tp_settings where
  "l2tp_defaults =
     \<lparr>conf_recv_window = 16, conf_l2tp_timeout = 60, conf_rtimeout = 1, conf_rtimeout_cap = 16, conf_retransmit = 5,
      conf_hello = 60, cfg_verbose = False, cfg_ephemeral_ports = False, cfg_hide_avps = False,
      cfg_avp_permissive = False, cfg_dataseq = L2TP_DATASEQ_ALLOW, cfg_reorder_timeout = 0, cfg_ppp_max_mtu = 1420,
      cfg_host_name = ''micro-bng'', cfg_secret = None, cfg_dir300_quirk = 0, cfg_mppe = MPPE_UNSET,
      cfg_ip_pool = None, cfg_ipv6_pool = None, cfg_dpv6_pool = None, cfg_ifname = None, cfg_session_timeout = 0\<rparr>"

section \<open>Making and starting a tunnel\<close>

text \<open>
  The table \<open>l2tp_conn\<close>. A closed tunnel leaves it: \<open>l2tp_tunnel_free\<close> clears the entry when it sets the
  state.
\<close>

type_synonym l2tp_tab = "u16 \<Rightarrow> l2tp_conn_t option"

definition tab_put :: "u16 \<Rightarrow> l2tp_conn_t \<Rightarrow> l2tp_tab \<Rightarrow> l2tp_tab" where
  "tab_put tid c tab = tab(tid := (if c_state c = STATE_CLOSE then None else Some c))"

text \<open>
  The outcomes of the calls of \<open>l2tp_tunnel_alloc\<close>: memory, all the calls that set up the socket (the first that
  fails ends the function), the receive queue, the random ids; and those of \<open>l2tp_tunnel_start\<close>: registering
  the context, enabling the handler, adding the timer, posting the first call.
\<close>

record alloc_io =
  al_mem :: bool
  al_socket :: bool
  al_queue :: bool
  al_urandom :: "nat \<Rightarrow> u16 option"

record start_io =
  st_ctx :: bool
  st_handler :: bool
  st_timer :: bool
  st_call :: bool

fun pick_tid :: "(u16 \<Rightarrow> bool) \<Rightarrow> (nat \<Rightarrow> u16 option) \<Rightarrow> nat \<Rightarrow> nat \<Rightarrow> u16 option" where
  "pick_tid used rd 0 i = None"
| "pick_tid used rd (Suc n) i =
     (case rd i of
        None \<Rightarrow> None
      | Some w \<Rightarrow> if w = 0 \<or> used w then pick_tid used rd n (Suc i) else Some w)"

definition l2tp_tunnel_alloc ::
    "l2tp_settings \<Rightarrow> alloc_io \<Rightarrow> u32 \<times> u16 \<Rightarrow> u32 \<Rightarrow> bool \<Rightarrow> bool \<Rightarrow> bool \<Rightarrow> l2tp_tab \<Rightarrow> (l2tp_conn_t \<times> l2tp_tab) option"
where
  "l2tp_tunnel_alloc k al peer framing_cap lns_mode port_set hide_avps tab =
     (if \<not> al_mem al \<or> \<not> al_socket al \<or> \<not> al_queue al then None
      else
        (case pick_tid (\<lambda>w. tab w \<noteq> None) (al_urandom al) 65535 0 of
           None \<Rightarrow> None
         | Some tid \<Rightarrow>
             (let c = conn_init (l2tp_conf.truncate k) tid peer framing_cap lns_mode port_set hide_avps
              in Some (c, tab(tid \<mapsto> c)))))"

definition l2tp_tunnel_start :: "start_io \<Rightarrow> l2tp_conn_t \<Rightarrow> bool \<times> l2tp_conn_t" where
  "l2tp_tunnel_start st c =
     (if \<not> st_ctx st then (False, c)
      else
        (let c1 = c\<lparr>c_registered := True\<rparr>
         in if \<not> st_handler st then (False, c1\<lparr>c_registered := False\<rparr>)
            else if \<not> st_timer st then (False, c1\<lparr>c_registered := False\<rparr>)
            else
              (let c2 = c1\<lparr>timeout_tpd := True\<rparr>
               in if \<not> st_call st then (False, c2\<lparr>timeout_tpd := False, c_registered := False\<rparr>)
                  else (True, c2))))"

section \<open>Start-Control-Connection-Request\<close>

text \<open>
  The state of the server: the tunnels, the peers that the connection limit remembers, the client ranges. Two
  fields are not in the source and no function reads them: \<open>srv_checks\<close> lists the attempts that were put to the
  connection limit, \<open>srv_started\<close> the peers for which a tunnel was started.
\<close>

record l2tp_srv =
  srv_tab :: l2tp_tab
  srv_peers :: "item list"
  srv_ranges :: iprange_state
  srv_checks :: "(timespec \<times> u64) list"
  srv_started :: "u32 list"

text \<open>What the rest of the daemon and the system decide for one request.\<close>

record sccrq_io =
  sq_shutdown :: bool
  sq_starting :: nat
  sq_active :: nat
  sq_max_starting :: nat
  sq_max_sessions :: nat
  sq_connlimit :: bool
  sq_now :: timespec
  sq_alloc :: alloc_io
  sq_strdup :: bool
  sq_start :: start_io

definition cl_key_from_ipv4 :: "u32 \<Rightarrow> u64" where
  "cl_key_from_ipv4 ip = ucast ip"

fun val_uint32 :: "l2tp_value_t \<Rightarrow> u32" where
  "val_uint32 (V_int32 w) = w"
| "val_uint32 _ = 0"

definition str_bytes :: "string \<Rightarrow> bytes" where
  "str_bytes s = map of_char s"

text \<open>The new tunnel between its allocation and its start; \<open>None\<close> for an error, after which it is freed.\<close>

definition sccrq_setup :: "l2tp_settings \<Rightarrow> sccrq_io \<Rightarrow> l2tp_attr_t \<Rightarrow> l2tp_packet_t \<Rightarrow> l2tp_conn_t \<Rightarrow> bool \<times> l2tp_conn_t" where
  "sccrq_setup k q assigned_tid p c =
     (let (ok, c1) = (case last_attr Recv_Window_Size p of
                        None \<Rightarrow> (True, c)
                      | Some a \<Rightarrow>
                          (\<not> (attr_uint16 a = 0 \<or> attr_uint16 a > 32768), c\<lparr>peer_rcv_wnd_sz := attr_uint16 a\<rparr>))
      in if \<not> ok then (False, c1)
         else
           (let (ok, c2) = (case cfg_secret k of
                              None \<Rightarrow> (True, c1)
                            | Some s \<Rightarrow> if sq_strdup q then (True, c1\<lparr>c_secret := str_bytes s\<rparr>) else (False, c1))
            in if \<not> ok then (False, c2)
               else
                 (let (ok, c3) = l2tp_tunnel_storechall c2 (last_attr Challenge p)
                  in if \<not> ok then (False, c3)
                     else l2tp_tunnel_start (sq_start q)
                            (c3\<lparr>c_peer_tid := attr_uint16 assigned_tid, c_port_set := True, c_Nr := 1\<rparr>))))"

definition sccrq_new_tunnel ::
    "l2tp_settings \<Rightarrow> sccrq_io \<Rightarrow> l2tp_attr_t \<Rightarrow> l2tp_packet_t \<Rightarrow> l2tp_srv \<Rightarrow> int \<times> l2tp_srv" where
  "sccrq_new_tunnel k q assigned_tid p s =
     (case (last_attr Protocol_Version p, last_attr Framing_Capabilities p) of
        (Some protocol_version, Some framing_cap) \<Rightarrow>
          if attr_uint16 protocol_version \<noteq> 0x0100 then (-1, s)
          else
            (case l2tp_tunnel_alloc k (sq_alloc q) (pk_addr p) (val_uint32 (la_val framing_cap)) True True
                    (cfg_hide_avps k) (srv_tab s) of
               None \<Rightarrow> (-1, s)
             | Some (c, tab) \<Rightarrow>
                 (let (ok, c') = sccrq_setup k q assigned_tid p c
                  in if \<not> ok then (-1, s\<lparr>srv_tab := tab_put (c_tid c) (l2tp_tunnel_free c') tab\<rparr>)
                     else (0, s\<lparr>srv_tab := tab_put (c_tid c) c' tab, srv_started := srv_started s @ [fst (pk_addr p)]\<rparr>)))
      | _ \<Rightarrow> (-1, s))"

abbreviation (input) Message_Digest :: int where "Message_Digest \<equiv> 59"

definition l2tp_recv_SCCRQ ::
    "l2tp_settings \<Rightarrow> climit_conf \<Rightarrow> sccrq_io \<Rightarrow> l2tp_packet_t \<Rightarrow> l2tp_srv \<Rightarrow> int \<times> l2tp_srv" where
  "l2tp_recv_SCCRQ k cl q p s =
     (if sq_shutdown q then (0, s)
      else if sq_max_starting q \<noteq> 0 \<and> sq_starting q \<ge> sq_max_starting q then (0, s)
      else if sq_max_sessions q \<noteq> 0 \<and> sq_active q + sq_starting q \<ge> sq_max_sessions q then (0, s)
      else
        (let key = cl_key_from_ipv4 (fst (pk_addr p));
             (r, s1) = (if sq_connlimit q then
                          (let (r, peers) = connlimit_check cl (sq_now q) key (srv_peers s)
                           in (r, s\<lparr>srv_peers := peers, srv_checks := srv_checks s @ [(sq_now q, key)]\<rparr>))
                        else (0, s))
         in if r \<noteq> 0 then (0, s1)
            else if \<exists>a \<in> set (pk_attrs p). da_id (la_attr a) = Message_Digest then (-1, s1)
            else
              (case last_attr Assigned_Tunnel_ID p of
                 None \<Rightarrow> (-1, s1)
               | Some assigned_tid \<Rightarrow> sccrq_new_tunnel k q assigned_tid p s1)))"

text \<open>
  The reception on the server's socket: the outcomes of \<open>l2tp_recv\<close> until it fails, each with what the rest of
  the daemon decides for it.
\<close>

definition udp_message ::
    "l2tp_settings \<Rightarrow> climit_conf \<Rightarrow> sccrq_io \<Rightarrow> l2tp_packet_t \<Rightarrow> l2tp_srv \<Rightarrow> l2tp_srv" where
  "udp_message k cl q p s =
     (if iprange_client_check (srv_ranges s) (fst (pk_addr p)) \<noteq> 0 then s
      else if h_tid (pk_hdr p) \<noteq> 0 then s
      else
        (case pk_attrs p of
           [] \<Rightarrow> s
         | msg_type # _ \<Rightarrow>
             if da_id (la_attr msg_type) \<noteq> Message_Type then s
             else if attr_uint16 msg_type = 1 then snd (l2tp_recv_SCCRQ k cl q p s)
             else s))"

fun l2tp_udp_read ::
    "l2tp_settings \<Rightarrow> climit_conf \<Rightarrow> (rx_item \<times> sccrq_io) list \<Rightarrow> l2tp_srv \<Rightarrow> l2tp_srv" where
  "l2tp_udp_read k cl [] s = s"
| "l2tp_udp_read k cl ((Rx_unreach, q) # rs) s = s"
| "l2tp_udp_read k cl ((Rx_null, q) # rs) s = l2tp_udp_read k cl rs s"
| "l2tp_udp_read k cl ((Rx_msg p, q) # rs) s = l2tp_udp_read k cl rs (udp_message k cl q p s)"

section \<open>Commands\<close>

datatype cli_res = CLI_CMD_OK | CLI_CMD_FAILED | CLI_CMD_SYNTAX | CLI_CMD_INVAL

record tunnel_req =
  rq_peer :: "u32 \<times> u16"
  rq_peer_set :: bool
  rq_host :: "u32 \<times> u16"
  rq_lns_mode :: bool
  rq_hide_avps :: bool
  rq_secret :: "string option"

text \<open>The options of the command. \<open>aton\<close> stands for \<open>inet_aton\<close>.\<close>

fun tunnel_opts :: "(string \<Rightarrow> u32 option) \<Rightarrow> string list \<Rightarrow> tunnel_req \<Rightarrow> cli_res + tunnel_req" where
  "tunnel_opts aton (opt # arg # args) r =
     (if opt = ''mode'' then
        if arg = ''lns'' then tunnel_opts aton args (r\<lparr>rq_lns_mode := True\<rparr>)
        else if arg = ''lac'' then tunnel_opts aton args (r\<lparr>rq_lns_mode := False\<rparr>)
        else Inl CLI_CMD_INVAL
      else if opt = ''peer-addr'' then
        (case aton arg of
           None \<Rightarrow> Inl CLI_CMD_INVAL
         | Some a \<Rightarrow> tunnel_opts aton args (r\<lparr>rq_peer := (a, snd (rq_peer r)), rq_peer_set := True\<rparr>))
      else if opt = ''host-addr'' then
        (case aton arg of
           None \<Rightarrow> Inl CLI_CMD_INVAL
         | Some a \<Rightarrow> tunnel_opts aton args (r\<lparr>rq_host := (a, snd (rq_host r))\<rparr>))
      else if opt = ''peer-port'' then
        (case u_readlong arg 0 65535 of
           None \<Rightarrow> Inl CLI_CMD_INVAL
         | Some port \<Rightarrow> tunnel_opts aton args (r\<lparr>rq_peer := (fst (rq_peer r), of_int port)\<rparr>))
      else if opt = ''host-port'' then
        (case u_readlong arg 0 65535 of
           None \<Rightarrow> Inl CLI_CMD_INVAL
         | Some port \<Rightarrow> tunnel_opts aton args (r\<lparr>rq_host := (fst (rq_host r), of_int port)\<rparr>))
      else if opt = ''hide-avps'' then tunnel_opts aton args (r\<lparr>rq_hide_avps := atoi arg > 0\<rparr>)
      else if opt = ''secret'' then tunnel_opts aton args (r\<lparr>rq_secret := Some arg\<rparr>)
      else Inl CLI_CMD_SYNTAX)"
| "tunnel_opts aton [opt] r = Inl CLI_CMD_SYNTAX"
| "tunnel_opts aton [] r = Inr r"

definition cli_new_tunnel :: "l2tp_settings \<Rightarrow> sccrq_io \<Rightarrow> tunnel_req \<Rightarrow> l2tp_srv \<Rightarrow> cli_res \<times> l2tp_srv" where
  "cli_new_tunnel k q r s =
     (case l2tp_tunnel_alloc k (sq_alloc q) (rq_peer r) 3 (rq_lns_mode r) False (rq_hide_avps r) (srv_tab s) of
        None \<Rightarrow> (CLI_CMD_FAILED, s)
      | Some (c, tab) \<Rightarrow>
          (let (ok, c1) = (case rq_secret r of
                             None \<Rightarrow> (True, c)
                           | Some sec \<Rightarrow> if sq_strdup q then (True, c\<lparr>c_secret := str_bytes sec\<rparr>) else (False, c));
               (ok, c2) = (if ok then l2tp_tunnel_start (sq_start q) c1 else (False, c1))
           in if \<not> ok then (CLI_CMD_FAILED, s\<lparr>srv_tab := tab_put (c_tid c) (l2tp_tunnel_free c2) tab\<rparr>)
              else (CLI_CMD_OK, s\<lparr>srv_tab := tab_put (c_tid c) c2 tab\<rparr>)))"

definition l2tp_create_tunnel_exec ::
    "l2tp_settings \<Rightarrow> (string \<Rightarrow> u32 option) \<Rightarrow> string option \<Rightarrow> sccrq_io \<Rightarrow> string list \<Rightarrow> l2tp_srv \<Rightarrow> cli_res \<times> l2tp_srv" where
  "l2tp_create_tunnel_exec k aton bind_addr q args s =
     (let host = (case bind_addr of None \<Rightarrow> 0 | Some b \<Rightarrow> (case aton b of None \<Rightarrow> 0 | Some a \<Rightarrow> a))
      in case tunnel_opts aton (drop 3 args)
           \<lparr>rq_peer = (0, 1701), rq_peer_set = False, rq_host = (host, 0), rq_lns_mode = False,
            rq_hide_avps = cfg_hide_avps k, rq_secret = cfg_secret k\<rparr> of
           Inl res \<Rightarrow> (res, s)
         | Inr r \<Rightarrow> if \<not> rq_peer_set r then (CLI_CMD_SYNTAX, s) else cli_new_tunnel k q r s)"

text \<open>The session is created by a call posted to the tunnel's context: the id of the tunnel that gets it.\<close>

definition l2tp_create_session_exec :: "bool \<Rightarrow> string list \<Rightarrow> l2tp_srv \<Rightarrow> cli_res \<times> u16 option" where
  "l2tp_create_session_exec call_ok args s =
     (if length args \<noteq> 5 then (CLI_CMD_SYNTAX, None)
      else if args ! 3 \<noteq> ''tid'' then (CLI_CMD_SYNTAX, None)
      else
        (case u_readlong (args ! 4) 1 65535 of
           None \<Rightarrow> (CLI_CMD_INVAL, None)
         | Some tid \<Rightarrow>
             (case srv_tab s (of_int tid) of
                None \<Rightarrow> (CLI_CMD_INVAL, None)
              | Some _ \<Rightarrow> if call_ok then (CLI_CMD_OK, Some (of_int tid)) else (CLI_CMD_FAILED, None))))"

section \<open>Loading a configuration\<close>

text \<open>
  Whatever the configuration file says, the settings stay in the ranges that the tunnels rely on.
\<close>

lemma opt_num_cases: "opt_num opt name ok old = old \<or> ok (opt_num opt name ok old)"
  by (simp add: opt_num_def split: option.split)

lemma load_config_window:
  "0 < conf_recv_window (l2tp_load_config opt k)" "unat (conf_recv_window (l2tp_load_config opt k)) \<le> 32768"
proof -
  define n where "n = opt_num opt ''recv-window'' (\<lambda>n. n > 0 \<and> n \<le> 32768) 16"
  have n: "0 < n" "n \<le> 32768" using opt_num_cases [of opt "''recv-window''" "\<lambda>n. n > 0 \<and> n \<le> 32768" 16] by (auto simp: n_def)
  have w: "conf_recv_window (l2tp_load_config opt k) = of_int n" by (simp add: l2tp_load_config_def Let_def n_def)
  have "uint (of_int n :: u16) = n" using n by (simp add: uint_word_of_int)
  then have u: "unat (of_int n :: u16) = nat n" by (metis nat_uint_eq)
  show "0 < conf_recv_window (l2tp_load_config opt k)" "unat (conf_recv_window (l2tp_load_config opt k)) \<le> 32768"
    using n u by (simp_all add: w word_less_nat_alt)
qed

lemma load_config_timers:
  "0 < conf_rtimeout (l2tp_load_config opt k)"
  "conf_rtimeout (l2tp_load_config opt k) \<le> conf_rtimeout_cap (l2tp_load_config opt k)"
  "0 < conf_retransmit (l2tp_load_config opt k)"
  using opt_num_cases [of opt "''rtimeout''" "\<lambda>n. n > 0" 1] opt_num_cases [of opt "''retransmit''" "\<lambda>n. n > 0" 5]
  by (auto simp: l2tp_load_config_def Let_def)

section \<open>New tunnels\<close>

lemma pick_tid_fresh: "pick_tid used rd n i = Some w \<Longrightarrow> w \<noteq> 0 \<and> \<not> used w"
  by (induction used rd n i rule: pick_tid.induct) (auto split: option.splits if_splits)

lemma tunnel_alloc_spec:
  assumes "l2tp_tunnel_alloc k al peer fc lns ps hide tab = Some (c, tab')"
  obtains tid where "c = conn_init (l2tp_conf.truncate k) tid peer fc lns ps hide" "tid \<noteq> 0" "tab tid = None"
    "tab' = tab(tid \<mapsto> c)"
  using assms by (auto simp: l2tp_tunnel_alloc_def Let_def dest: pick_tid_fresh split: if_splits option.splits)

text \<open>A tunnel that has not sent or received anything.\<close>

definition fresh :: "l2tp_conn_t \<Rightarrow> bool" where
  "fresh c \<longleftrightarrow> c_state c = STATE_INIT \<and> recv_queue c = replicate (recv_queue_sz c) None \<and> recv_queue_offt c = 0 \<and>
     0 < recv_queue_sz c \<and> recv_queue_sz c \<le> 32768 \<and> c_Ns c = 0 \<and> c_peer_Nr c = 0 \<and> send_queue c = [] \<and>
     send_queue_len c = 0 \<and> rtms_queue c = [] \<and> c_sessions c = [] \<and> sess_count c = 0 \<and> stat_conn_starting c = 1 \<and>
     stat_conn_active c = 0 \<and> stat_conn_finishing c = 0 \<and> stat_sess_starting c = 0 \<and> stat_sess_active c = 0"

lemma fresh_inv: "fresh c \<Longrightarrow> l2tp_inv False c" "fresh c \<Longrightarrow> book_ok c"
  by (simp_all add: fresh_def l2tp_inv_def rcv_inv_def ring_ok_def ring_slot_def snd_inv_def ring_sane_def
      tunnel_state_def book_ok_def tree_ok_def queue_ok_def conn_ok_def sess_num_def)

lemma fresh_conn_init:
  "fresh (conn_init (l2tp_conf.truncate (l2tp_load_config opt k)) tid peer fc lns ps hide)"
  using load_config_window [of opt k] by (simp add: fresh_def conn_init_def l2tp_conf.defs word_less_nat_alt)

lemma fresh_start: "l2tp_tunnel_start st c = (ok, c') \<Longrightarrow> fresh c' = fresh c \<and> ident c' = ident c"
  by (auto simp: l2tp_tunnel_start_def Let_def fresh_def split: if_splits)

lemma fresh_storechall: "fresh (snd (l2tp_tunnel_storechall c a)) = fresh c" "c_secret (snd (l2tp_tunnel_storechall c a)) = c_secret c"
  by (simp_all add: l2tp_tunnel_storechall_def Let_def fresh_def split: option.split)

text \<open>The id, the peer and the role do not change while the tunnel is set up.\<close>

abbreviation who :: "l2tp_conn_t \<Rightarrow> u16 \<times> u32 \<times> nat" where
  "who c \<equiv> (c_tid c, fst (c_peer_addr c), recv_queue_sz c)"

lemma who_ident: "ident c' = ident c \<Longrightarrow> who c' = who c"
  by (simp add: ident_def)

lemma sccrq_setup_fresh:
  assumes "sccrq_setup k q a p c = (ok, c')" "fresh c"
  shows "fresh c' \<and> who c' = who c"
proof -
  have upd: "fresh (c\<lparr>peer_rcv_wnd_sz := w\<rparr>) = fresh c" "fresh (c\<lparr>c_secret := b\<rparr>) = fresh c"
    "fresh (c\<lparr>c_peer_tid := u, c_port_set := True, c_Nr := 1\<rparr>) = fresh c" for c w b u
    by (simp_all add: fresh_def)
  have chall: "fresh d = fresh c \<and> who d = who c" if "l2tp_tunnel_storechall c x = (r, d)" for c x r d
    using fresh_storechall(1) [of c x] who_ident [OF ident_chall(1) [of c x]] that by simp
  have start: "fresh d = fresh c \<and> who d = who c" if "l2tp_tunnel_start st c = (r, d)" for st c r d
    using fresh_start [OF that] who_ident by blast
  show ?thesis
    using assms unfolding sccrq_setup_def Let_def
    by (auto simp: upd split: option.splits if_splits prod.splits dest!: chall start)
qed

section \<open>The table of tunnels\<close>

definition conn_good :: "u16 \<Rightarrow> l2tp_conn_t \<Rightarrow> bool" where
  "conn_good tid c \<longleftrightarrow> tid \<noteq> 0 \<and> c_tid c = tid \<and> c_state c \<noteq> STATE_CLOSE \<and> l2tp_inv False c \<and> book_ok c \<and>
     0 < recv_queue_sz c \<and> recv_queue_sz c \<le> 32768"

definition tab_ok :: "(u32 \<Rightarrow> bool) \<Rightarrow> l2tp_tab \<Rightarrow> bool" where
  "tab_ok P tab \<longleftrightarrow> (\<forall>tid c. tab tid = Some c \<longrightarrow> conn_good tid c \<and> P (fst (c_peer_addr c)))"

lemma tab_ok_put:
  "tab_ok P tab \<Longrightarrow> (c_state c \<noteq> STATE_CLOSE \<Longrightarrow> conn_good tid c \<and> P (fst (c_peer_addr c))) \<Longrightarrow> tab_ok P (tab_put tid c tab)"
  by (auto simp: tab_ok_def tab_put_def)

lemma tab_put_over: "tab_put tid c (tab(tid := x)) = tab_put tid c tab"
  by (simp add: tab_put_def)

lemma fresh_good: "fresh c \<Longrightarrow> c_tid c \<noteq> 0 \<Longrightarrow> conn_good (c_tid c) c"
  using fresh_inv [of c] by (simp add: conn_good_def) (simp add: fresh_def)

lemma fresh_free: "fresh c \<Longrightarrow> c_state (l2tp_tunnel_free c) = STATE_CLOSE"
  using tunnel_free_fields(3) [of c] by (simp add: fresh_def tunnel_state_def)

lemma new_tunnel_ok:
  assumes "l2tp_tunnel_alloc (l2tp_load_config opt k) al peer fc lns ps hide tab = Some (c, tab')"
    and "tab_ok P tab" "P (fst peer)" "fresh c'" "who c' = who c"
  shows "tab_ok P (tab_put (c_tid c) c' tab')"
proof -
  obtain tid where c: "c = conn_init (l2tp_conf.truncate (l2tp_load_config opt k)) tid peer fc lns ps hide" "tid \<noteq> 0"
      "tab' = tab(tid \<mapsto> c)"
    using tunnel_alloc_spec [OF assms(1)] by metis
  have "c_tid c = tid" "c_peer_addr c = peer" by (simp_all add: c conn_init_def)
  with assms c fresh_good [OF assms(4)] show ?thesis by (auto simp: tab_put_over intro!: tab_ok_put)
qed

lemma alloc_fresh: "l2tp_tunnel_alloc (l2tp_load_config opt k) al peer fc lns ps hide tab = Some (c, tab') \<Longrightarrow> fresh c"
  by (erule tunnel_alloc_spec) (simp add: fresh_conn_init)

text \<open>A tunnel that could not be set up leaves the table as it was.\<close>

lemma dropped_tunnel:
  assumes "l2tp_tunnel_alloc k al peer fc lns ps hide tab = Some (c, tab')" "fresh c'"
  shows "tab_put (c_tid c) (l2tp_tunnel_free c') tab' = tab"
proof -
  obtain tid where "c = conn_init (l2tp_conf.truncate k) tid peer fc lns ps hide" "tab tid = None" "tab' = tab(tid \<mapsto> c)"
    using tunnel_alloc_spec [OF assms(1)] by metis
  then have "c_tid c = tid" "tab' = tab(tid \<mapsto> c)" "tab tid = None" by (simp_all add: conn_init_def)
  with fresh_free [OF assms(2)] show ?thesis by (auto simp: tab_put_def fun_upd_idem_iff)
qed

lemma sccrq_new_tunnel_spec:
  assumes "sccrq_new_tunnel (l2tp_load_config opt k) q a p s = (res, s')" "tab_ok P (srv_tab s)" "P (fst (pk_addr p))"
  shows "tab_ok P (srv_tab s') \<and> srv_ranges s' = srv_ranges s \<and> srv_peers s' = srv_peers s \<and> srv_checks s' = srv_checks s \<and>
    (srv_started s' = srv_started s \<and> srv_tab s' = srv_tab s \<or> res = 0 \<and> srv_started s' = srv_started s @ [fst (pk_addr p)])"
proof (cases "s' = s")
  case False
  then obtain v fc c tab where al: "l2tp_tunnel_alloc (l2tp_load_config opt k) (sq_alloc q) (pk_addr p)
      (val_uint32 (la_val fc)) True True (cfg_hide_avps (l2tp_load_config opt k)) (srv_tab s) = Some (c, tab)"
    "last_attr Protocol_Version p = Some v" "last_attr Framing_Capabilities p = Some fc" "attr_uint16 v = 0x0100"
    using assms(1) by (auto simp: sccrq_new_tunnel_def split: option.splits if_splits)
  obtain ok c' where set: "sccrq_setup (l2tp_load_config opt k) q a p c = (ok, c')" by fastforce
  note f = sccrq_setup_fresh [OF set alloc_fresh [OF al(1)]]
  show ?thesis
  proof (cases ok)
    case True
    with assms al set have s': "s' = s\<lparr>srv_tab := tab_put (c_tid c) c' tab, srv_started := srv_started s @ [fst (pk_addr p)]\<rparr>" "res = 0"
      by (auto simp: sccrq_new_tunnel_def)
    with new_tunnel_ok [OF al(1) assms(2,3)] f show ?thesis by simp
  next
    case False
    with assms al set have s': "s' = s\<lparr>srv_tab := tab_put (c_tid c) (l2tp_tunnel_free c') tab\<rparr>"
      by (auto simp: sccrq_new_tunnel_def)
    with dropped_tunnel [OF al(1)] f assms(2) show ?thesis by simp
  qed
qed (use assms in simp)

section \<open>The connection limit\<close>

fun peers_after :: "climit_conf \<Rightarrow> item list \<Rightarrow> (timespec \<times> u64) list \<Rightarrow> item list" where
  "peers_after cl items [] = items"
| "peers_after cl items ((ts, key) # evs) = peers_after cl (snd (connlimit_check cl ts key items)) evs"

lemma peers_after_append: "peers_after cl items (evs @ evs') = peers_after cl (peers_after cl items evs) evs'"
  by (induction cl items evs rule: peers_after.induct) auto

lemma passed_append:
  "passed cl k items (evs @ evs') = passed cl k items evs + passed cl k (peers_after cl items evs) evs'"
  by (induction cl items evs rule: peers_after.induct) (auto simp: split_beta)

text \<open>Every tunnel started for a peer is a connection of the peer that passed the limit.\<close>

definition limited :: "climit_conf \<Rightarrow> l2tp_srv \<Rightarrow> bool" where
  "limited cl s \<longleftrightarrow> srv_peers s = peers_after cl [] (srv_checks s) \<and>
     (\<forall>a. int (count_list (srv_started s) a) \<le> passed cl (cl_key_from_ipv4 a) [] (srv_checks s))"

definition check_peer :: "climit_conf \<Rightarrow> timespec \<Rightarrow> u64 \<Rightarrow> l2tp_srv \<Rightarrow> l2tp_srv" where
  "check_peer cl ts key s =
     s\<lparr>srv_peers := snd (connlimit_check cl ts key (srv_peers s)), srv_checks := srv_checks s @ [(ts, key)]\<rparr>"

lemma check_peer_limited:
  assumes "limited cl s"
  shows "limited cl (check_peer cl ts key s)"
    and "fst (connlimit_check cl ts (cl_key_from_ipv4 a) (srv_peers s)) = 0 \<Longrightarrow>
      srv_started s' = srv_started s @ [a] \<Longrightarrow> srv_peers s' = srv_peers (check_peer cl ts (cl_key_from_ipv4 a) s) \<Longrightarrow>
      srv_checks s' = srv_checks (check_peer cl ts (cl_key_from_ipv4 a) s) \<Longrightarrow> limited cl s'"
proof -
  have p: "srv_peers s = peers_after cl [] (srv_checks s)"
    "int (count_list (srv_started s) b) \<le> passed cl (cl_key_from_ipv4 b) [] (srv_checks s)" for b
    using assms by (simp_all add: limited_def)
  show "limited cl (check_peer cl ts key s)"
    using p(2) by (auto simp: limited_def check_peer_def peers_after_append passed_append split_beta p(1) intro: add_increasing2)
  assume "fst (connlimit_check cl ts (cl_key_from_ipv4 a) (srv_peers s)) = 0" "srv_started s' = srv_started s @ [a]"
    "srv_peers s' = srv_peers (check_peer cl ts (cl_key_from_ipv4 a) s)"
    "srv_checks s' = srv_checks (check_peer cl ts (cl_key_from_ipv4 a) s)"
  then show "limited cl s'"
    using p(2) by (auto simp: limited_def check_peer_def peers_after_append passed_append split_beta p(1) intro: add_increasing2)
qed

section \<open>Runs of the server\<close>

lemma recv_SCCRQ_spec:
  assumes run: "l2tp_recv_SCCRQ (l2tp_load_config opt k) cl q p s = (res, s')"
    and ok: "tab_ok P (srv_tab s)" "P (fst (pk_addr p))"
  shows "tab_ok P (srv_tab s') \<and> srv_ranges s' = srv_ranges s \<and> (sq_connlimit q \<longrightarrow> limited cl s \<longrightarrow> limited cl s')"
proof -
  define key where "key = cl_key_from_ipv4 (fst (pk_addr p))"
  define s1 where "s1 = (if sq_connlimit q then check_peer cl (sq_now q) key s else s)"
  have s1: "srv_tab s1 = srv_tab s" "srv_ranges s1 = srv_ranges s" "srv_started s1 = srv_started s"
    "sq_connlimit q \<Longrightarrow> limited cl s \<Longrightarrow> limited cl s1"
    by (simp_all add: s1_def check_peer_def) (simp add: check_peer_limited(1) flip: check_peer_def)
  define r where "r = (if sq_connlimit q then fst (connlimit_check cl (sq_now q) key (srv_peers s)) else 0)"
  have limit: "(if sq_connlimit q then
      (let (r, peers) = connlimit_check cl (sq_now q) key (srv_peers s)
       in (r, s\<lparr>srv_peers := peers, srv_checks := srv_checks s @ [(sq_now q, key)]\<rparr>)) else (0, s)) = (r, s1)"
    by (simp add: r_def s1_def check_peer_def split_beta)
  consider "s' = s" | "s' = s1"
    | a where "sccrq_new_tunnel (l2tp_load_config opt k) q a p s1 = (res, s')" "r = 0"
    using run unfolding l2tp_recv_SCCRQ_def key_def [symmetric] Let_def limit [unfolded Let_def] prod.case
    by (auto split: if_splits option.splits)
  then show ?thesis
  proof cases
    case 3
    have "tab_ok P (srv_tab s1)" by (simp add: s1 ok)
    from sccrq_new_tunnel_spec [OF 3(1) this ok(2)] have n: "tab_ok P (srv_tab s')" "srv_ranges s' = srv_ranges s1"
      "srv_peers s' = srv_peers s1" "srv_checks s' = srv_checks s1"
      "srv_started s' = srv_started s1 \<or> srv_started s' = srv_started s1 @ [fst (pk_addr p)]" by auto
    from n(5) have "limited cl s'" if lim: "sq_connlimit q" "limited cl s"
    proof
      assume "srv_started s' = srv_started s1"
      with n(3,4) s1(4) lim show ?thesis by (simp add: limited_def)
    next
      assume "srv_started s' = srv_started s1 @ [fst (pk_addr p)]"
      with check_peer_limited(2) [OF lim(2), of "sq_now q" "fst (pk_addr p)" s'] 3(2) lim n(3,4) s1(3) show ?thesis
        by (simp add: s1_def key_def r_def)
    qed
    with n s1 show ?thesis by simp
  qed (use ok s1 in simp_all)
qed

text \<open>One read of the socket of the server.\<close>

lemma udp_read_spec:
  assumes "tab_ok P (srv_tab s)" "\<And>a. iprange_client_check (srv_ranges s) a = 0 \<Longrightarrow> P a"
  shows "tab_ok P (srv_tab (l2tp_udp_read (l2tp_load_config opt k) cl rs s)) \<and>
    srv_ranges (l2tp_udp_read (l2tp_load_config opt k) cl rs s) = srv_ranges s \<and>
    ((\<forall>(_, q) \<in> set rs. sq_connlimit q) \<longrightarrow> limited cl s \<longrightarrow> limited cl (l2tp_udp_read (l2tp_load_config opt k) cl rs s))"
  using assms
proof (induction rs arbitrary: s)
  case (Cons rq rs)
  obtain r q where rq: "rq = (r, q)" by fastforce
  show ?case
  proof (cases r)
    case (Rx_msg p)
    define s1 where "s1 = udp_message (l2tp_load_config opt k) cl q p s"
    have s1: "tab_ok P (srv_tab s1) \<and> srv_ranges s1 = srv_ranges s \<and> (sq_connlimit q \<longrightarrow> limited cl s \<longrightarrow> limited cl s1)"
    proof (cases "s1 = s")
      case False
      then have "s1 = snd (l2tp_recv_SCCRQ (l2tp_load_config opt k) cl q p s)" "P (fst (pk_addr p))"
        using Cons.prems(2) by (auto simp: s1_def udp_message_def split: list.splits if_splits)
      with recv_SCCRQ_spec [OF surjective_pairing Cons.prems(1)] show ?thesis by simp
    qed (use Cons.prems in simp)
    then have "tab_ok P (srv_tab s1)" "\<And>a. iprange_client_check (srv_ranges s1) a = 0 \<Longrightarrow> P a"
      using Cons.prems(2) by simp_all
    from Cons.IH [OF this] s1 show ?thesis by (simp add: rq Rx_msg flip: s1_def)
  qed (use Cons rq in simp_all)
qed simp

lemma cli_new_tunnel_spec:
  assumes "cli_new_tunnel (l2tp_load_config opt k) q r s = (res, s')" "tab_ok (\<lambda>_. True) (srv_tab s)"
  shows "tab_ok (\<lambda>_. True) (srv_tab s') \<and> s' = s\<lparr>srv_tab := srv_tab s'\<rparr>"
proof (cases "s' = s")
  case False
  then obtain c tab where al: "l2tp_tunnel_alloc (l2tp_load_config opt k) (sq_alloc q) (rq_peer r) 3 (rq_lns_mode r) False
      (rq_hide_avps r) (srv_tab s) = Some (c, tab)"
    using assms(1) by (auto simp: cli_new_tunnel_def split: option.splits)
  obtain ok c1 where sec: "(case rq_secret r of None \<Rightarrow> (True, c)
      | Some sec \<Rightarrow> if sq_strdup q then (True, c\<lparr>c_secret := str_bytes sec\<rparr>) else (False, c)) = (ok, c1)" by fastforce
  have c1: "fresh c1" "who c1 = who c"
    using sec alloc_fresh [OF al] by (auto simp: fresh_def split: option.splits if_splits)
  obtain ok2 c2 where st: "(if ok then l2tp_tunnel_start (sq_start q) c1 else (False, c1)) = (ok2, c2)" by fastforce
  have c2: "fresh c2" "who c2 = who c" using fresh_start [of _ c1] who_ident [of c2 c1] c1 st by (auto split: if_splits)
  have "srv_tab s' = srv_tab s \<or> srv_tab s' = tab_put (c_tid c) c2 tab" "s' = s\<lparr>srv_tab := srv_tab s'\<rparr>"
    using assms(1) dropped_tunnel [OF al c2(1)] by (auto simp: cli_new_tunnel_def al sec st split: if_splits)
  with new_tunnel_ok [OF al assms(2) TrueI c2] assms(2) show ?thesis by auto
qed (use assms in simp)

lemma create_tunnel_spec:
  assumes "tab_ok (\<lambda>_. True) (srv_tab s)" "l2tp_create_tunnel_exec (l2tp_load_config opt k) aton b q args s = (res, s')"
  shows "tab_ok (\<lambda>_. True) (srv_tab s') \<and> s' = s\<lparr>srv_tab := srv_tab s'\<rparr>"
  using assms cli_new_tunnel_spec [of opt k q _ s res s']
  by (auto simp: l2tp_create_tunnel_exec_def Let_def split: sum.splits if_splits)

text \<open>
  The events of the server: datagrams on its socket, a step of one of its tunnels, a command (when \<open>cli\<close>),
  a check of the connection limit by another part of the daemon, a reload of the client ranges. \<open>env\<close> restricts
  what the rest of the daemon and the system decide for a message. The configuration may be reloaded at any
  moment: every event of the server works with some options that \<open>l2tp_load_config\<close> made, every use of the
  connection limit with some limits out of \<open>lim\<close>, and \<open>rl\<close> says which sections the client ranges are
  reloaded from.
\<close>

inductive l2tp_srv_step ::
    "(climit_conf \<Rightarrow> bool) \<Rightarrow> ((string \<Rightarrow> bool) \<Rightarrow> string list option \<Rightarrow> bool) \<Rightarrow> bool \<Rightarrow> (sccrq_io \<Rightarrow> bool) \<Rightarrow>
      l2tp_srv \<Rightarrow> l2tp_srv \<Rightarrow> bool"
  for lim :: "climit_conf \<Rightarrow> bool" and rl :: "(string \<Rightarrow> bool) \<Rightarrow> string list option \<Rightarrow> bool" and cli :: bool
    and env :: "sccrq_io \<Rightarrow> bool" where
  udp: "lim cl \<Longrightarrow> \<forall>(_, q) \<in> set rs. env q \<Longrightarrow>
    l2tp_srv_step lim rl cli env s (l2tp_udp_read (l2tp_load_config opt k) cl rs s)"
| tunnel: "srv_tab s tid = Some c \<Longrightarrow> l2tp_step l2tp_own False l2tp_dispatch c c' \<Longrightarrow>
    l2tp_srv_step lim rl cli env s (s\<lparr>srv_tab := tab_put tid c' (srv_tab s)\<rparr>)"
| check: "lim cl \<Longrightarrow> l2tp_srv_step lim rl cli env s (check_peer cl ts key s)"
| command: "cli \<Longrightarrow> l2tp_create_tunnel_exec (l2tp_load_config opt k) aton b q args s = (res, s') \<Longrightarrow>
    l2tp_srv_step lim rl cli env s s'"
| reload: "rl mem sect \<Longrightarrow> l2tp_srv_step lim rl cli env s (s\<lparr>srv_ranges := iprange_load_config mem sect\<rparr>)"

definition srv_init :: "iprange_state \<Rightarrow> l2tp_srv" where
  "srv_init ranges = \<lparr>srv_tab = (\<lambda>_. None), srv_peers = [], srv_ranges = ranges, srv_checks = [], srv_started = []\<rparr>"

lemma tunnel_step_ok:
  assumes "tab_ok P (srv_tab s)" "srv_tab s tid = Some c" "l2tp_step l2tp_own False l2tp_dispatch c c'"
  shows "tab_ok P (tab_put tid c' (srv_tab s))"
proof (rule tab_ok_put [OF assms(1)])
  assume "c_state c' \<noteq> STATE_CLOSE"
  have c: "conn_good tid c" "P (fst (c_peer_addr c))" using assms(1,2) by (simp_all add: tab_ok_def)
  have run: "l2tp_run False c c'" using assms(3) by blast
  have "l2tp_inv False c'" using run_inv [OF run] c by (simp add: conn_good_def)
  moreover have "book_ok c'" using run_book [OF run] c by (simp add: conn_good_def)
  moreover have "who c' = who c" by (rule who_ident [OF ident_step [OF assms(3)]])
  ultimately show "conn_good tid c' \<and> P (fst (c_peer_addr c'))"
    using c \<open>c_state c' \<noteq> STATE_CLOSE\<close> by (simp add: conn_good_def)
qed

text \<open>\<open>P\<close> is what holds of the address of every peer; a command may name any address.\<close>

definition admits :: "(u32 \<Rightarrow> bool) \<Rightarrow> iprange_state \<Rightarrow> bool" where
  "admits P r \<longleftrightarrow> (\<forall>a. iprange_client_check r a = 0 \<longrightarrow> P a)"

lemma srv_step_ok:
  assumes "l2tp_srv_step lim rl cli env s s'" "tab_ok P (srv_tab s)" "admits P (srv_ranges s)"
    and P: "\<And>mem sect. rl mem sect \<Longrightarrow> admits P (iprange_load_config mem sect)" "cli \<Longrightarrow> P = (\<lambda>_. True)"
  shows "tab_ok P (srv_tab s') \<and> admits P (srv_ranges s')"
  using assms(1)
proof cases
  case (udp cl rs opt k)
  have "\<And>a. iprange_client_check (srv_ranges s) a = 0 \<Longrightarrow> P a" using assms(3) by (simp add: admits_def)
  with udp udp_read_spec [OF assms(2) this, of opt k cl rs] assms(3) show ?thesis by simp
next
  case (tunnel tid c c')
  with tunnel_step_ok [OF assms(2)] assms(3) show ?thesis by simp
next
  case (command opt k aton b q args res)
  with create_tunnel_spec [OF _ command(2)] assms(2,3) P(2) show ?thesis
    by (metis l2tp_srv.select_convs(3) l2tp_srv.surjective l2tp_srv.update_convs(1))
qed (use assms in \<open>simp_all add: check_peer_def\<close>)

lemma srv_run_ok:
  assumes "(l2tp_srv_step lim rl cli env)\<^sup>*\<^sup>* (srv_init ranges) s" "admits P ranges"
    and "\<And>mem sect. rl mem sect \<Longrightarrow> admits P (iprange_load_config mem sect)" "cli \<Longrightarrow> P = (\<lambda>_. True)"
  shows "tab_ok P (srv_tab s) \<and> admits P (srv_ranges s)"
  using assms(1)
proof (induction rule: rtranclp_induct)
  case base
  show ?case using assms(2) by (simp add: srv_init_def tab_ok_def)
next
  case (step s s')
  with srv_step_ok [OF step.hyps(2), of P] assms(3,4) show ?case by simp
qed

lemma admits_True [simp]: "admits (\<lambda>_. True) r"
  by (simp add: admits_def)

lemma srv_step_limited:
  assumes "l2tp_srv_step (\<lambda>x. x = cl) rl cli env s s'" "\<And>q. env q \<Longrightarrow> sq_connlimit q" "tab_ok (\<lambda>_. True) (srv_tab s)"
    "limited cl s"
  shows "limited cl s'"
  using assms(1)
proof cases
  case (udp _ rs opt k)
  with udp_read_spec [OF assms(3), of opt k cl rs] assms(2,4) show ?thesis by auto
next
  case (command opt k aton b q args res)
  with create_tunnel_spec [OF assms(3) command(2)] assms(4) show ?thesis
    by (auto simp: limited_def) (metis l2tp_srv.select_convs(2,4,5) l2tp_srv.surjective l2tp_srv.update_convs(1))+
qed (use assms(4) in \<open>auto simp: limited_def [of _ "_\<lparr>srv_tab := _\<rparr>"] limited_def [of _ "_\<lparr>srv_ranges := _\<rparr>"]
    limited_def [of _ s] check_peer_limited(1)\<close>)

lemma srv_run_limited:
  assumes run: "(l2tp_srv_step (\<lambda>x. x = cl) rl cli env)\<^sup>*\<^sup>* (srv_init ranges) s" and env: "\<And>q. env q \<Longrightarrow> sq_connlimit q"
  shows "limited cl s"
  using run
proof (induction rule: rtranclp_induct)
  case base
  show ?case by (simp add: srv_init_def limited_def)
next
  case (step s s')
  have "tab_ok (\<lambda>_. True) (srv_tab s)" using srv_run_ok [OF step.hyps(1), of "\<lambda>_. True"] by simp
  from srv_step_limited [OF step.hyps(2) env this step.IH] show ?case .
qed

section \<open>A concrete run\<close>

definition demo_sccrq :: l2tp_packet_t where
  "demo_sccrq = \<lparr>pk_addr = (0x0A000001, 1701),
     pk_hdr = \<lparr>h_flags = 0xC802, h_length = 0, h_tid = 0, h_sid = 0, h_Ns = 0, h_Nr = 0\<rparr>,
     pk_attrs = map (\<lambda>(i, t, v). \<lparr>la_attr = \<lparr>da_id = i, da_type = t, da_M = 1, da_H = 0\<rparr>, la_M = True, la_H = False,
         la_length = 2, la_val = v\<rparr>)
       [(0, ATTR_TYPE_INT16, V_int16 1), (2, ATTR_TYPE_INT16, V_int16 0x0100), (3, ATTR_TYPE_INT32, V_int32 3),
        (9, ATTR_TYPE_INT16, V_int16 77)],
     pk_last_RV = None, pk_secret = [], pk_hide_avps = False\<rparr>"

definition demo_sq :: sccrq_io where
  "demo_sq = \<lparr>sq_shutdown = False, sq_starting = 0, sq_active = 0, sq_max_starting = 0, sq_max_sessions = 0,
     sq_connlimit = True, sq_now = \<lparr>tv_sec = 10, tv_nsec = 0\<rparr>,
     sq_alloc = \<lparr>al_mem = True, al_socket = True, al_queue = True, al_urandom = (\<lambda>_. Some 5)\<rparr>, sq_strdup = True,
     sq_start = \<lparr>st_ctx = True, st_handler = True, st_timer = True, st_call = True\<rparr>\<rparr>"

definition demo_nets :: "(u32 \<times> nat) list" where
  "demo_nets = [(0x0A000000, 8)]"

definition demo_ranges :: iprange_state where
  "demo_ranges = iprange_load_config (\<lambda>_. True) (Some (map cidr demo_nets))"

definition demo_srv :: l2tp_srv where
  "demo_srv = l2tp_udp_read (l2tp_load_config (\<lambda>_. None) l2tp_defaults) demo_limits [(Rx_msg demo_sccrq, demo_sq)]
     (srv_init demo_ranges)"

text \<open>The check of the client ranges, on networks as the administrator writes them.\<close>

lemma client_check_networks:
  assumes "\<forall>(net, n) \<in> set nets. n \<le> 32"
  shows "iprange_client_check (iprange_load_config (\<lambda>_. True) (Some (map cidr nets))) a = 0 \<longleftrightarrow> (\<exists>e \<in> set nets. in_net a e)"
  using load_accepts [OF assms, of "[]" a]
  by (auto simp: iprange_client_check_def iprange_load_config_def load_ranges_def check_range_def accepted_def
      split: prod.splits if_splits)

lemma pick_tid_pos:
  "0 < n \<Longrightarrow> pick_tid used rd n i =
     (case rd i of None \<Rightarrow> None | Some w \<Rightarrow> if w = 0 \<or> used w then pick_tid used rd (n - 1) (Suc i) else Some w)"
  by (cases n) (auto split: option.split)

lemma demo_srv_run: "(l2tp_srv_step (\<lambda>x. x = demo_limits) rl False sq_connlimit)\<^sup>*\<^sup>* (srv_init demo_ranges) demo_srv"
  unfolding demo_srv_def by (rule r_into_rtranclp, rule l2tp_srv_step.udp) (simp_all add: demo_sq_def)

lemma demo_sccrq_fields [simp]:
  "pk_addr demo_sccrq = (0x0A000001, 1701)" "h_tid (pk_hdr demo_sccrq) = 0"
  "\<exists>a as. pk_attrs demo_sccrq = a # as \<and> da_id (la_attr a) = 0 \<and> val_uint16 (la_val a) = 1"
  "\<forall>a \<in> set (pk_attrs demo_sccrq). da_id (la_attr a) \<noteq> 59"
  "\<exists>a. last_attr 9 demo_sccrq = Some a" "\<exists>a. last_attr 3 demo_sccrq = Some a"
  "\<exists>a. last_attr 2 demo_sccrq = Some a \<and> val_uint16 (la_val a) = 0x0100"
  "last_attr 10 demo_sccrq = None" "last_attr 11 demo_sccrq = None"
  by (simp_all add: demo_sccrq_def last_attr_def)

lemma demo_alloc:
  assumes "tab 5 = None"
  shows "l2tp_tunnel_alloc k (sq_alloc demo_sq) peer fc lns ps hide tab =
    (let c = conn_init (l2tp_conf.truncate k) 5 peer fc lns ps hide in Some (c, tab(5 \<mapsto> c)))"
  by (simp add: l2tp_tunnel_alloc_def demo_sq_def pick_tid_pos assms)

lemma demo_setup:
  "cfg_secret k = None \<Longrightarrow> \<exists>c'. sccrq_setup k demo_sq a demo_sccrq c = (True, c') \<and> c_state c' = c_state c"
  by (simp add: sccrq_setup_def l2tp_tunnel_storechall_def l2tp_tunnel_start_def demo_sq_def)

lemma demo_new_tunnel:
  assumes "cfg_secret k = None" "srv_tab s 5 = None"
  shows "\<exists>c. sccrq_new_tunnel k demo_sq a demo_sccrq s =
    (0, s\<lparr>srv_tab := (srv_tab s)(5 \<mapsto> c), srv_started := srv_started s @ [0x0A000001]\<rparr>)"
proof -
  obtain v f where a: "last_attr 2 demo_sccrq = Some v" "val_uint16 (la_val v) = 0x0100" "last_attr 3 demo_sccrq = Some f"
    using demo_sccrq_fields(6,7) by blast
  define c where "c = conn_init (l2tp_conf.truncate k) 5 (pk_addr demo_sccrq) (val_uint32 (la_val f)) True True (cfg_hide_avps k)"
  have c: "c_tid c = 5" "c_state c = STATE_INIT" by (simp_all add: c_def conn_init_def)
  obtain c' where c': "sccrq_setup k demo_sq a demo_sccrq c = (True, c')" "c_state c' = STATE_INIT"
    using demo_setup [OF assms(1), of a c] c by auto
  show ?thesis
    unfolding sccrq_new_tunnel_def a option.case prod.case demo_alloc [where tab = "srv_tab s", OF assms(2)] c_def [symmetric] Let_def
    by (rule exI [of _ c']) (simp add: a c' c tab_put_def)
qed

lemma demo_srv_started:
  "srv_tab demo_srv 5 \<noteq> None" "srv_started demo_srv = [0x0A000001]"
  "srv_checks demo_srv = [(\<lparr>tv_sec = 10, tv_nsec = 0\<rparr>, 0x0A000001)]"
proof -
  define k where "k = l2tp_load_config (\<lambda>_. None) l2tp_defaults"
  have k: "cfg_secret k = None" by (simp add: k_def l2tp_load_config_def Let_def)
  define s where "s = (srv_init demo_ranges)\<lparr>srv_peers := [\<lparr>it_key = 0x0A000001, it_ts = sq_now demo_sq, it_count = 0\<rparr>],
      srv_checks := [(sq_now demo_sq, 0x0A000001)]\<rparr>"
  have s: "srv_tab s 5 = None" "srv_started s = []" "srv_checks s = [(sq_now demo_sq, 0x0A000001)]" by (simp_all add: s_def srv_init_def)
  have r: "iprange_client_check demo_ranges 0x0A000001 = 0"
    using client_check_networks [of demo_nets "0x0A000001"] by (simp add: demo_ranges_def demo_nets_def in_net_def)
  obtain a where a: "last_attr 9 demo_sccrq = Some a" using demo_sccrq_fields(5) by blast
  have "connlimit_check demo_limits ts key [] = (0, [\<lparr>it_key = key, it_ts = ts, it_count = 0\<rparr>])" for ts key
    by (simp add: connlimit_check_def)
  then have "l2tp_recv_SCCRQ k demo_limits demo_sq demo_sccrq (srv_init demo_ranges) =
      sccrq_new_tunnel k demo_sq a demo_sccrq s"
    using demo_sccrq_fields(4)
    by (auto simp: l2tp_recv_SCCRQ_def a s_def cl_key_from_ipv4_def srv_init_def Let_def) (simp_all add: demo_sq_def)
  moreover obtain c where "sccrq_new_tunnel k demo_sq a demo_sccrq s =
      (0, s\<lparr>srv_tab := (srv_tab s)(5 \<mapsto> c), srv_started := srv_started s @ [0x0A000001]\<rparr>)"
    using demo_new_tunnel [OF k s(1)] by blast
  moreover obtain m ms where "pk_attrs demo_sccrq = m # ms" "da_id (la_attr m) = 0" "val_uint16 (la_val m) = 1"
    using demo_sccrq_fields(3) by blast
  moreover have "srv_ranges (srv_init demo_ranges) = demo_ranges" by (simp add: srv_init_def)
  ultimately have d: "demo_srv = s\<lparr>srv_tab := (srv_tab s)(5 \<mapsto> c), srv_started := [0x0A000001]\<rparr>"
    unfolding demo_srv_def k_def [symmetric] by (simp add: udp_message_def r s(2))
  show "srv_tab demo_srv 5 \<noteq> None" "srv_started demo_srv = [0x0A000001]"
    "srv_checks demo_srv = [(\<lparr>tv_sec = 10, tv_nsec = 0\<rparr>, 0x0A000001)]"
    unfolding d using s(3) by (simp_all add: demo_sq_def)
qed

section \<open>Properties of the server\<close>

text \<open>
  C10: The table of tunnels. In every run of the server, with any configuration files and reloads of them, any datagrams
  on its socket and on those of its tunnels, any timers, commands and outcomes of system calls, a tunnel in the table is
  listed under its own id, which is not 0, is not closed, has a receive window in the documented range, and
  satisfies the invariants of the transport and of the session book-keeping.
\<close>

theorem l2tp_server_tunnels:
  assumes "(l2tp_srv_step lim rl cli env)\<^sup>*\<^sup>* (srv_init ranges) s" "srv_tab s tid = Some c"
  shows "tid \<noteq> 0 \<and> c_tid c = tid \<and> c_state c \<noteq> STATE_CLOSE \<and> 1 \<le> recv_queue_sz c \<and> recv_queue_sz c \<le> 32768 \<and>
    l2tp_inv False c \<and> book_ok c"
  using srv_run_ok [OF assms(1), of "\<lambda>_. True"] assms(2) by (auto simp: tab_ok_def conn_good_def Suc_le_eq)

theorem l2tp_server_tunnels_witness:
  "\<exists>c. srv_tab demo_srv 5 = Some c \<and> c_tid c = 5 \<and> l2tp_inv False c"
proof -
  obtain c where c: "srv_tab demo_srv 5 = Some c" using demo_srv_started(1) by blast
  from l2tp_server_tunnels [OF demo_srv_run c] c show ?thesis by simp
qed

text \<open>
  C14: Admission by address. When the client ranges are loaded, at the start and by every later reload, from lists of
  networks in CIDR notation, then in every run without tunnels made by command, every tunnel that the server holds, at
  any later time of its life, belongs to a peer inside one of the networks of one of these lists; without a reload,
  inside one of the networks loaded at the start.
\<close>

theorem l2tp_server_admission:
  assumes "\<forall>nets \<in> confs. \<forall>(net, n) \<in> set nets. n \<le> 32" "first \<in> confs"
    and "(l2tp_srv_step lim (\<lambda>mem sect. mem = (\<lambda>_. True) \<and> sect \<in> (\<lambda>nets. Some (map cidr nets)) ` confs) False env)\<^sup>*\<^sup>*
      (srv_init (iprange_load_config (\<lambda>_. True) (Some (map cidr first)))) s"
    and "srv_tab s tid = Some c"
  shows "\<exists>nets \<in> confs. \<exists>(net, n) \<in> set nets. drop_bit (32 - n) (fst (c_peer_addr c)) = drop_bit (32 - n) net"
proof -
  let ?P = "\<lambda>a. \<exists>nets \<in> confs. \<exists>e \<in> set nets. in_net a e"
  have "admits ?P (iprange_load_config (\<lambda>_. True) (Some (map cidr nets)))" if "nets \<in> confs" for nets
    using client_check_networks [of nets] assms(1) that by (auto simp: admits_def)
  then have "tab_ok ?P (srv_tab s)" using srv_run_ok [OF assms(3), of ?P] assms(2) by auto
  with assms(4) show ?thesis by (auto simp: tab_ok_def in_net_def split_beta)
qed

theorem l2tp_server_admission_witness:
  "\<exists>c. srv_tab demo_srv 5 = Some c \<and> drop_bit 24 (fst (c_peer_addr c)) = 0x0A"
proof -
  obtain c where c: "srv_tab demo_srv 5 = Some c" using demo_srv_started(1) by blast
  have "\<exists>nets \<in> {demo_nets}. \<exists>(net, n) \<in> set nets. drop_bit (32 - n) (fst (c_peer_addr c)) = drop_bit (32 - n) net"
    by (rule l2tp_server_admission [OF _ _ demo_srv_run [unfolded demo_ranges_def] c]) (simp_all add: demo_nets_def)
  with c show ?thesis by (simp add: demo_nets_def)
qed

text \<open>
  C23: The rate of new tunnels. While the connection limit is loaded and its options stay the same, the number of tunnels that one peer gets
  started, in every run of the server and with other parts of the daemon using the same limit, is at most the
  burst, one more burst for every burst timeout and one more tunnel for every limit timeout between the first
  and the last check, up to a millisecond of rounding for each timeout.
\<close>

theorem l2tp_server_rate:
  assumes "(l2tp_srv_step (\<lambda>x. x = cl) rl cli sq_connlimit)\<^sup>*\<^sup>* (srv_init ranges) s" "srv_checks s \<noteq> []" "length (srv_checks s) < 2 ^ 31"
    and "\<forall>(ts, _) \<in> set (srv_checks s). ts_ok ts" "sorted (map (\<lambda>(ts, _). ns ts) (srv_checks s))" "conf_ok cl"
  shows "\<exists>bursts waits :: nat.
    int (count_list (srv_started s) a) \<le> conf_burst cl * (1 + int bursts) + int waits \<and>
    (int bursts * (conf_burst_timeout cl - 1) + int waits * (conf_limit_timeout cl - 1)) * 1000000
      \<le> ns (fst (last (srv_checks s))) - ns (fst (hd (srv_checks s)))"
proof -
  have "limited cl s" by (rule srv_run_limited [OF assms(1)])
  then have le: "int (count_list (srv_started s) a) \<le> passed cl (cl_key_from_ipv4 a) [] (srv_checks s)"
    by (simp add: limited_def)
  have "clock_ok (ns (fst (hd (srv_checks s)))) (ns (fst (last (srv_checks s)))) (srv_checks s)"
    using clock_ok_span [OF assms(2,4)] assms(5) by (simp add: case_prod_unfold)
  note passed_within_start [OF assms(6) this assms(3), of "cl_key_from_ipv4 a"]
  then have "within cl (ns (fst (last (srv_checks s))) - ns (fst (hd (srv_checks s)))) (conf_burst cl)
      (int (count_list (srv_started s) a))"
    by (rule within_mono) (use le in simp_all)
  then show ?thesis by (auto simp: within_def algebra_simps)
qed

theorem l2tp_server_rate_witness:
  "count_list (srv_started demo_srv) 0x0A000001 = 1 \<and>
   (\<exists>bursts waits :: nat. 1 \<le> 3 * (1 + int bursts) + int waits \<and> (int bursts * 59999 + int waits * 4999) * 1000000 \<le> 0)"
proof -
  have "\<exists>bursts waits :: nat.
    int (count_list (srv_started demo_srv) 0x0A000001) \<le> conf_burst demo_limits * (1 + int bursts) + int waits \<and>
    (int bursts * (conf_burst_timeout demo_limits - 1) + int waits * (conf_limit_timeout demo_limits - 1)) * 1000000
      \<le> ns (fst (last (srv_checks demo_srv))) - ns (fst (hd (srv_checks demo_srv)))"
    by (rule l2tp_server_rate [OF demo_srv_run]) (simp_all add: demo_srv_started ts_ok_def conf_ok_def demo_limits_def)
  then show ?thesis by (simp add: demo_srv_started demo_limits_def)
qed

text \<open>
  C32: The configuration. Whatever the options of the file are, loading it leaves a receive window from 1 to
  32768, a positive retransmission timeout that does not exceed its cap, and a positive number of
  retransmissions.
\<close>

theorem l2tp_config_bounds:
  "1 \<le> unat (conf_recv_window (l2tp_load_config opt k)) \<and> unat (conf_recv_window (l2tp_load_config opt k)) \<le> 32768 \<and>
   0 < conf_rtimeout (l2tp_load_config opt k) \<and>
   conf_rtimeout (l2tp_load_config opt k) \<le> conf_rtimeout_cap (l2tp_load_config opt k) \<and>
   0 < conf_retransmit (l2tp_load_config opt k)"
  using load_config_window [of opt k] load_config_timers [of opt k] by (simp add: word_less_nat_alt)

end
