(* ===== verification/Ppp_Fsm.thy ===== *)
theory Ppp_Fsm
  imports BNG_Prelude
begin

text \<open>
  The PPP option negotiation automaton of \<open>micro-bngd/ppp/ppp_fsm.c\<close>: the record of
  \<open>struct ppp_fsm_t\<close>, one definition per handler, and the automaton of RFC 1661,
  section 4.1, that the handlers implement. A layer (LCP, IPCP, ...) embeds the struct and is
  reached from it by \<open>container_of\<close>; here a layer's record extends \<open>ppp_fsm_t\<close>, and
  the function pointers of the struct are the record \<open>fsm_ops\<close> of functions on the
  extended state. The locale \<open>fsm_layer\<close> states what the automaton expects of a layer's
  callbacks: they leave the automaton's own control fields alone.
\<close>

section \<open>State and callbacks\<close>

datatype FSM_STATE =
    FSM_Initial | FSM_Starting | FSM_Closed | FSM_Stopped | FSM_Closing | FSM_Stopping
  | FSM_Req_Sent | FSM_Ack_Rcvd | FSM_Ack_Sent | FSM_Opened

text \<open>
  \<open>restart_timer_tpd\<close> is the test \<open>restart_timer.tpd != NULL\<close>: the timer is
  registered with the event loop.
\<close>

record ppp_fsm_t =
  fsm_state :: FSM_STATE
  fsm_proto :: u16
  restart_timer_tpd :: bool
  restart_timer_period :: int
  restart_counter :: int
  max_terminate :: int
  max_configure :: int
  max_failure :: int
  conf_failure :: int
  fsm_id :: u8
  recv_id :: u8

text \<open>
  The function pointers of the struct. The \<open>send_term_req\<close> and \<open>send_term_ack\<close>
  pointers are called without a null test. \<open>timer_add_ok\<close> is the outcome of
  \<open>triton_timer_add\<close>, which leaves \<open>tpd\<close> null when the kernel refuses the timer.
\<close>

record 's fsm_ops =
  layer_up :: "('s \<Rightarrow> 's) option"
  layer_down :: "('s \<Rightarrow> 's) option"
  layer_started :: "('s \<Rightarrow> 's) option"
  layer_finished :: "('s \<Rightarrow> 's) option"
  send_conf_req :: "('s \<Rightarrow> int \<times> 's) option"
  send_conf_ack :: "('s \<Rightarrow> 's) option"
  send_conf_nak :: "('s \<Rightarrow> 's) option"
  send_conf_rej :: "('s \<Rightarrow> 's) option"
  send_code_rej :: "('s \<Rightarrow> 's) option"
  send_term_req :: "'s \<Rightarrow> 's"
  send_term_ack :: "'s \<Rightarrow> 's"
  timer_add_ok :: bool

record fsm_conf =
  conf_max_terminate :: int
  conf_max_configure :: int
  conf_max_failure :: int
  conf_timeout :: int

definition fsm_conf_default :: fsm_conf where
  "fsm_conf_default = \<lparr>conf_max_terminate = 2, conf_max_configure = 10,
     conf_max_failure = 10, conf_timeout = 3\<rparr>"

text \<open>
  \<open>load_config\<close>: each option is the value of \<open>atoi\<close> on the configured string, or
  absent; only positive values replace the current setting.
\<close>

definition set_pos :: "int option \<Rightarrow> int \<Rightarrow> int" where
  "set_pos opt cur = (case opt of Some v \<Rightarrow> if v > 0 then v else cur | None \<Rightarrow> cur)"

definition fsm_load_config ::
    "int option \<Rightarrow> int option \<Rightarrow> int option \<Rightarrow> int option \<Rightarrow> fsm_conf \<Rightarrow> fsm_conf" where
  "fsm_load_config mt mc mf to c =
     \<lparr>conf_max_terminate = set_pos mt (conf_max_terminate c),
      conf_max_configure = set_pos mc (conf_max_configure c),
      conf_max_failure = set_pos mf (conf_max_failure c),
      conf_timeout = set_pos to (conf_timeout c)\<rparr>"

section \<open>Timer and counter helpers\<close>

definition stop_timer :: "'z ppp_fsm_t_scheme \<Rightarrow> 'z ppp_fsm_t_scheme" where
  "stop_timer s = (if restart_timer_tpd s then s\<lparr>restart_timer_tpd := False\<rparr> else s)"

definition start_timer ::
    "'z ppp_fsm_t_scheme fsm_ops \<Rightarrow> 'z ppp_fsm_t_scheme \<Rightarrow> 'z ppp_fsm_t_scheme" where
  "start_timer ops s =
     (if \<not> restart_timer_tpd s then s\<lparr>restart_timer_tpd := timer_add_ok ops\<rparr> else s)"

definition init_req_counter ::
    "'z ppp_fsm_t_scheme fsm_ops \<Rightarrow> int \<Rightarrow> 'z ppp_fsm_t_scheme \<Rightarrow> 'z ppp_fsm_t_scheme" where
  "init_req_counter ops n s = start_timer ops (s\<lparr>restart_counter := n\<rparr>)"

definition zero_req_counter ::
    "'z ppp_fsm_t_scheme fsm_ops \<Rightarrow> 'z ppp_fsm_t_scheme \<Rightarrow> 'z ppp_fsm_t_scheme" where
  "zero_req_counter ops s = start_timer ops (s\<lparr>restart_counter := 0\<rparr>)"

abbreviation dec_counter :: "'z ppp_fsm_t_scheme \<Rightarrow> 'z ppp_fsm_t_scheme" where
  "dec_counter s \<equiv> s\<lparr>restart_counter := restart_counter s - 1\<rparr>"

abbreviation goto :: "FSM_STATE \<Rightarrow> 'z ppp_fsm_t_scheme \<Rightarrow> 'z ppp_fsm_t_scheme" where
  "goto st s \<equiv> s\<lparr>fsm_state := st\<rparr>"

text \<open>\<open>if (layer->send_conf_req) layer->send_conf_req(layer)\<close>, with the result where it is tested.\<close>

definition try_conf_req :: "'s fsm_ops \<Rightarrow> 's \<Rightarrow> int \<times> 's" where
  "try_conf_req ops s = (case send_conf_req ops of None \<Rightarrow> (0, s) | Some f \<Rightarrow> f s)"

abbreviation do_conf_req :: "'s fsm_ops \<Rightarrow> 's \<Rightarrow> 's" where
  "do_conf_req ops s \<equiv> snd (try_conf_req ops s)"

text \<open>\<open>++layer->conf_failure == layer->max_failure\<close>\<close>

abbreviation inc_failure :: "'z ppp_fsm_t_scheme \<Rightarrow> 'z ppp_fsm_t_scheme" where
  "inc_failure s \<equiv> s\<lparr>conf_failure := conf_failure s + 1\<rparr>"

abbreviation at_limit :: "'z ppp_fsm_t_scheme \<Rightarrow> bool" where
  "at_limit s \<equiv> conf_failure s + 1 = max_failure s"

section \<open>Handlers\<close>

definition ppp_fsm_init ::
    "fsm_conf \<Rightarrow> u8 \<Rightarrow> 'z ppp_fsm_t_scheme \<Rightarrow> 'z ppp_fsm_t_scheme" where
  "ppp_fsm_init c rnd s = s\<lparr>fsm_state := FSM_Initial,
     restart_timer_period := conf_timeout c * 1000, restart_counter := 0,
     max_terminate := conf_max_terminate c, max_configure := conf_max_configure c,
     max_failure := conf_max_failure c, fsm_id := rnd\<rparr>"

definition ppp_fsm_free :: "'z ppp_fsm_t_scheme \<Rightarrow> 'z ppp_fsm_t_scheme" where
  "ppp_fsm_free s = stop_timer s"

definition ppp_fsm_lower_up ::
    "'z ppp_fsm_t_scheme fsm_ops \<Rightarrow> 'z ppp_fsm_t_scheme \<Rightarrow> int \<times> 'z ppp_fsm_t_scheme" where
  "ppp_fsm_lower_up ops s =
     (case fsm_state s of
        FSM_Initial \<Rightarrow> (0, goto FSM_Closed s)
      | FSM_Starting \<Rightarrow>
          (let s1 = dec_counter (init_req_counter ops (max_configure s) s);
               (r, s2) = try_conf_req ops s1
           in if r \<noteq> 0 then (-1, s2) else (0, goto FSM_Req_Sent s2))
      | _ \<Rightarrow> (0, s))"

definition ppp_fsm_lower_down ::
    "'z ppp_fsm_t_scheme fsm_ops \<Rightarrow> 'z ppp_fsm_t_scheme \<Rightarrow> 'z ppp_fsm_t_scheme" where
  "ppp_fsm_lower_down ops s =
     (case fsm_state s of
        FSM_Closed \<Rightarrow> goto FSM_Initial s
      | FSM_Closing \<Rightarrow> goto FSM_Initial s
      | FSM_Stopped \<Rightarrow> goto FSM_Starting (call_opt (layer_started ops) s)
      | FSM_Stopping \<Rightarrow> goto FSM_Starting s
      | FSM_Req_Sent \<Rightarrow> goto FSM_Starting s
      | FSM_Ack_Rcvd \<Rightarrow> goto FSM_Starting s
      | FSM_Ack_Sent \<Rightarrow> goto FSM_Starting s
      | FSM_Opened \<Rightarrow> goto FSM_Starting (call_opt (layer_down ops) s)
      | _ \<Rightarrow> s)"

definition ppp_fsm_open ::
    "'z ppp_fsm_t_scheme fsm_ops \<Rightarrow> 'z ppp_fsm_t_scheme \<Rightarrow> int \<times> 'z ppp_fsm_t_scheme" where
  "ppp_fsm_open ops s =
     (let restart = (0, snd (ppp_fsm_lower_up ops (ppp_fsm_lower_down ops s)))
      in case fsm_state s of
        FSM_Initial \<Rightarrow> (0, goto FSM_Starting s)
      | FSM_Starting \<Rightarrow> (0, s)
      | FSM_Closed \<Rightarrow>
          (let s1 = goto FSM_Req_Sent (dec_counter (init_req_counter ops (max_configure s) s));
               (r, s2) = try_conf_req ops s1
           in if r \<noteq> 0 then (-1, s2) else (0, s2))
      | FSM_Closing \<Rightarrow> restart
      | FSM_Stopping \<Rightarrow> restart
      | FSM_Stopped \<Rightarrow> restart
      | FSM_Opened \<Rightarrow> restart
      | _ \<Rightarrow> (0, s))"

definition ppp_fsm_close ::
    "'z ppp_fsm_t_scheme fsm_ops \<Rightarrow> 'z ppp_fsm_t_scheme \<Rightarrow> 'z ppp_fsm_t_scheme" where
  "ppp_fsm_close ops s =
     (let terminate = (\<lambda>s. goto FSM_Closing
            (send_term_req ops (init_req_counter ops (max_terminate s) s)))
      in case fsm_state s of
        FSM_Starting \<Rightarrow> call_opt (layer_finished ops) (goto FSM_Initial (stop_timer s))
      | FSM_Stopped \<Rightarrow> stop_timer (goto FSM_Closed s)
      | FSM_Stopping \<Rightarrow> goto FSM_Closing s
      | FSM_Opened \<Rightarrow> terminate (call_opt (layer_down ops) (goto FSM_Closing s))
      | FSM_Req_Sent \<Rightarrow> terminate s
      | FSM_Ack_Rcvd \<Rightarrow> terminate s
      | FSM_Ack_Sent \<Rightarrow> terminate s
      | _ \<Rightarrow> s)"

definition ppp_fsm_close2 :: "'z ppp_fsm_t_scheme \<Rightarrow> 'z ppp_fsm_t_scheme" where
  "ppp_fsm_close2 s = goto FSM_Closed (stop_timer s)"

definition ppp_fsm_timeout0 ::
    "'z ppp_fsm_t_scheme fsm_ops \<Rightarrow> 'z ppp_fsm_t_scheme \<Rightarrow> 'z ppp_fsm_t_scheme" where
  "ppp_fsm_timeout0 ops s =
     (case fsm_state s of
        FSM_Closing \<Rightarrow> send_term_req ops (dec_counter s)
      | FSM_Stopping \<Rightarrow> send_term_req ops (dec_counter s)
      | FSM_Ack_Rcvd \<Rightarrow> do_conf_req ops (dec_counter (goto FSM_Req_Sent s))
      | FSM_Req_Sent \<Rightarrow> do_conf_req ops (dec_counter s)
      | FSM_Ack_Sent \<Rightarrow> do_conf_req ops (dec_counter s)
      | _ \<Rightarrow> s)"

definition ppp_fsm_timeout1 ::
    "'z ppp_fsm_t_scheme fsm_ops \<Rightarrow> 'z ppp_fsm_t_scheme \<Rightarrow> 'z ppp_fsm_t_scheme" where
  "ppp_fsm_timeout1 ops s =
     (let finish = (\<lambda>st. call_opt (layer_finished ops) (goto st (stop_timer s)))
      in case fsm_state s of
        FSM_Closing \<Rightarrow> finish FSM_Closed
      | FSM_Stopping \<Rightarrow> finish FSM_Stopped
      | FSM_Ack_Rcvd \<Rightarrow> finish FSM_Stopped
      | FSM_Req_Sent \<Rightarrow> finish FSM_Stopped
      | FSM_Ack_Sent \<Rightarrow> finish FSM_Stopped
      | _ \<Rightarrow> s)"

definition restart_timer_func ::
    "'z ppp_fsm_t_scheme fsm_ops \<Rightarrow> 'z ppp_fsm_t_scheme \<Rightarrow> 'z ppp_fsm_t_scheme" where
  "restart_timer_func ops s =
     (if restart_counter s > 0 then ppp_fsm_timeout0 ops s else ppp_fsm_timeout1 ops s)"

definition ppp_fsm_recv_conf_req_ack ::
    "'z ppp_fsm_t_scheme fsm_ops \<Rightarrow> 'z ppp_fsm_t_scheme \<Rightarrow> 'z ppp_fsm_t_scheme" where
  "ppp_fsm_recv_conf_req_ack ops s =
     (let ack = (\<lambda>s. goto FSM_Ack_Sent (call_opt (send_conf_ack ops) s))
      in case fsm_state s of
        FSM_Closed \<Rightarrow> send_term_ack ops s
      | FSM_Stopped \<Rightarrow>
          ack (do_conf_req ops (dec_counter (init_req_counter ops (max_configure s) s)))
      | FSM_Req_Sent \<Rightarrow> ack s
      | FSM_Ack_Sent \<Rightarrow> ack s
      | FSM_Ack_Rcvd \<Rightarrow>
          goto FSM_Opened (call_opt (layer_up ops) (stop_timer (call_opt (send_conf_ack ops) s)))
      | FSM_Opened \<Rightarrow> ack (do_conf_req ops (dec_counter (call_opt (layer_down ops) s)))
      | _ \<Rightarrow> s)"

definition ppp_fsm_recv_conf_req_nak ::
    "'z ppp_fsm_t_scheme fsm_ops \<Rightarrow> 'z ppp_fsm_t_scheme \<Rightarrow> 'z ppp_fsm_t_scheme" where
  "ppp_fsm_recv_conf_req_nak ops s =
     (let nak = (\<lambda>s. goto FSM_Req_Sent (call_opt (send_conf_nak ops) s));
          count = (if at_limit s then call_opt (layer_finished ops) (inc_failure s)
                   else call_opt (send_conf_nak ops) (inc_failure s))
      in case fsm_state s of
        FSM_Closed \<Rightarrow> send_term_ack ops s
      | FSM_Stopped \<Rightarrow>
          nak (do_conf_req ops (dec_counter (init_req_counter ops (max_configure s) s)))
      | FSM_Ack_Sent \<Rightarrow> nak s
      | FSM_Req_Sent \<Rightarrow> count
      | FSM_Ack_Rcvd \<Rightarrow> count
      | FSM_Opened \<Rightarrow> nak (do_conf_req ops (dec_counter (call_opt (layer_down ops) s)))
      | _ \<Rightarrow> s)"

definition ppp_fsm_recv_conf_req_rej ::
    "'z ppp_fsm_t_scheme fsm_ops \<Rightarrow> 'z ppp_fsm_t_scheme \<Rightarrow> 'z ppp_fsm_t_scheme" where
  "ppp_fsm_recv_conf_req_rej ops s =
     (let rej = (\<lambda>s. if at_limit s then call_opt (layer_down ops) (inc_failure s)
                     else goto FSM_Req_Sent (call_opt (send_conf_rej ops) (inc_failure s)));
          count = (if at_limit s then call_opt (layer_finished ops) (inc_failure s)
                   else call_opt (send_conf_rej ops) (inc_failure s))
      in case fsm_state s of
        FSM_Closed \<Rightarrow> send_term_ack ops s
      | FSM_Stopped \<Rightarrow>
          rej (do_conf_req ops (dec_counter (init_req_counter ops (max_configure s) s)))
      | FSM_Ack_Sent \<Rightarrow> rej s
      | FSM_Req_Sent \<Rightarrow> count
      | FSM_Ack_Rcvd \<Rightarrow> count
      | FSM_Opened \<Rightarrow> goto FSM_Req_Sent (call_opt (send_conf_rej ops)
            (do_conf_req ops (dec_counter (call_opt (layer_down ops) s))))
      | _ \<Rightarrow> s)"

definition ppp_fsm_recv_conf_ack ::
    "'z ppp_fsm_t_scheme fsm_ops \<Rightarrow> 'z ppp_fsm_t_scheme \<Rightarrow> 'z ppp_fsm_t_scheme" where
  "ppp_fsm_recv_conf_ack ops s0 =
     (let s = s0\<lparr>fsm_id := fsm_id s0 + 1\<rparr>
      in case fsm_state s of
        FSM_Closed \<Rightarrow> send_term_ack ops s
      | FSM_Stopped \<Rightarrow> send_term_ack ops s
      | FSM_Req_Sent \<Rightarrow> goto FSM_Ack_Rcvd s
      | FSM_Ack_Rcvd \<Rightarrow> goto FSM_Req_Sent (do_conf_req ops (dec_counter s))
      | FSM_Ack_Sent \<Rightarrow> goto FSM_Opened (call_opt (layer_up ops) (stop_timer s))
      | FSM_Opened \<Rightarrow>
          goto FSM_Req_Sent (do_conf_req ops (dec_counter (call_opt (layer_down ops) s)))
      | _ \<Rightarrow> s)"

definition ppp_fsm_recv_conf_rej ::
    "'z ppp_fsm_t_scheme fsm_ops \<Rightarrow> 'z ppp_fsm_t_scheme \<Rightarrow> 'z ppp_fsm_t_scheme" where
  "ppp_fsm_recv_conf_rej ops s0 =
     (let s = s0\<lparr>fsm_id := fsm_id s0 + 1\<rparr>;
          count = (\<lambda>n. if at_limit s then call_opt (layer_down ops) (inc_failure s)
                   else do_conf_req ops (dec_counter (init_req_counter ops n (inc_failure s))))
      in case fsm_state s of
        FSM_Closed \<Rightarrow> send_term_ack ops s
      | FSM_Stopped \<Rightarrow> send_term_ack ops s
      | FSM_Req_Sent \<Rightarrow> count (max_failure s)
      | FSM_Ack_Rcvd \<Rightarrow> goto FSM_Req_Sent (do_conf_req ops (dec_counter s))
      | FSM_Ack_Sent \<Rightarrow> count (max_configure s)
      | FSM_Opened \<Rightarrow>
          goto FSM_Req_Sent (do_conf_req ops (dec_counter (call_opt (layer_down ops) s)))
      | _ \<Rightarrow> s)"

definition ppp_fsm_recv_term_req ::
    "'z ppp_fsm_t_scheme fsm_ops \<Rightarrow> 'z ppp_fsm_t_scheme \<Rightarrow> 'z ppp_fsm_t_scheme" where
  "ppp_fsm_recv_term_req ops s =
     (case fsm_state s of
        FSM_Opened \<Rightarrow> goto FSM_Stopping
          (zero_req_counter ops (send_term_ack ops (call_opt (layer_down ops) s)))
      | FSM_Req_Sent \<Rightarrow> goto FSM_Req_Sent (send_term_ack ops s)
      | FSM_Ack_Rcvd \<Rightarrow> goto FSM_Req_Sent (send_term_ack ops s)
      | FSM_Ack_Sent \<Rightarrow> goto FSM_Req_Sent (send_term_ack ops s)
      | _ \<Rightarrow> send_term_ack ops s)"

definition ppp_fsm_recv_term_ack ::
    "'z ppp_fsm_t_scheme fsm_ops \<Rightarrow> 'z ppp_fsm_t_scheme \<Rightarrow> 'z ppp_fsm_t_scheme" where
  "ppp_fsm_recv_term_ack ops s0 =
     (let s = stop_timer s0
      in case fsm_state s of
        FSM_Closing \<Rightarrow> call_opt (layer_finished ops) (goto FSM_Closed s)
      | FSM_Stopping \<Rightarrow> call_opt (layer_finished ops) (goto FSM_Stopped s)
      | FSM_Ack_Rcvd \<Rightarrow> goto FSM_Req_Sent s
      | FSM_Opened \<Rightarrow>
          goto FSM_Req_Sent (do_conf_req ops (dec_counter (call_opt (layer_down ops) s)))
      | _ \<Rightarrow> s)"

definition ppp_fsm_recv_unk ::
    "'z ppp_fsm_t_scheme fsm_ops \<Rightarrow> 'z ppp_fsm_t_scheme \<Rightarrow> 'z ppp_fsm_t_scheme" where
  "ppp_fsm_recv_unk ops s = call_opt (send_code_rej ops) s"

definition ppp_fsm_recv_code_rej_perm :: "'z ppp_fsm_t_scheme \<Rightarrow> 'z ppp_fsm_t_scheme" where
  "ppp_fsm_recv_code_rej_perm s =
     (case fsm_state s of FSM_Ack_Rcvd \<Rightarrow> goto FSM_Req_Sent s | _ \<Rightarrow> s)"

definition ppp_fsm_recv_code_rej_bad ::
    "'z ppp_fsm_t_scheme fsm_ops \<Rightarrow> 'z ppp_fsm_t_scheme \<Rightarrow> 'z ppp_fsm_t_scheme" where
  "ppp_fsm_recv_code_rej_bad ops s =
     (let stop = call_opt (layer_finished ops) (goto FSM_Stopped s)
      in case fsm_state s of
        FSM_Opened \<Rightarrow>
          goto FSM_Stopping (send_term_req ops (dec_counter (call_opt (layer_down ops) s)))
      | FSM_Closing \<Rightarrow> call_opt (layer_finished ops) (goto FSM_Closed s)
      | FSM_Stopping \<Rightarrow> stop
      | FSM_Req_Sent \<Rightarrow> stop
      | FSM_Ack_Rcvd \<Rightarrow> stop
      | FSM_Ack_Sent \<Rightarrow> stop
      | _ \<Rightarrow> s)"

section \<open>Events, runs and the automaton of RFC 1661\<close>

text \<open>
  The events the daemon delivers to the automaton. \<open>Ev_RCR_nak\<close> and \<open>Ev_RCR_rej\<close>
  are the two forms of the RFC's RCR- (answered by a Nak or by a Reject).
\<close>

datatype fsm_event =
    Ev_Up | Ev_Down | Ev_Open | Ev_Close | Ev_Timer
  | Ev_RCR_ack | Ev_RCR_nak | Ev_RCR_rej | Ev_RCA | Ev_RCN | Ev_RTR | Ev_RTA
  | Ev_RUC | Ev_RXJ_perm | Ev_RXJ_bad

fun fsm_step ::
    "'z ppp_fsm_t_scheme fsm_ops \<Rightarrow> fsm_event \<Rightarrow> 'z ppp_fsm_t_scheme \<Rightarrow> 'z ppp_fsm_t_scheme"
where
  "fsm_step ops Ev_Up s = snd (ppp_fsm_lower_up ops s)"
| "fsm_step ops Ev_Down s = ppp_fsm_lower_down ops s"
| "fsm_step ops Ev_Open s = snd (ppp_fsm_open ops s)"
| "fsm_step ops Ev_Close s = ppp_fsm_close ops s"
| "fsm_step ops Ev_Timer s = restart_timer_func ops s"
| "fsm_step ops Ev_RCR_ack s = ppp_fsm_recv_conf_req_ack ops s"
| "fsm_step ops Ev_RCR_nak s = ppp_fsm_recv_conf_req_nak ops s"
| "fsm_step ops Ev_RCR_rej s = ppp_fsm_recv_conf_req_rej ops s"
| "fsm_step ops Ev_RCA s = ppp_fsm_recv_conf_ack ops s"
| "fsm_step ops Ev_RCN s = ppp_fsm_recv_conf_rej ops s"
| "fsm_step ops Ev_RTR s = ppp_fsm_recv_term_req ops s"
| "fsm_step ops Ev_RTA s = ppp_fsm_recv_term_ack ops s"
| "fsm_step ops Ev_RUC s = ppp_fsm_recv_unk ops s"
| "fsm_step ops Ev_RXJ_perm s = ppp_fsm_recv_code_rej_perm s"
| "fsm_step ops Ev_RXJ_bad s = ppp_fsm_recv_code_rej_bad ops s"

definition fsm_run ::
    "'z ppp_fsm_t_scheme fsm_ops \<Rightarrow> fsm_event list \<Rightarrow> 'z ppp_fsm_t_scheme \<Rightarrow> 'z ppp_fsm_t_scheme"
where
  "fsm_run ops es s = fold (fsm_step ops) es s"

text \<open>
  The transition table of RFC 1661, section 4.1, with all its actions and the restart option \<open>[r]\<close> of the
  Open event (Down followed by Up, "progressing through the Starting to the Request-Sent
  state"). The timer event is TO+ while the restart counter is positive and TO- otherwise. The action \<open>scn\<close>
  is a Nak or a Reject, as the event says. Entries marked \<open>-\<close> keep the state.
\<close>

datatype fsm_action = Tlu | Tld | Tls | Tlf | Irc | Zrc | Scr | Sca | Scn_nak | Scn_rej | Str | Sta | Scj

definition rfc1661_rcr_minus :: "fsm_action \<Rightarrow> FSM_STATE \<Rightarrow> fsm_action list \<times> FSM_STATE" where
  "rfc1661_rcr_minus scn st = (case st of FSM_Closed \<Rightarrow> ([Sta], st)
     | FSM_Stopped \<Rightarrow> ([Irc, Scr, scn], FSM_Req_Sent) | FSM_Req_Sent \<Rightarrow> ([scn], st)
     | FSM_Ack_Rcvd \<Rightarrow> ([scn], st) | FSM_Ack_Sent \<Rightarrow> ([scn], FSM_Req_Sent)
     | FSM_Opened \<Rightarrow> ([Tld, Scr, scn], FSM_Req_Sent) | _ \<Rightarrow> ([], st))"

fun rfc1661 :: "bool \<Rightarrow> fsm_event \<Rightarrow> FSM_STATE \<Rightarrow> fsm_action list \<times> FSM_STATE" where
  "rfc1661 c Ev_Up st = (case st of FSM_Initial \<Rightarrow> ([], FSM_Closed)
     | FSM_Starting \<Rightarrow> ([Irc, Scr], FSM_Req_Sent) | _ \<Rightarrow> ([], st))"
| "rfc1661 c Ev_Down st = (case st of FSM_Closed \<Rightarrow> ([], FSM_Initial)
     | FSM_Stopped \<Rightarrow> ([Tls], FSM_Starting) | FSM_Closing \<Rightarrow> ([], FSM_Initial)
     | FSM_Stopping \<Rightarrow> ([], FSM_Starting) | FSM_Req_Sent \<Rightarrow> ([], FSM_Starting)
     | FSM_Ack_Rcvd \<Rightarrow> ([], FSM_Starting) | FSM_Ack_Sent \<Rightarrow> ([], FSM_Starting)
     | FSM_Opened \<Rightarrow> ([Tld], FSM_Starting) | _ \<Rightarrow> ([], st))"
| "rfc1661 c Ev_Open st = (case st of FSM_Initial \<Rightarrow> ([Tls], FSM_Starting)
     | FSM_Closed \<Rightarrow> ([Irc, Scr], FSM_Req_Sent) | FSM_Stopped \<Rightarrow> ([Tls, Irc, Scr], FSM_Req_Sent)
     | FSM_Closing \<Rightarrow> ([Irc, Scr], FSM_Req_Sent) | FSM_Stopping \<Rightarrow> ([Irc, Scr], FSM_Req_Sent)
     | FSM_Opened \<Rightarrow> ([Tld, Irc, Scr], FSM_Req_Sent) | _ \<Rightarrow> ([], st))"
| "rfc1661 c Ev_Close st = (case st of FSM_Starting \<Rightarrow> ([Tlf], FSM_Initial)
     | FSM_Stopped \<Rightarrow> ([], FSM_Closed) | FSM_Stopping \<Rightarrow> ([], FSM_Closing)
     | FSM_Req_Sent \<Rightarrow> ([Irc, Str], FSM_Closing) | FSM_Ack_Rcvd \<Rightarrow> ([Irc, Str], FSM_Closing)
     | FSM_Ack_Sent \<Rightarrow> ([Irc, Str], FSM_Closing) | FSM_Opened \<Rightarrow> ([Tld, Irc, Str], FSM_Closing)
     | _ \<Rightarrow> ([], st))"
| "rfc1661 c Ev_Timer st = (if c then
     (case st of FSM_Closing \<Rightarrow> ([Str], st) | FSM_Stopping \<Rightarrow> ([Str], st)
      | FSM_Req_Sent \<Rightarrow> ([Scr], st) | FSM_Ack_Rcvd \<Rightarrow> ([Scr], FSM_Req_Sent)
      | FSM_Ack_Sent \<Rightarrow> ([Scr], st) | _ \<Rightarrow> ([], st))
     else
     (case st of FSM_Closing \<Rightarrow> ([Tlf], FSM_Closed) | FSM_Stopping \<Rightarrow> ([Tlf], FSM_Stopped)
      | FSM_Req_Sent \<Rightarrow> ([Tlf], FSM_Stopped) | FSM_Ack_Rcvd \<Rightarrow> ([Tlf], FSM_Stopped)
      | FSM_Ack_Sent \<Rightarrow> ([Tlf], FSM_Stopped) | _ \<Rightarrow> ([], st)))"
| "rfc1661 c Ev_RCR_ack st = (case st of FSM_Closed \<Rightarrow> ([Sta], st)
     | FSM_Stopped \<Rightarrow> ([Irc, Scr, Sca], FSM_Ack_Sent) | FSM_Req_Sent \<Rightarrow> ([Sca], FSM_Ack_Sent)
     | FSM_Ack_Rcvd \<Rightarrow> ([Sca, Tlu], FSM_Opened) | FSM_Ack_Sent \<Rightarrow> ([Sca], st)
     | FSM_Opened \<Rightarrow> ([Tld, Scr, Sca], FSM_Ack_Sent) | _ \<Rightarrow> ([], st))"
| "rfc1661 c Ev_RCR_nak st = rfc1661_rcr_minus Scn_nak st"
| "rfc1661 c Ev_RCR_rej st = rfc1661_rcr_minus Scn_rej st"
| "rfc1661 c Ev_RCA st = (case st of FSM_Closed \<Rightarrow> ([Sta], st) | FSM_Stopped \<Rightarrow> ([Sta], st)
     | FSM_Req_Sent \<Rightarrow> ([Irc], FSM_Ack_Rcvd) | FSM_Ack_Rcvd \<Rightarrow> ([Scr], FSM_Req_Sent)
     | FSM_Ack_Sent \<Rightarrow> ([Irc, Tlu], FSM_Opened) | FSM_Opened \<Rightarrow> ([Tld, Scr], FSM_Req_Sent)
     | _ \<Rightarrow> ([], st))"
| "rfc1661 c Ev_RCN st = (case st of FSM_Closed \<Rightarrow> ([Sta], st) | FSM_Stopped \<Rightarrow> ([Sta], st)
     | FSM_Req_Sent \<Rightarrow> ([Irc, Scr], st) | FSM_Ack_Rcvd \<Rightarrow> ([Scr], FSM_Req_Sent)
     | FSM_Ack_Sent \<Rightarrow> ([Irc, Scr], st) | FSM_Opened \<Rightarrow> ([Tld, Scr], FSM_Req_Sent)
     | _ \<Rightarrow> ([], st))"
| "rfc1661 c Ev_RTR st = (case st of FSM_Initial \<Rightarrow> ([], st) | FSM_Starting \<Rightarrow> ([], st)
     | FSM_Req_Sent \<Rightarrow> ([Sta], st) | FSM_Ack_Rcvd \<Rightarrow> ([Sta], FSM_Req_Sent)
     | FSM_Ack_Sent \<Rightarrow> ([Sta], FSM_Req_Sent) | FSM_Opened \<Rightarrow> ([Tld, Zrc, Sta], FSM_Stopping)
     | _ \<Rightarrow> ([Sta], st))"
| "rfc1661 c Ev_RTA st = (case st of FSM_Closing \<Rightarrow> ([Tlf], FSM_Closed)
     | FSM_Stopping \<Rightarrow> ([Tlf], FSM_Stopped) | FSM_Ack_Rcvd \<Rightarrow> ([], FSM_Req_Sent)
     | FSM_Opened \<Rightarrow> ([Tld, Scr], FSM_Req_Sent) | _ \<Rightarrow> ([], st))"
| "rfc1661 c Ev_RUC st = (case st of FSM_Initial \<Rightarrow> ([], st) | FSM_Starting \<Rightarrow> ([], st)
     | _ \<Rightarrow> ([Scj], st))"
| "rfc1661 c Ev_RXJ_perm st = ([], case st of FSM_Ack_Rcvd \<Rightarrow> FSM_Req_Sent | _ \<Rightarrow> st)"
| "rfc1661 c Ev_RXJ_bad st = (case st of FSM_Initial \<Rightarrow> ([], st) | FSM_Starting \<Rightarrow> ([], st)
     | FSM_Closed \<Rightarrow> ([Tlf], st) | FSM_Stopped \<Rightarrow> ([Tlf], st) | FSM_Closing \<Rightarrow> ([Tlf], FSM_Closed)
     | FSM_Opened \<Rightarrow> ([Tld, Irc, Str], FSM_Stopping) | _ \<Rightarrow> ([Tlf], FSM_Stopped))"




section \<open>The contract of a layer\<close>

text \<open>
  \<open>fsm_keeps s t\<close>: the control fields of the automaton are the same in \<open>t\<close> as in
  \<open>s\<close>. The identifiers may differ (\<open>send_term_req\<close> increments \<open>id\<close>), and so may
  everything of the embedding layer.
\<close>

definition fsm_keeps :: "'z ppp_fsm_t_scheme \<Rightarrow> 'z ppp_fsm_t_scheme \<Rightarrow> bool" where
  "fsm_keeps s t \<longleftrightarrow> fsm_state t = fsm_state s \<and> restart_timer_tpd t = restart_timer_tpd s \<and>
     restart_counter t = restart_counter s \<and> max_terminate t = max_terminate s \<and>
     max_configure t = max_configure s \<and> max_failure t = max_failure s \<and>
     conf_failure t = conf_failure s"

lemma fsm_keepsD [keeps]:
  assumes "fsm_keeps s t"
  shows "fsm_state t = fsm_state s" "restart_timer_tpd t = restart_timer_tpd s"
    "restart_counter t = restart_counter s" "max_terminate t = max_terminate s"
    "max_configure t = max_configure s" "max_failure t = max_failure s"
    "conf_failure t = conf_failure s"
  using assms by (simp_all add: fsm_keeps_def)

lemma fsm_keeps_refl [simp]: "fsm_keeps s s"
  by (simp add: fsm_keeps_def)

lemmas fsm_timer_defs = stop_timer_def start_timer_def init_req_counter_def zero_req_counter_def

lemmas fsm_handler_defs =
  ppp_fsm_lower_up_def ppp_fsm_lower_down_def ppp_fsm_open_def ppp_fsm_close_def
  ppp_fsm_timeout0_def ppp_fsm_timeout1_def restart_timer_func_def
  ppp_fsm_recv_conf_req_ack_def ppp_fsm_recv_conf_req_nak_def ppp_fsm_recv_conf_req_rej_def
  ppp_fsm_recv_conf_ack_def ppp_fsm_recv_conf_rej_def ppp_fsm_recv_term_req_def
  ppp_fsm_recv_term_ack_def ppp_fsm_recv_unk_def ppp_fsm_recv_code_rej_perm_def
  ppp_fsm_recv_code_rej_bad_def

text \<open>The states in which the layer negotiates its options, with the restart timer meant to run.\<close>

definition negotiating :: "FSM_STATE \<Rightarrow> bool" where
  "negotiating st \<longleftrightarrow> st = FSM_Req_Sent \<or> st = FSM_Ack_Rcvd \<or> st = FSM_Ack_Sent"

lemma negotiating_cases:
  assumes "negotiating st"
  obtains "st = FSM_Req_Sent" | "st = FSM_Ack_Rcvd" | "st = FSM_Ack_Sent"
  using assms by (auto simp: negotiating_def)

text \<open>
  The contract itself. \<open>conf_req_sent\<close> says that the request is handed to the link; a layer
  whose \<open>send_conf_req\<close> can fail does not meet it.
\<close>

locale fsm_layer =
  fixes ops :: "'z ppp_fsm_t_scheme fsm_ops"
  assumes up_keeps: "fsm_keeps s (call_opt (layer_up ops) s)"
    and down_keeps: "fsm_keeps s (call_opt (layer_down ops) s)"
    and started_keeps: "fsm_keeps s (call_opt (layer_started ops) s)"
    and finished_keeps: "fsm_keeps s (call_opt (layer_finished ops) s)"
    and conf_req_keeps: "fsm_keeps s (do_conf_req ops s)"
    and conf_ack_keeps: "fsm_keeps s (call_opt (send_conf_ack ops) s)"
    and conf_nak_keeps: "fsm_keeps s (call_opt (send_conf_nak ops) s)"
    and conf_rej_keeps: "fsm_keeps s (call_opt (send_conf_rej ops) s)"
    and code_rej_keeps: "fsm_keeps s (call_opt (send_code_rej ops) s)"
    and term_req_keeps: "fsm_keeps s (send_term_req ops s)"
    and term_ack_keeps: "fsm_keeps s (send_term_ack ops s)"
    and conf_req_sent: "fst (try_conf_req ops s) = 0"
begin

lemmas cb_keeps = up_keeps down_keeps started_keeps finished_keeps conf_req_keeps conf_ack_keeps
  conf_nak_keeps conf_rej_keeps code_rej_keeps term_req_keeps term_ack_keeps

lemmas cb_fields = cb_keeps [THEN fsm_keepsD(1)] cb_keeps [THEN fsm_keepsD(2)]
  cb_keeps [THEN fsm_keepsD(3)] cb_keeps [THEN fsm_keepsD(4)] cb_keeps [THEN fsm_keepsD(5)]
  cb_keeps [THEN fsm_keepsD(6)] cb_keeps [THEN fsm_keepsD(7)]

text \<open>Every event takes the automaton to the state the RFC's table names.\<close>

lemma next_state:
  assumes "\<not> at_limit s" and "\<not> (e = Ev_Open \<and> fsm_state s = FSM_Closing)"
  shows "fsm_state (fsm_step ops e s) = snd (rfc1661 (restart_counter s > 0) e (fsm_state s))"
  using assms
  by (cases e; cases "fsm_state s")
    (simp_all add: fsm_handler_defs fsm_timer_defs rfc1661_rcr_minus_def cb_fields conf_req_sent
      Let_def split_def)

text \<open>The restart timer never runs in the Opened state.\<close>

lemma opened_timer_off:
  assumes "fsm_state s = FSM_Opened \<longrightarrow> \<not> restart_timer_tpd s"
  shows "fsm_state (fsm_step ops e s) = FSM_Opened \<longrightarrow> \<not> restart_timer_tpd (fsm_step ops e s)"
  using assms
  by (cases e; cases "fsm_state s")
    (simp_all add: fsm_handler_defs fsm_timer_defs cb_fields conf_req_sent Let_def split_def)

lemma run_opened_timer_off:
  assumes "fsm_state s = FSM_Opened \<longrightarrow> \<not> restart_timer_tpd s"
  shows "fsm_state (fsm_run ops es s) = FSM_Opened \<longrightarrow> \<not> restart_timer_tpd (fsm_run ops es s)"
  using assms unfolding fsm_run_def
proof (induction es arbitrary: s)
  case (Cons e es)
  from Cons.IH [OF opened_timer_off [OF Cons.prems]] show ?case by simp
qed simp

text \<open>
  An unanswered negotiation ends: with the restart counter at \<open>n\<close>, the timer retransmits
  \<open>n\<close> times, and its next expiry stops the layer and the timer.
\<close>

lemma timer_retransmits:
  assumes "negotiating (fsm_state s)" and "restart_counter s > 0"
  shows "negotiating (fsm_state (fsm_step ops Ev_Timer s))"
    and "restart_counter (fsm_step ops Ev_Timer s) = restart_counter s - 1"
  using assms
  by (auto elim!: negotiating_cases
      simp: negotiating_def restart_timer_func_def ppp_fsm_timeout0_def cb_fields)

lemma timer_gives_up:
  assumes "negotiating (fsm_state s)" and "restart_counter s \<le> 0"
  shows "fsm_state (fsm_step ops Ev_Timer s) = FSM_Stopped"
    and "\<not> restart_timer_tpd (fsm_step ops Ev_Timer s)"
  using assms
  by (auto elim!: negotiating_cases
      simp: restart_timer_func_def ppp_fsm_timeout1_def cb_fields stop_timer_def)

lemma unanswered_stops:
  assumes "negotiating (fsm_state s)" and "restart_counter s = int n"
  shows "fsm_state (fsm_run ops (replicate (Suc n) Ev_Timer) s) = FSM_Stopped \<and>
    \<not> restart_timer_tpd (fsm_run ops (replicate (Suc n) Ev_Timer) s)"
  using assms
proof (induction n arbitrary: s)
  case 0
  then show ?case by (simp add: fsm_run_def timer_gives_up del: fsm_step.simps)
next
  case (Suc n)
  from Suc.prems have "restart_counter s > 0" by simp
  note retr = timer_retransmits [OF Suc.prems(1) this]
  have "restart_counter (fsm_step ops Ev_Timer s) = int n"
    using retr(2) Suc.prems(2) by simp
  from Suc.IH [OF retr(1) this] show ?case
    by (simp add: fsm_run_def del: fsm_step.simps)
qed

end

section \<open>Layers with an invariant\<close>

text \<open>
  A layer may call back into the automaton from its own callbacks (a layer that cannot start terminates the session,
  which closes the automaton), so that \<open>fsm_layer\<close> does not hold of it. \<open>fsm_client\<close> asks less: \<open>J\<close> is an invariant of
  the layer, which the fields of the automaton do not matter for; \<open>K\<close> is what sending a Configure-Request
  establishes and nothing takes back. Then \<open>K\<close> holds whenever the automaton has a request under way or is open.
\<close>

definition fsm_running :: "FSM_STATE \<Rightarrow> bool" where
  "fsm_running st \<longleftrightarrow> st = FSM_Req_Sent \<or> st = FSM_Ack_Rcvd \<or> st = FSM_Ack_Sent \<or> st = FSM_Opened"

lemma fsm_running_simps [simp]:
  "fsm_running FSM_Req_Sent" "fsm_running FSM_Ack_Rcvd" "fsm_running FSM_Ack_Sent" "fsm_running FSM_Opened"
  "\<not> fsm_running FSM_Initial" "\<not> fsm_running FSM_Starting" "\<not> fsm_running FSM_Closed" "\<not> fsm_running FSM_Stopped"
  "\<not> fsm_running FSM_Closing" "\<not> fsm_running FSM_Stopping"
  by (simp_all add: fsm_running_def)

definition client_ok :: "('z ppp_fsm_t_scheme \<Rightarrow> bool) \<Rightarrow> ('z ppp_fsm_t_scheme \<Rightarrow> bool) \<Rightarrow> 'z ppp_fsm_t_scheme \<Rightarrow> bool" where
  "client_ok J K s \<longleftrightarrow> J s \<and> (fsm_running (fsm_state s) \<longrightarrow> K s)"

definition client_keeps ::
    "('z ppp_fsm_t_scheme \<Rightarrow> bool) \<Rightarrow> ('z ppp_fsm_t_scheme \<Rightarrow> bool) \<Rightarrow> ('z ppp_fsm_t_scheme \<Rightarrow> 'z ppp_fsm_t_scheme) \<Rightarrow> bool" where
  "client_keeps J K f \<longleftrightarrow> (\<forall>s. client_ok J K s \<longrightarrow> client_ok J K (f s) \<and> (K s \<longrightarrow> K (f s)))"

locale fsm_client =
  fixes ops :: "'z ppp_fsm_t_scheme fsm_ops"
    and J K :: "'z ppp_fsm_t_scheme \<Rightarrow> bool"
  assumes fields: "J (goto st s) = J s" "J (s\<lparr>restart_timer_tpd := b\<rparr>) = J s" "J (s\<lparr>restart_counter := n\<rparr>) = J s"
      "J (s\<lparr>conf_failure := n\<rparr>) = J s" "J (s\<lparr>fsm_id := i\<rparr>) = J s"
      "K (goto st s) = K s" "K (s\<lparr>restart_timer_tpd := b\<rparr>) = K s" "K (s\<lparr>restart_counter := n\<rparr>) = K s"
      "K (s\<lparr>conf_failure := n\<rparr>) = K s" "K (s\<lparr>fsm_id := i\<rparr>) = K s"
    and up: "\<lbrakk>J s; K s\<rbrakk> \<Longrightarrow> J (call_opt (layer_up ops) s) \<and> K (call_opt (layer_up ops) s)"
    and conf_req: "J s \<Longrightarrow> J (do_conf_req ops s) \<and> K (do_conf_req ops s)"
    and calls: "client_keeps J K (call_opt (layer_down ops))" "client_keeps J K (call_opt (layer_started ops))"
      "client_keeps J K (call_opt (layer_finished ops))" "client_keeps J K (call_opt (send_conf_ack ops))"
      "client_keeps J K (call_opt (send_conf_nak ops))" "client_keeps J K (call_opt (send_conf_rej ops))"
      "client_keeps J K (call_opt (send_code_rej ops))" "client_keeps J K (send_term_req ops)"
      "client_keeps J K (send_term_ack ops)"
begin

lemma timer_fields:
  "J (stop_timer s) = J s" "J (start_timer ops s) = J s" "J (init_req_counter ops n s) = J s" "J (zero_req_counter ops s) = J s"
  "K (stop_timer s) = K s" "K (start_timer ops s) = K s" "K (init_req_counter ops n s) = K s" "K (zero_req_counter ops s) = K s"
  "fsm_state (stop_timer s) = fsm_state s" "fsm_state (start_timer ops s) = fsm_state s"
  "fsm_state (init_req_counter ops n s) = fsm_state s" "fsm_state (zero_req_counter ops s) = fsm_state s"
  by (simp_all add: fsm_timer_defs fields)

lemma keepsI:
  assumes "client_keeps J K f" "J s" "fsm_running (fsm_state s) \<longrightarrow> K s"
  shows "J (f s)" "fsm_running (fsm_state (f s)) \<Longrightarrow> K (f s)" "K s \<Longrightarrow> K (f s)"
  using assms by (auto simp: client_keeps_def client_ok_def)

lemmas call_J = calls [THEN keepsI(1)]
lemmas call_R = calls [THEN keepsI(2)]
lemmas call_K = calls [THEN keepsI(3)]

lemma handler_ok:
  assumes "client_ok J K s"
  shows "client_ok J K (fsm_step ops e s)"
proof -
  have J: "J s" and R: "fsm_running (fsm_state s) \<Longrightarrow> K s" using assms by (auto simp: client_ok_def)
  show ?thesis
    using J R
    by (cases e; cases "fsm_state s")
      (auto simp: client_ok_def fsm_handler_defs timer_fields fields up conf_req call_J call_K call_R Let_def case_prod_unfold)
qed

lemma handler_keeps: "client_keeps J K (fsm_step ops e)"
  unfolding client_keeps_def
proof (intro allI impI conjI)
  fix s assume s: "client_ok J K s"
  show "client_ok J K (fsm_step ops e s)" by (rule handler_ok [OF s])
  have J: "J s" and R: "fsm_running (fsm_state s) \<Longrightarrow> K s" using s by (auto simp: client_ok_def)
  show "K (fsm_step ops e s)" if "K s"
    using J R that
    by (cases e; cases "fsm_state s")
      (auto simp: fsm_handler_defs timer_fields fields up conf_req call_J call_K call_R Let_def case_prod_unfold)
qed

end

section \<open>Observing the automaton\<close>

text \<open>
  \<open>fsm_rec\<close> is the smallest layer: its callbacks do nothing but log which of them the
  automaton called. What a handler does to it is the list of actions of that handler.
\<close>

record fsm_rec = ppp_fsm_t +
  fsm_log :: "fsm_action list"

definition log_action :: "fsm_action \<Rightarrow> fsm_rec \<Rightarrow> fsm_rec" where
  "log_action a s = s\<lparr>fsm_log := fsm_log s @ [a]\<rparr>"

definition recorder_ops :: "fsm_rec fsm_ops" where
  "recorder_ops = \<lparr>layer_up = Some (log_action Tlu), layer_down = Some (log_action Tld),
     layer_started = Some (log_action Tls), layer_finished = Some (log_action Tlf),
     send_conf_req = Some (\<lambda>s. (0, log_action Scr s)), send_conf_ack = Some (log_action Sca),
     send_conf_nak = Some (log_action Scn_nak), send_conf_rej = Some (log_action Scn_rej),
     send_code_rej = Some (log_action Scj), send_term_req = log_action Str,
     send_term_ack = log_action Sta, timer_add_ok = True\<rparr>"


text \<open>
  Where it departs in the restart counter: the Terminate-Request of Close is not counted, a Configure-Ack does not
  reset the counter, a Nak or Reject in Req-Sent resets it to Max-Failure, and a rejected code in Opened does not reset it.
\<close>

definition rfc1661_counter_deviation :: "fsm_event \<Rightarrow> FSM_STATE \<Rightarrow> bool" where
  "rfc1661_counter_deviation e st \<longleftrightarrow>
     e = Ev_Close \<and> st \<in> {FSM_Req_Sent, FSM_Ack_Rcvd, FSM_Ack_Sent, FSM_Opened} \<or>
     e = Ev_RCA \<and> st \<in> {FSM_Req_Sent, FSM_Ack_Sent} \<or>
     e = Ev_RCN \<and> st = FSM_Req_Sent \<or> e = Ev_RXJ_bad \<and> st = FSM_Opened"


lemmas recorder_defs = recorder_ops_def log_action_def try_conf_req_def

interpretation recorder: fsm_layer recorder_ops
  by unfold_locales (simp_all add: recorder_defs fsm_keeps_def)




text \<open>What the restart counter is where the code departs from the RFC.\<close>

lemma counter_deviations:
  assumes "\<not> at_limit s" and "rfc1661_counter_deviation e (fsm_state s)"
  shows "restart_counter (fsm_step recorder_ops e s) =
    (case e of Ev_Close \<Rightarrow> max_terminate s | Ev_RCA \<Rightarrow> restart_counter s | Ev_RCN \<Rightarrow> max_failure s - 1 | _ \<Rightarrow> restart_counter s - 1)"
  using assms
  by (cases e; cases "fsm_state s")
    (simp_all add: rfc1661_counter_deviation_def fsm_handler_defs fsm_timer_defs recorder_defs Let_def split_def)

lemma recorder_unanswered_log:
  assumes "fsm_state s = FSM_Req_Sent" and "restart_counter s = int n"
  shows "fsm_log (fsm_run recorder_ops (replicate (Suc n) Ev_Timer) s) =
    fsm_log s @ replicate n Scr @ [Tlf]"
  using assms
proof (induction n arbitrary: s)
  case 0
  then show ?case
    by (simp add: fsm_run_def restart_timer_func_def ppp_fsm_timeout1_def recorder_defs
        stop_timer_def)
next
  case (Suc n)
  let ?t = "fsm_step recorder_ops Ev_Timer s"
  have t: "fsm_state ?t = FSM_Req_Sent" "restart_counter ?t = int n" "fsm_log ?t = fsm_log s @ [Scr]"
    using Suc.prems by (simp_all add: restart_timer_func_def ppp_fsm_timeout0_def recorder_defs)
  from Suc.IH [OF t(1,2)] t(3) show ?case
    by (simp add: fsm_run_def del: fsm_step.simps)
qed

text \<open>
  A renegotiation that starts in the Opened state finds the restart timer off, sends one request
  and leaves the timer off: the request is never retransmitted.
\<close>

lemma opened_renegotiation_no_timer:
  assumes "fsm_state s = FSM_Opened" "\<not> restart_timer_tpd s"
    and "e \<in> {Ev_RCR_ack, Ev_RCR_nak, Ev_RCR_rej, Ev_RCA, Ev_RCN, Ev_RTA}"
  shows "negotiating (fsm_state (fsm_step recorder_ops e s)) \<and>
    \<not> restart_timer_tpd (fsm_step recorder_ops e s)"
  using assms
  by (auto simp: fsm_handler_defs fsm_timer_defs recorder_defs negotiating_def)

text \<open>A stray Terminate-Ack turns the restart timer off in every state.\<close>

lemma term_ack_stops_timer:
  "\<not> restart_timer_tpd (fsm_step recorder_ops Ev_RTA s)"
  by (cases "fsm_state s")
    (simp_all add: ppp_fsm_recv_term_ack_def stop_timer_def recorder_defs)

section \<open>Properties\<close>


definition rec0 :: "FSM_STATE \<Rightarrow> int \<Rightarrow> fsm_rec" where
  "rec0 st n = \<lparr>fsm_state = st, fsm_proto = 0xc021, restart_timer_tpd = False,
     restart_timer_period = 3000, restart_counter = n, max_terminate = 2, max_configure = 10,
     max_failure = 10, conf_failure = 0, fsm_id = 1, recv_id = 0, fsm_log = []\<rparr>"


text \<open>
  C2: A negotiation that the peer never answers ends. Started by Up in the Starting state, the layer sends its
  Configure-Request \<open>max_configure\<close> times in all, one per expiry of the restart timer, and the
  expiry after the last one stops the layer, with one \<open>layer_finished\<close> and the timer off.
\<close>

theorem fsm_unanswered_negotiation:
  assumes "fsm_state s = FSM_Starting" and "max_configure s = int (Suc n)"
  shows "let t = fsm_run recorder_ops (Ev_Up # replicate (Suc n) Ev_Timer) s in
    fsm_state t = FSM_Stopped \<and> \<not> restart_timer_tpd t \<and>
    fsm_log t = fsm_log s @ replicate (Suc n) Scr @ [Tlf]"
proof -
  let ?u = "fsm_step recorder_ops Ev_Up s"
  have u: "fsm_state ?u = FSM_Req_Sent" "restart_counter ?u = int n" "fsm_log ?u = fsm_log s @ [Scr]"
    using assms by (simp_all add: ppp_fsm_lower_up_def fsm_timer_defs recorder_defs)
  have "negotiating (fsm_state ?u)"
    using u(1) by (simp add: negotiating_def)
  with recorder.unanswered_stops [OF this u(2)] recorder_unanswered_log [OF u(1) u(2)] u(3)
  show ?thesis
    by (simp add: fsm_run_def del: fsm_step.simps)
qed

theorem fsm_unanswered_negotiation_witness:
  "fsm_log (fsm_run recorder_ops (Ev_Up # replicate 10 Ev_Timer) (rec0 FSM_Starting 0)) =
     replicate 10 Scr @ [Tlf]"
  using fsm_unanswered_negotiation [of "rec0 FSM_Starting 0" 9]
  by (simp add: rec0_def Let_def)

end
