(* ===== verification/Ppp_Lcp.thy ===== *)
theory Ppp_Lcp
  imports Ppp_Fsm C_String
begin

text \<open>
  The link control protocol of a PPP session: \<open>micro-bngd/ppp/ppp_lcp.c\<close> with its options
  (\<open>lcp_opt_mru.c\<close>, \<open>lcp_opt_magic.c\<close>, \<open>lcp_opt_pcomp.c\<close>, \<open>lcp_opt_accomp.c\<close>, and the
  authentication option of \<open>ppp_auth.c\<close>), on top of the automaton of \<open>Ppp_Fsm\<close>. The calls into the
  rest of the PPP session are the record \<open>ppp_core\<close>.

  A received packet is at the start of a buffer of 8192 bytes, whose other bytes are whatever the memory pool
  left there. \<open>ppp_fault\<close> is no field of the source: it notes that a byte outside the buffer was read, a null
  pointer was followed, or the draw of a magic number did not end with the random numbers given.
\<close>

section \<open>State\<close>

abbreviation (input) LCP_OPT_NONE :: int where "LCP_OPT_NONE \<equiv> 0"
abbreviation (input) LCP_OPT_ACK :: int where "LCP_OPT_ACK \<equiv> 1"
abbreviation (input) LCP_OPT_NAK :: int where "LCP_OPT_NAK \<equiv> -1"
abbreviation (input) LCP_OPT_REJ :: int where "LCP_OPT_REJ \<equiv> -2"
abbreviation (input) LCP_OPT_FAIL :: int where "LCP_OPT_FAIL \<equiv> -3"

record mru_option_t =
  mo_mru :: int
  mo_mtu :: int
  mo_naked :: bool
  mo_rejected :: bool

text \<open>
  An authentication protocol of a session: which handler it belongs to, its number, its state in the negotiation,
  and the number of bytes it adds to the option.
\<close>

datatype auth_handler = Auth_pap | Auth_chap_md5

record auth_data_t =
  ad_h :: auth_handler
  ad_proto :: u16
  ad_state :: int
  ad_len :: int

text \<open>The data of an option; the option for authentication keeps its data in the authentication layer.\<close>

datatype opt_data = Opt_auth | Opt_mru mru_option_t | Opt_magic u32 | Opt_pcomp int | Opt_accomp int

record lcp_option_t =
  lo_id :: u8
  lo_len :: int
  lo_state :: int
  lo_data :: opt_data

record recv_opt_t =
  ro_hdr :: bytes
  ro_state :: int
  ro_known :: bool

text \<open>
  \<open>struct ppp_lcp_t\<close>, and the fields of \<open>struct ppp_t\<close>, of the session and of the option for authentication
  that the protocol reads and writes. \<open>auth_cur\<close> is the pointer to the chosen protocol, as its position in
  the list. \<open>ppp_sent\<close> collects what was handed to the socket.
\<close>

record ppp_lcp_t = ppp_fsm_t +
  lcp_options :: "lcp_option_t list"
  echo_timer_tpd :: bool
  echo_timer_period :: int
  echo_sent :: int
  lcp_magic :: u32
  last_ipackets :: u64
  last_echo_ts :: int
  ropt_list :: "recv_opt_t list"
  ropt_len :: int
  conf_req_len :: int
  lcp_started :: bool
  auth_list :: "auth_data_t list"
  auth_cur :: "nat option"
  ppp_mtu :: int
  ppp_mru :: int
  ppp_comp_prot :: bool
  ppp_comp_ac :: bool
  ses_terminating :: bool
  ppp_buf :: bytes
  ppp_buf_size :: nat
  ppp_sent :: "bytes list"
  ppp_fault :: bool

text \<open>Settings, and the outcomes of calls: random numbers, the flags of the channel, the clock, a counter.\<close>

record lcp_env =
  conf_mtu :: int
  conf_mru :: int
  conf_min_mtu :: int
  conf_max_mtu :: int
  ctrl_max_mtu :: int
  conf_pcomp :: int
  conf_accomp :: int
  conf_noauth :: bool
  conf_echo_interval :: int
  conf_echo_failure :: int
  conf_echo_timeout :: int
  env_random :: "u32 list"
  env_flags_ok :: bool
  env_time :: int
  env_rx_packets :: u64
  env_timer_ok :: bool

datatype term_cause = TERM_USER_REQUEST | TERM_USER_ERROR | TERM_NAS_ERROR | TERM_AUTH_ERROR | TERM_LOST_CARRIER

text \<open>What the protocol calls: \<open>ppp_layer_started\<close>, \<open>ppp_layer_passive\<close>, \<open>ppp_layer_finished\<close>, at once or posted, \<open>ap_session_terminate\<close>, \<open>ppp_recv_proto_rej\<close>.\<close>

datatype net_id = Ccp | Ipcp | Ipv6cp

datatype layer_id = L_lcp | L_auth | L_net net_id

record 's ppp_core =
  core_started :: "layer_id \<Rightarrow> 's \<Rightarrow> 's"
  core_passive :: "layer_id \<Rightarrow> 's \<Rightarrow> 's"
  core_finished :: "layer_id \<Rightarrow> 's \<Rightarrow> 's"
  core_post_finished :: "'s \<Rightarrow> 's"
  core_terminate :: "term_cause \<Rightarrow> bool \<Rightarrow> 's \<Rightarrow> 's"
  core_proto_rej :: "u16 \<Rightarrow> 's \<Rightarrow> 's"

abbreviation fault :: "'z ppp_lcp_t_scheme \<Rightarrow> 'z ppp_lcp_t_scheme" where
  "fault s \<equiv> s\<lparr>ppp_fault := True\<rparr>"

text \<open>\<open>ppp_chan_send\<close> drops what does not fit into an Ethernet frame.\<close>

definition ppp_chan_send :: "bytes \<Rightarrow> 'z ppp_lcp_t_scheme \<Rightarrow> 'z ppp_lcp_t_scheme" where
  "ppp_chan_send data s =
     (if data = [] \<or> length data > 1498 then s else s\<lparr>ppp_sent := ppp_sent s @ [data]\<rparr>)"

text \<open>Sending the first \<open>n\<close> bytes of the buffer.\<close>

definition send_buf :: "nat \<Rightarrow> 'z ppp_lcp_t_scheme \<Rightarrow> 'z ppp_lcp_t_scheme" where
  "send_buf n s =
     (if n \<le> 1498 \<and> n > length (ppp_buf s) then fault s else ppp_chan_send (take n (ppp_buf s)) s)"

section \<open>Options\<close>

datatype opt_kind = K_auth | K_mru | K_magic | K_pcomp | K_accomp

text \<open>Configured strings: a setting that must be positive, and one that falls back to 0 when it is absent.\<close>

definition mru_load_config :: "(string \<Rightarrow> string option) \<Rightarrow> lcp_env \<Rightarrow> lcp_env" where
  "mru_load_config opt env =
     (let num = (\<lambda>name cur. set_pos (map_option atoi (opt name)) cur);
          mru = num ''mru'' (conf_mru env);
          min_mtu = num ''min-mtu'' (conf_min_mtu env)
      in env\<lparr>conf_mtu := num ''mtu'' (conf_mtu env), conf_mru := mru, conf_max_mtu := num ''max-mtu'' (conf_max_mtu env),
           conf_min_mtu := (if mru \<noteq> 0 \<and> min_mtu > mru then mru else min_mtu)\<rparr>)"

definition comp_load :: "string option \<Rightarrow> int \<Rightarrow> int" where
  "comp_load opt cur =
     (case opt of
        None \<Rightarrow> cur
      | Some v \<Rightarrow> if v = ''deny'' then 0 else if v = ''allow'' then 3 else atoi v)"

definition pcomp_load_config :: "(string \<Rightarrow> string option) \<Rightarrow> lcp_env \<Rightarrow> lcp_env" where
  "pcomp_load_config opt env = env\<lparr>conf_pcomp := comp_load (opt ''pcomp'') (conf_pcomp env)\<rparr>"

definition accomp_load_config :: "(string \<Rightarrow> string option) \<Rightarrow> lcp_env \<Rightarrow> lcp_env" where
  "accomp_load_config opt env = env\<lparr>conf_accomp := comp_load (opt ''accomp'') (conf_accomp env)\<rparr>"

definition atoi_or_0 :: "string option \<Rightarrow> int" where
  "atoi_or_0 opt = (case opt of None \<Rightarrow> 0 | Some v \<Rightarrow> atoi v)"

definition lcp_load_config :: "(string \<Rightarrow> string option) \<Rightarrow> lcp_env \<Rightarrow> lcp_env" where
  "lcp_load_config opt env =
     env\<lparr>conf_echo_interval := atoi_or_0 (opt ''lcp-echo-interval''),
         conf_echo_failure := atoi_or_0 (opt ''lcp-echo-failure''),
         conf_echo_timeout := atoi_or_0 (opt ''lcp-echo-timeout'')\<rparr>"

definition auth_load_config :: "(string \<Rightarrow> string option) \<Rightarrow> lcp_env \<Rightarrow> lcp_env" where
  "auth_load_config opt env = env\<lparr>conf_noauth := atoi_or_0 (opt ''noauth'') \<noteq> 0\<rparr>"

subsection \<open>Maximum receive unit\<close>

definition clip_mtu :: "lcp_env \<Rightarrow> int \<Rightarrow> int" where
  "clip_mtu env v =
     (let m = (if v \<noteq> 0 \<and> v \<le> ctrl_max_mtu env then v else ctrl_max_mtu env)
      in if m > conf_max_mtu env then conf_max_mtu env else m)"

definition mru_init :: "lcp_env \<Rightarrow> 'z ppp_lcp_t_scheme \<Rightarrow> lcp_option_t \<times> 'z ppp_lcp_t_scheme" where
  "mru_init env s =
     (let m = \<lparr>mo_mru = clip_mtu env (conf_mru env), mo_mtu = clip_mtu env (conf_mtu env), mo_naked = False, mo_rejected = False\<rparr>
      in (\<lparr>lo_id = 1, lo_len = 4, lo_state = 0, lo_data = Opt_mru m\<rparr>, s\<lparr>ppp_mru := 1500, ppp_mtu := mo_mtu m\<rparr>))"

definition mru_send_conf_req :: "mru_option_t \<Rightarrow> bytes" where
  "mru_send_conf_req m = (if mo_naked m \<or> mo_rejected m then [] else [1, 4] @ put16 (of_int (mo_mru m)))"

definition mru_send_conf_nak :: "mru_option_t \<Rightarrow> bytes" where
  "mru_send_conf_nak m = [1, 4] @ put16 (of_int (mo_mtu m))"

definition mru_recv_conf_req ::
    "lcp_env \<Rightarrow> bytes \<Rightarrow> mru_option_t \<Rightarrow> 'z ppp_lcp_t_scheme \<Rightarrow> int \<times> mru_option_t \<times> 'z ppp_lcp_t_scheme" where
  "mru_recv_conf_req env ptr m s =
     (if length ptr \<noteq> 4 then (LCP_OPT_REJ, m, s)
      else
        (let v = int (unat (rd16 (drop 2 ptr)))
         in if v < conf_min_mtu env \<or> v > ctrl_max_mtu env \<or> v > conf_max_mtu env then (LCP_OPT_NAK, m, s)
            else (LCP_OPT_ACK, m\<lparr>mo_mtu := v\<rparr>, s\<lparr>ppp_mtu := v\<rparr>)))"

definition mru_recv_conf_ack :: "mru_option_t \<Rightarrow> 'z ppp_lcp_t_scheme \<Rightarrow> 'z ppp_lcp_t_scheme" where
  "mru_recv_conf_ack m s = s\<lparr>ppp_mru := mo_mru m\<rparr>"

definition mru_recv_conf_nak :: "mru_option_t \<Rightarrow> mru_option_t" where
  "mru_recv_conf_nak m = m\<lparr>mo_naked := True\<rparr>"

definition mru_recv_conf_rej :: "mru_option_t \<Rightarrow> mru_option_t" where
  "mru_recv_conf_rej m = m\<lparr>mo_rejected := True\<rparr>"

subsection \<open>Magic number\<close>

fun nzmagic :: "u32 list \<Rightarrow> u32 \<Rightarrow> u32 option" where
  "nzmagic [] old = None"
| "nzmagic (r # rs) old = (if r = old \<or> r = 0 then nzmagic rs old else Some r)"

definition magic_init :: "lcp_env \<Rightarrow> 'z ppp_lcp_t_scheme \<Rightarrow> lcp_option_t \<times> 'z ppp_lcp_t_scheme" where
  "magic_init env s =
     (case nzmagic (env_random env) 0 of
        None \<Rightarrow> (\<lparr>lo_id = 5, lo_len = 6, lo_state = 0, lo_data = Opt_magic 0\<rparr>, fault s)
      | Some m \<Rightarrow> (\<lparr>lo_id = 5, lo_len = 6, lo_state = 0, lo_data = Opt_magic m\<rparr>, s\<lparr>lcp_magic := m\<rparr>))"

definition magic_send_conf_req :: "u32 \<Rightarrow> bytes" where
  "magic_send_conf_req m = (if m = 0 then [] else [5, 6] @ put32 m)"

definition magic_send_conf_nak :: "lcp_env \<Rightarrow> u32 \<Rightarrow> 'z ppp_lcp_t_scheme \<Rightarrow> bytes \<times> 'z ppp_lcp_t_scheme" where
  "magic_send_conf_nak env m s =
     (case nzmagic (env_random env) m of None \<Rightarrow> ([], fault s) | Some v \<Rightarrow> ([5, 6] @ put32 v, s))"

definition magic_recv_conf_req :: "bytes \<Rightarrow> u32 \<Rightarrow> int" where
  "magic_recv_conf_req ptr m =
     (if length ptr \<noteq> 6 then LCP_OPT_REJ
      else if m \<noteq> 0 \<and> m = rd32 (drop 2 ptr) then LCP_OPT_NAK
      else LCP_OPT_ACK)"

definition magic_recv_conf_rej :: "'z ppp_lcp_t_scheme \<Rightarrow> u32 \<times> 'z ppp_lcp_t_scheme" where
  "magic_recv_conf_rej s = (0, s\<lparr>lcp_magic := 0\<rparr>)"

definition magic_recv_conf_nak ::
    "lcp_env \<Rightarrow> bytes \<Rightarrow> u32 \<Rightarrow> 'z ppp_lcp_t_scheme \<Rightarrow> int \<times> u32 \<times> 'z ppp_lcp_t_scheme" where
  "magic_recv_conf_nak env ptr m s =
     (if length ptr \<noteq> 6 then (-1, m, s)
      else if m \<noteq> 0 \<and> m = rd32 (drop 2 ptr) then (-1, m, s)
      else
        (case (if rd32 (drop 2 ptr) \<noteq> 0 then Some (rd32 (drop 2 ptr)) else nzmagic (env_random env) m) of
           None \<Rightarrow> (0, m, fault s)
         | Some v \<Rightarrow> (0, v, s\<lparr>lcp_magic := v\<rparr>)))"

subsection \<open>Compression of the protocol field and of the address and control fields\<close>

definition pcomp_init :: "lcp_env \<Rightarrow> lcp_option_t" where
  "pcomp_init env = \<lparr>lo_id = 7, lo_len = 2, lo_state = 0, lo_data = Opt_pcomp (conf_pcomp env)\<rparr>"

definition pcomp_send_conf_req :: "int \<Rightarrow> bytes" where
  "pcomp_send_conf_req p = (if p AND 1 \<noteq> 0 then [7, 2] else [])"

definition pcomp_recv_conf_req :: "bytes \<Rightarrow> int \<Rightarrow> int" where
  "pcomp_recv_conf_req ptr p =
     (if length ptr \<noteq> 2 then LCP_OPT_REJ else if p AND 2 \<noteq> 0 then LCP_OPT_ACK else LCP_OPT_REJ)"

definition pcomp_recv_conf_rej :: "int \<Rightarrow> int" where
  "pcomp_recv_conf_rej p = p AND NOT 1"

definition pcomp_recv_conf_nak :: "bytes \<Rightarrow> int \<Rightarrow> int \<times> int" where
  "pcomp_recv_conf_nak ptr p = (if length ptr \<noteq> 2 then (-1, p) else (0, pcomp_recv_conf_rej p))"

definition pcomp_recv_conf_ack :: "lcp_env \<Rightarrow> int \<Rightarrow> 'z ppp_lcp_t_scheme \<Rightarrow> int \<times> 'z ppp_lcp_t_scheme" where
  "pcomp_recv_conf_ack env p s =
     (if env_flags_ok env then (0, s\<lparr>ppp_comp_prot := p AND 1 \<noteq> 0\<rparr>) else (-1, s))"

definition accomp_init :: "lcp_env \<Rightarrow> lcp_option_t" where
  "accomp_init env = \<lparr>lo_id = 8, lo_len = 2, lo_state = 0, lo_data = Opt_accomp (conf_accomp env)\<rparr>"

definition accomp_send_conf_req :: "int \<Rightarrow> bytes" where
  "accomp_send_conf_req p = (if p AND 1 \<noteq> 0 then [8, 2] else [])"

definition accomp_recv_conf_req :: "bytes \<Rightarrow> int \<Rightarrow> int" where
  "accomp_recv_conf_req ptr p =
     (if length ptr \<noteq> 2 then LCP_OPT_REJ else if p AND 2 \<noteq> 0 then LCP_OPT_ACK else LCP_OPT_REJ)"

definition accomp_recv_conf_rej :: "int \<Rightarrow> int" where
  "accomp_recv_conf_rej p = p AND NOT 1"

definition accomp_recv_conf_nak :: "bytes \<Rightarrow> int \<Rightarrow> int \<times> int" where
  "accomp_recv_conf_nak ptr p = (if length ptr \<noteq> 2 then (-1, p) else (0, accomp_recv_conf_rej p))"

definition accomp_recv_conf_ack :: "lcp_env \<Rightarrow> int \<Rightarrow> 'z ppp_lcp_t_scheme \<Rightarrow> int \<times> 'z ppp_lcp_t_scheme" where
  "accomp_recv_conf_ack env p s =
     (if env_flags_ok env then (0, s\<lparr>ppp_comp_ac := p AND 1 \<noteq> 0\<rparr>) else (-1, s))"

subsection \<open>Authentication protocol\<close>

text \<open>
  \<open>protos\<close> are the registered handlers: \<open>auth_data_init\<close> is their \<open>init\<close> and \<open>auth_conf\<close> their
  \<open>send_conf_req\<close>.
\<close>

fun auth_data_init :: "auth_handler \<Rightarrow> auth_data_t" where
  "auth_data_init Auth_pap = \<lparr>ad_h = Auth_pap, ad_proto = 0xc023, ad_state = 0, ad_len = 0\<rparr>"
| "auth_data_init Auth_chap_md5 = \<lparr>ad_h = Auth_chap_md5, ad_proto = 0xc223, ad_state = 0, ad_len = 1\<rparr>"

fun auth_conf :: "auth_handler \<Rightarrow> bytes" where
  "auth_conf Auth_pap = []"
| "auth_conf Auth_chap_md5 = [5]"

definition auth_init ::
    "lcp_env \<Rightarrow> auth_handler list \<Rightarrow> 'z ppp_lcp_t_scheme \<Rightarrow> lcp_option_t \<times> 'z ppp_lcp_t_scheme" where
  "auth_init env protos s =
     (let ds = (if conf_noauth env then [] else map auth_data_init protos)
      in (\<lparr>lo_id = 3, lo_len = 4 + fold (\<lambda>d m. if m < ad_len d then ad_len d else m) ds 0, lo_state = 0, lo_data = Opt_auth\<rparr>,
          s\<lparr>auth_list := ds\<rparr>))"

text \<open>The first protocol that was not refused becomes the current one; the pointer may be null.\<close>

definition auth_pick :: "auth_data_t list \<Rightarrow> nat option" where
  "auth_pick ds = find (\<lambda>i. ad_state (ds ! i) \<noteq> LCP_OPT_NAK \<and> ad_state (ds ! i) \<noteq> LCP_OPT_REJ) [0..<length ds]"

definition auth_send_conf_req :: "lcp_env \<Rightarrow> 'z ppp_lcp_t_scheme \<Rightarrow> bytes \<times> 'z ppp_lcp_t_scheme" where
  "auth_send_conf_req env s =
     (if auth_list s = [] \<or> conf_noauth env then ([], s)
      else
        (let repick = (case auth_cur s of None \<Rightarrow> True | Some i \<Rightarrow> ad_state (auth_list s ! i) = LCP_OPT_NAK);
             cur = (if repick then (case auth_pick (auth_list s) of None \<Rightarrow> auth_cur s | Some i \<Rightarrow> Some i) else auth_cur s)
         in case cur of
              None \<Rightarrow> ([], fault s)
            | Some i \<Rightarrow>
                (let d = auth_list s ! i; bs = auth_conf (ad_h d)
                 in ([3, of_nat (4 + length bs)] @ put16 (ad_proto d) @ bs, s\<lparr>auth_cur := cur\<rparr>))))"

definition auth_recv_conf_nak :: "'z ppp_lcp_t_scheme \<Rightarrow> int \<times> 'z ppp_lcp_t_scheme" where
  "auth_recv_conf_nak s =
     (case auth_cur s of
        None \<Rightarrow> (-1, s)
      | Some i \<Rightarrow>
          (let ds = (auth_list s)[i := (auth_list s ! i)\<lparr>ad_state := LCP_OPT_NAK\<rparr>]
           in (if \<exists>d \<in> set ds. ad_state d \<noteq> LCP_OPT_NAK then 0 else -1, s\<lparr>auth_list := ds\<rparr>)))"

definition auth_recv_conf_rej :: "'z ppp_lcp_t_scheme \<Rightarrow> int \<times> 'z ppp_lcp_t_scheme" where
  "auth_recv_conf_rej s =
     (case auth_cur s of
        None \<Rightarrow> (-1, s)
      | Some i \<Rightarrow>
          (let ds = (auth_list s)[i := (auth_list s ! i)\<lparr>ad_state := LCP_OPT_NAK\<rparr>]
           in (if \<exists>d \<in> set ds. ad_state d \<noteq> LCP_OPT_NAK then 0 else -1, s\<lparr>auth_list := ds\<rparr>)))"

subsection \<open>The handlers by option\<close>

text \<open>
  The tables of function pointers of the options, in the order of the source. \<open>ptr\<close> is the received option with its
  header; an option of length 1 has no length byte of its own. Only the maximum receive unit and the magic number
  and the authentication protocol have a handler for sending a Nak.
\<close>

fun opt_init ::
    "lcp_env \<Rightarrow> auth_handler list \<Rightarrow> opt_kind \<Rightarrow> 'z ppp_lcp_t_scheme \<Rightarrow> lcp_option_t \<times> 'z ppp_lcp_t_scheme" where
  "opt_init env protos K_auth s = auth_init env protos s"
| "opt_init env protos K_mru s = mru_init env s"
| "opt_init env protos K_magic s = magic_init env s"
| "opt_init env protos K_pcomp s = (pcomp_init env, s)"
| "opt_init env protos K_accomp s = (accomp_init env, s)"

definition opt_send_conf_req ::
    "lcp_env \<Rightarrow> lcp_option_t \<Rightarrow> 'z ppp_lcp_t_scheme \<Rightarrow> bytes \<times> 'z ppp_lcp_t_scheme" where
  "opt_send_conf_req env lopt s =
     (case lo_data lopt of
        Opt_auth \<Rightarrow> auth_send_conf_req env s
      | Opt_mru m \<Rightarrow> (mru_send_conf_req m, s)
      | Opt_magic m \<Rightarrow> (magic_send_conf_req m, s)
      | Opt_pcomp p \<Rightarrow> (pcomp_send_conf_req p, s)
      | Opt_accomp p \<Rightarrow> (accomp_send_conf_req p, s))"

definition opt_send_conf_nak ::
    "lcp_env \<Rightarrow> lcp_option_t \<Rightarrow> 'z ppp_lcp_t_scheme \<Rightarrow> bytes \<times> 'z ppp_lcp_t_scheme" where
  "opt_send_conf_nak env lopt s =
     (case lo_data lopt of
        Opt_auth \<Rightarrow> auth_send_conf_req env s
      | Opt_mru m \<Rightarrow> (mru_send_conf_nak m, s)
      | Opt_magic m \<Rightarrow> magic_send_conf_nak env m s
      | _ \<Rightarrow> ([], fault s))"

type_synonym 's opt_handler = "lcp_option_t \<Rightarrow> 's \<Rightarrow> int \<times> lcp_option_t \<times> 's"

definition opt_recv_conf_req :: "lcp_env \<Rightarrow> bytes \<Rightarrow> 'z ppp_lcp_t_scheme opt_handler" where
  "opt_recv_conf_req env ptr lopt s =
     (case lo_data lopt of
        Opt_auth \<Rightarrow> (LCP_OPT_REJ, lopt, s)
      | Opt_mru m \<Rightarrow> (let (r, m', s') = mru_recv_conf_req env ptr m s in (r, lopt\<lparr>lo_data := Opt_mru m'\<rparr>, s'))
      | Opt_magic m \<Rightarrow> (magic_recv_conf_req ptr m, lopt, s)
      | Opt_pcomp p \<Rightarrow> (pcomp_recv_conf_req ptr p, lopt, s)
      | Opt_accomp p \<Rightarrow> (accomp_recv_conf_req ptr p, lopt, s))"

definition opt_recv_conf_rej :: "lcp_env \<Rightarrow> bytes \<Rightarrow> 'z ppp_lcp_t_scheme opt_handler" where
  "opt_recv_conf_rej env ptr lopt s =
     (case lo_data lopt of
        Opt_auth \<Rightarrow> (let (r, s') = auth_recv_conf_rej s in (r, lopt, s'))
      | Opt_mru m \<Rightarrow> (0, lopt\<lparr>lo_data := Opt_mru (mru_recv_conf_rej m)\<rparr>, s)
      | Opt_magic m \<Rightarrow> (let (m', s') = magic_recv_conf_rej s in (0, lopt\<lparr>lo_data := Opt_magic m'\<rparr>, s'))
      | Opt_pcomp p \<Rightarrow> (0, lopt\<lparr>lo_data := Opt_pcomp (pcomp_recv_conf_rej p)\<rparr>, s)
      | Opt_accomp p \<Rightarrow> (0, lopt\<lparr>lo_data := Opt_accomp (accomp_recv_conf_rej p)\<rparr>, s))"

definition opt_recv_conf_nak :: "lcp_env \<Rightarrow> bytes \<Rightarrow> 'z ppp_lcp_t_scheme opt_handler" where
  "opt_recv_conf_nak env ptr lopt s =
     (case lo_data lopt of
        Opt_auth \<Rightarrow> (let (r, s') = auth_recv_conf_nak s in (r, lopt, s'))
      | Opt_mru m \<Rightarrow> (0, lopt\<lparr>lo_data := Opt_mru (mru_recv_conf_nak m)\<rparr>, s)
      | Opt_magic m \<Rightarrow> (let (r, m', s') = magic_recv_conf_nak env ptr m s in (r, lopt\<lparr>lo_data := Opt_magic m'\<rparr>, s'))
      | Opt_pcomp p \<Rightarrow> (let (r, p') = pcomp_recv_conf_nak ptr p in (r, lopt\<lparr>lo_data := Opt_pcomp p'\<rparr>, s))
      | Opt_accomp p \<Rightarrow> (let (r, p') = accomp_recv_conf_nak ptr p in (r, lopt\<lparr>lo_data := Opt_accomp p'\<rparr>, s)))"

definition opt_recv_conf_ack :: "lcp_env \<Rightarrow> bytes \<Rightarrow> 'z ppp_lcp_t_scheme opt_handler" where
  "opt_recv_conf_ack env ptr lopt s =
     (case lo_data lopt of
        Opt_auth \<Rightarrow> (0, lopt, s)
      | Opt_mru m \<Rightarrow> (0, lopt, mru_recv_conf_ack m s)
      | Opt_magic m \<Rightarrow> (0, lopt, s)
      | Opt_pcomp p \<Rightarrow> (let (r, s') = pcomp_recv_conf_ack env p s in (r, lopt, s'))
      | Opt_accomp p \<Rightarrow> (let (r, s') = accomp_recv_conf_ack env p s in (r, lopt, s')))"

section \<open>Packets\<close>

definition lcp_options_init ::
    "lcp_env \<Rightarrow> auth_handler list \<Rightarrow> opt_kind list \<Rightarrow> 'z ppp_lcp_t_scheme \<Rightarrow> 'z ppp_lcp_t_scheme" where
  "lcp_options_init env protos handlers s =
     fold (\<lambda>k s. let (lopt, s') = opt_init env protos k s
                 in s'\<lparr>lcp_options := lcp_options s' @ [lopt], conf_req_len := conf_req_len s' + lo_len lopt\<rparr>)
       handlers (s\<lparr>lcp_options := [], conf_req_len := 6\<rparr>)"

definition lcp_hdr :: "u8 \<Rightarrow> u8 \<Rightarrow> nat \<Rightarrow> bytes" where
  "lcp_hdr code i len = put16 0xc021 @ [code, i] @ put16 (of_nat len)"

text \<open>
  The buffer of a Configure-Request has \<open>conf_req_len\<close> bytes, and the handlers of the options write where
  \<open>ptr\<close> stands; writing past its end is a fault.
\<close>

fun opts_write ::
    "(lcp_option_t \<Rightarrow> 's \<Rightarrow> bytes \<times> 's) \<Rightarrow> lcp_option_t list \<Rightarrow> 's \<Rightarrow> bytes \<times> 's" where
  "opts_write f [] s = ([], s)"
| "opts_write f (lopt # ls) s = (let (bs, s1) = f lopt s; (cs, s2) = opts_write f ls s1 in (bs @ cs, s2))"

definition lcp_send_conf_req :: "lcp_env \<Rightarrow> 'z ppp_lcp_t_scheme \<Rightarrow> int \<times> 'z ppp_lcp_t_scheme" where
  "lcp_send_conf_req env s =
     (let (bs, s1) = opts_write (opt_send_conf_req env) (lcp_options s) s
      in if int (6 + length bs) > conf_req_len s then (0, fault s1)
         else (0, ppp_chan_send (lcp_hdr 1 (fsm_id s) (4 + length bs) @ bs) s1))"

text \<open>Answers that are made in the received packet itself: only the code is replaced.\<close>

definition set_code :: "u8 \<Rightarrow> 'z ppp_lcp_t_scheme \<Rightarrow> 'z ppp_lcp_t_scheme" where
  "set_code c s = s\<lparr>ppp_buf := (ppp_buf s)[2 := c]\<rparr>"

abbreviation hdr_code :: "'z ppp_lcp_t_scheme \<Rightarrow> u8" where "hdr_code s \<equiv> ppp_buf s ! 2"
abbreviation hdr_id :: "'z ppp_lcp_t_scheme \<Rightarrow> u8" where "hdr_id s \<equiv> ppp_buf s ! 3"
abbreviation hdr_len :: "'z ppp_lcp_t_scheme \<Rightarrow> nat" where "hdr_len s \<equiv> unat (rd16 (drop 4 (ppp_buf s)))"

definition lcp_send_conf_ack :: "'z ppp_lcp_t_scheme \<Rightarrow> 'z ppp_lcp_t_scheme" where
  "lcp_send_conf_ack s = send_buf (hdr_len s + 2) (set_code 2 s)"

definition lcp_send_code_rej :: "'z ppp_lcp_t_scheme \<Rightarrow> 'z ppp_lcp_t_scheme" where
  "lcp_send_code_rej s = send_buf (hdr_len s + 2) (set_code 7 s)"

definition lcp_send_conf_nak :: "lcp_env \<Rightarrow> 'z ppp_lcp_t_scheme \<Rightarrow> 'z ppp_lcp_t_scheme" where
  "lcp_send_conf_nak env s =
     (let (bs, s1) = opts_write (\<lambda>lopt s. if lo_state lopt = LCP_OPT_NAK then opt_send_conf_nak env lopt s else ([], s))
                       (lcp_options s) s
      in if int (6 + length bs) > conf_req_len s then fault s1
         else ppp_chan_send (lcp_hdr 3 (recv_id s) (4 + length bs) @ bs) s1)"

definition lcp_send_conf_rej :: "'z ppp_lcp_t_scheme \<Rightarrow> 'z ppp_lcp_t_scheme" where
  "lcp_send_conf_rej s =
     (let bs = concat (map ro_hdr (filter (\<lambda>ro. ro_state ro = LCP_OPT_REJ) (ropt_list s)))
      in if int (length bs) > ropt_len s then fault s
         else ppp_chan_send (lcp_hdr 4 (recv_id s) (4 + length bs) @ bs) s)"

definition lcp_send_term_req :: "'z ppp_lcp_t_scheme \<Rightarrow> 'z ppp_lcp_t_scheme" where
  "lcp_send_term_req s = ppp_chan_send (lcp_hdr 5 (fsm_id s + 1) 4) (s\<lparr>fsm_id := fsm_id s + 1\<rparr>)"

definition lcp_send_term_ack :: "'z ppp_lcp_t_scheme \<Rightarrow> 'z ppp_lcp_t_scheme" where
  "lcp_send_term_ack s = ppp_chan_send (lcp_hdr 6 (recv_id s) 4) s"

definition lcp_send_proto_rej :: "u16 \<Rightarrow> 'z ppp_lcp_t_scheme \<Rightarrow> 'z ppp_lcp_t_scheme" where
  "lcp_send_proto_rej proto s =
     ppp_chan_send (lcp_hdr 8 (fsm_id s + 1) 6 @ put16 proto) (s\<lparr>fsm_id := fsm_id s + 1\<rparr>)"

text \<open>
  The options of a received packet, as the loops over \<open>hdr->len\<close> cut them, and whether a loop ran over the end
  of the buffer.
\<close>

function opts_walk :: "nat \<Rightarrow> bytes \<Rightarrow> bytes list \<times> bool" where
  "opts_walk sz data =
     (if sz = 0 then ([], False)
      else
        (case data of
           i # l # _ \<Rightarrow>
             if l = 0 \<or> unat l > sz then ([], False)
             else if unat l > length data then ([], True)
             else (let (os, f) = opts_walk (sz - unat l) (drop (unat l) data) in (take (unat l) data # os, f))
         | _ \<Rightarrow> ([], True)))"
  by auto
termination
  by (relation "measure fst") (auto simp: unat_gt_0)

declare opts_walk.simps [simp del]

text \<open>The first option with the id of the received one is the one that handles it.\<close>

fun with_opt :: "'s opt_handler \<Rightarrow> u8 \<Rightarrow> lcp_option_t list \<Rightarrow> 's \<Rightarrow> int option \<times> lcp_option_t list \<times> 's" where
  "with_opt h i [] s = (None, [], s)"
| "with_opt h i (lopt # ls) s =
     (if lo_id lopt = i then (let (r, lopt', s') = h lopt s in (Some r, lopt' # ls, s'))
      else (let (r, ls', s') = with_opt h i ls s in (r, lopt # ls', s')))"

definition call_option :: "'z ppp_lcp_t_scheme opt_handler \<Rightarrow> u8 \<Rightarrow> 'z ppp_lcp_t_scheme \<Rightarrow> int option \<times> 'z ppp_lcp_t_scheme" where
  "call_option h i s = (let (r, ls, s') = with_opt h i (lcp_options s) s in (r, s'\<lparr>lcp_options := ls\<rparr>))"

fun conf_req_loop ::
    "lcp_env \<Rightarrow> recv_opt_t list \<Rightarrow> int \<Rightarrow> 'z ppp_lcp_t_scheme \<Rightarrow> recv_opt_t list \<times> int \<times> 'z ppp_lcp_t_scheme" where
  "conf_req_loop env [] ret s = ([], ret, s)"
| "conf_req_loop env (ro # ros) ret s =
     (let (r, s1) = call_option (\<lambda>lopt s. let (r, lopt', s') = opt_recv_conf_req env (ro_hdr ro) lopt s
                                         in (r, lopt'\<lparr>lo_state := r\<rparr>, s')) (hd (ro_hdr ro)) s;
          (ro', ret') = (case r of
                           Some r \<Rightarrow> (ro\<lparr>ro_state := r, ro_known := True\<rparr>, if r < ret then r else ret)
                         | None \<Rightarrow> if ro_known ro then (ro, ret) else (ro\<lparr>ro_state := LCP_OPT_REJ\<rparr>, LCP_OPT_REJ));
          (ros', ret'', s2) = conf_req_loop env ros ret' s1
      in (ro' # ros', ret'', s2))"

definition lcp_recv_conf_req :: "lcp_env \<Rightarrow> bytes \<Rightarrow> nat \<Rightarrow> 'z ppp_lcp_t_scheme \<Rightarrow> int \<times> 'z ppp_lcp_t_scheme" where
  "lcp_recv_conf_req env data sz s =
     (let (os, f) = opts_walk sz data;
          ros = ropt_list s @ map (\<lambda>bs. \<lparr>ro_hdr = bs, ro_state = LCP_OPT_NONE, ro_known = False\<rparr>) os;
          s1 = s\<lparr>ropt_len := int sz, ppp_fault := ppp_fault s \<or> f,
                lcp_options := map (\<lambda>lopt. lopt\<lparr>lo_state := LCP_OPT_NONE\<rparr>) (lcp_options s)\<rparr>;
          (ros', ret, s2) = conf_req_loop env ros 1 s1
      in (ret, s2\<lparr>ropt_list := ros'\<rparr>))"

definition lcp_free_conf_req :: "'z ppp_lcp_t_scheme \<Rightarrow> 'z ppp_lcp_t_scheme" where
  "lcp_free_conf_req s = s\<lparr>ropt_list := []\<rparr>"

text \<open>The loops over the options of an answer differ in the handler they call.\<close>

fun answer_loop :: "(bytes \<Rightarrow> 'z ppp_lcp_t_scheme opt_handler) \<Rightarrow> bytes list \<Rightarrow> int \<Rightarrow> 'z ppp_lcp_t_scheme \<Rightarrow> int \<times> 'z ppp_lcp_t_scheme" where
  "answer_loop h [] res s = (res, s)"
| "answer_loop h (ptr # ptrs) res s =
     (let (r, s1) = call_option (h ptr) (hd ptr) s
      in answer_loop h ptrs (case r of Some r \<Rightarrow> if r \<noteq> 0 then -1 else res | None \<Rightarrow> res) s1)"

definition recv_answer :: "(bytes \<Rightarrow> 'z ppp_lcp_t_scheme opt_handler) \<Rightarrow> bytes \<Rightarrow> nat \<Rightarrow> 'z ppp_lcp_t_scheme \<Rightarrow> int \<times> 'z ppp_lcp_t_scheme" where
  "recv_answer h data sz s =
     (if recv_id s \<noteq> fsm_id s then (0, s)
      else (let (os, f) = opts_walk sz data in answer_loop h os 0 (s\<lparr>ppp_fault := ppp_fault s \<or> f\<rparr>)))"

definition lcp_recv_conf_rej :: "lcp_env \<Rightarrow> bytes \<Rightarrow> nat \<Rightarrow> 'z ppp_lcp_t_scheme \<Rightarrow> int \<times> 'z ppp_lcp_t_scheme" where
  "lcp_recv_conf_rej env data sz s = recv_answer (opt_recv_conf_rej env) data sz s"

definition lcp_recv_conf_nak :: "lcp_env \<Rightarrow> bytes \<Rightarrow> nat \<Rightarrow> 'z ppp_lcp_t_scheme \<Rightarrow> int \<times> 'z ppp_lcp_t_scheme" where
  "lcp_recv_conf_nak env data sz s = recv_answer (opt_recv_conf_nak env) data sz s"

definition lcp_recv_conf_ack :: "lcp_env \<Rightarrow> bytes \<Rightarrow> nat \<Rightarrow> 'z ppp_lcp_t_scheme \<Rightarrow> int \<times> 'z ppp_lcp_t_scheme" where
  "lcp_recv_conf_ack env data sz s = recv_answer (opt_recv_conf_ack env) data sz s"

section \<open>Echo\<close>

definition lcp_recv_echo_repl ::
    "'z ppp_lcp_t_scheme ppp_core \<Rightarrow> lcp_env \<Rightarrow> bytes \<Rightarrow> nat \<Rightarrow> 'z ppp_lcp_t_scheme \<Rightarrow> 'z ppp_lcp_t_scheme" where
  "lcp_recv_echo_repl core env data sz s =
     (let s1 = (if sz = 4 \<and> lcp_magic s \<noteq> 0 \<and> rd32 data = lcp_magic s then core_terminate core TERM_NAS_ERROR False s else s)
      in s1\<lparr>echo_sent := 0, last_echo_ts := env_time env\<rparr>)"

definition send_echo_reply :: "lcp_env \<Rightarrow> 'z ppp_lcp_t_scheme \<Rightarrow> 'z ppp_lcp_t_scheme" where
  "send_echo_reply env s =
     (let s1 = set_code 10 (s\<lparr>echo_sent := 0, last_echo_ts := env_time env\<rparr>);
          s2 = s1\<lparr>ppp_buf := mem_put (ppp_buf s1) 6 (put32 (lcp_magic s1))\<rparr>
      in send_buf (nat (min (int (hdr_len s2)) (ppp_mtu s2) + 2)) s2)"

definition send_echo_request ::
    "'z ppp_lcp_t_scheme ppp_core \<Rightarrow> lcp_env \<Rightarrow> 'z ppp_lcp_t_scheme \<Rightarrow> 'z ppp_lcp_t_scheme" where
  "send_echo_request core env s =
     (if conf_echo_timeout env \<noteq> 0 \<and> last_ipackets s \<noteq> env_rx_packets env then
        s\<lparr>last_ipackets := env_rx_packets env, last_echo_ts := env_time env, echo_sent := 0\<rparr>
      else if conf_echo_timeout env \<noteq> 0 \<and> env_time env - last_echo_ts s < conf_echo_timeout env then s
      else if echo_sent s > conf_echo_failure env then core_terminate core TERM_LOST_CARRIER True s
      else
        ppp_chan_send (lcp_hdr 9 (fsm_id s) 8 @ put32 (lcp_magic s))
          (s\<lparr>fsm_id := fsm_id s + 1, echo_sent := echo_sent s + 1\<rparr>))"

definition start_echo :: "lcp_env \<Rightarrow> 'z ppp_lcp_t_scheme \<Rightarrow> 'z ppp_lcp_t_scheme" where
  "start_echo env s =
     (let s1 = s\<lparr>echo_timer_period := conf_echo_interval env * 1000\<rparr>
      in if echo_timer_period s1 \<noteq> 0 \<and> \<not> echo_timer_tpd s1 then s1\<lparr>echo_timer_tpd := env_timer_ok env\<rparr> else s1)"

definition stop_echo :: "'z ppp_lcp_t_scheme \<Rightarrow> 'z ppp_lcp_t_scheme" where
  "stop_echo s = (if echo_timer_tpd s then s\<lparr>echo_timer_tpd := False\<rparr> else s)"

section \<open>The layer\<close>

definition lcp_layer_up ::
    "'z ppp_lcp_t_scheme ppp_core \<Rightarrow> lcp_env \<Rightarrow> 'z ppp_lcp_t_scheme \<Rightarrow> 'z ppp_lcp_t_scheme" where
  "lcp_layer_up core env s =
     start_echo env (if \<not> lcp_started s then core_started core L_lcp (s\<lparr>lcp_started := True\<rparr>) else s)"

definition lcp_layer_down :: "'z ppp_lcp_t_scheme \<Rightarrow> 'z ppp_lcp_t_scheme" where
  "lcp_layer_down s = s"

definition lcp_layer_finished :: "'z ppp_lcp_t_scheme ppp_core \<Rightarrow> 'z ppp_lcp_t_scheme \<Rightarrow> 'z ppp_lcp_t_scheme" where
  "lcp_layer_finished core s0 =
     (let s = stop_echo s0
      in if lcp_started s then
           (let s1 = s\<lparr>lcp_started := False\<rparr>
            in if ses_terminating s1 then core_finished core L_lcp s1 else core_terminate core TERM_NAS_ERROR False s1)
         else core_terminate core TERM_NAS_ERROR False s)"

definition lcp_ops :: "'z ppp_lcp_t_scheme ppp_core \<Rightarrow> lcp_env \<Rightarrow> 'z ppp_lcp_t_scheme fsm_ops" where
  "lcp_ops core env =
     \<lparr>layer_up = Some (lcp_layer_up core env), layer_down = Some lcp_layer_down, layer_started = None,
      layer_finished = Some (lcp_layer_finished core), send_conf_req = Some (lcp_send_conf_req env),
      send_conf_ack = Some lcp_send_conf_ack, send_conf_nak = Some (lcp_send_conf_nak env),
      send_conf_rej = Some lcp_send_conf_rej, send_code_rej = Some lcp_send_code_rej,
      send_term_req = lcp_send_term_req, send_term_ack = lcp_send_term_ack, timer_add_ok = env_timer_ok env\<rparr>"

definition lcp_layer_start ::
    "'z ppp_lcp_t_scheme ppp_core \<Rightarrow> lcp_env \<Rightarrow> auth_handler list \<Rightarrow> opt_kind list \<Rightarrow> 'z ppp_lcp_t_scheme \<Rightarrow> int \<times> 'z ppp_lcp_t_scheme" where
  "lcp_layer_start core env protos handlers s =
     (let s1 = lcp_options_init env protos handlers s;
          s2 = snd (ppp_fsm_lower_up (lcp_ops core env) s1);
          (r, s3) = ppp_fsm_open (lcp_ops core env) s2
      in (if r \<noteq> 0 then -1 else 0, s3))"

text \<open>A layer that never came up posts its end to the session's context instead of closing the automaton.\<close>

definition lcp_layer_finish ::
    "'z ppp_lcp_t_scheme ppp_core \<Rightarrow> lcp_env \<Rightarrow> 'z ppp_lcp_t_scheme \<Rightarrow> 'z ppp_lcp_t_scheme" where
  "lcp_layer_finish core env s =
     (if lcp_started s then ppp_fsm_close (lcp_ops core env) (stop_echo s) else core_post_finished core s)"

definition is_answer :: "u8 \<Rightarrow> bool" where
  "is_answer c \<longleftrightarrow> c = 2 \<or> c = 3 \<or> c = 4"

definition lcp_conf_req_packet ::
    "'z ppp_lcp_t_scheme ppp_core \<Rightarrow> lcp_env \<Rightarrow> 'z ppp_lcp_t_scheme \<Rightarrow> 'z ppp_lcp_t_scheme" where
  "lcp_conf_req_packet core env s =
     (let ops = lcp_ops core env;
          (r0, s1) = lcp_recv_conf_req env (drop 6 (ppp_buf s)) (hdr_len s - 4) s
      in if lcp_started s1 \<and> r0 = LCP_OPT_ACK then lcp_free_conf_req (lcp_send_conf_ack s1)
         else
           (let r = (if lcp_started s1 then LCP_OPT_FAIL else r0);
                s2 = (if r = LCP_OPT_ACK then ppp_fsm_recv_conf_req_ack ops s1
                      else if r = LCP_OPT_NAK then ppp_fsm_recv_conf_req_nak ops s1
                      else if r = LCP_OPT_REJ then ppp_fsm_recv_conf_req_rej ops s1
                      else s1);
                s3 = lcp_free_conf_req s2
            in if r = LCP_OPT_FAIL then core_terminate core TERM_USER_ERROR False s3 else s3))"

definition lcp_recv :: "'z ppp_lcp_t_scheme ppp_core \<Rightarrow> lcp_env \<Rightarrow> 'z ppp_lcp_t_scheme \<Rightarrow> 'z ppp_lcp_t_scheme" where
  "lcp_recv core env s0 =
     (let code = hdr_code s0; ops = lcp_ops core env; data = drop 6 (ppp_buf s0); sz = hdr_len s0 - 4
      in if ppp_buf_size s0 < 6 then s0
         else if hdr_len s0 < 4 then s0
         else if is_answer code \<and> hdr_id s0 \<noteq> fsm_id s0 then s0
         else if is_answer code \<and> lcp_started s0 then s0
         else if fsm_state s0 = FSM_Initial \<or> fsm_state s0 = FSM_Closed \<or>
                 ses_terminating s0 \<and> code \<noteq> 6 \<and> code \<noteq> 5 then s0
         else
           (let s = s0\<lparr>recv_id := hdr_id s0\<rparr>
            in if code = 1 then lcp_conf_req_packet core env s
               else if code = 2 then
                 (let (r, s1) = lcp_recv_conf_ack env data sz s
                  in if r \<noteq> 0 then core_terminate core TERM_USER_ERROR False s1
                     else if recv_id s1 \<noteq> fsm_id s1 then s1
                     else ppp_fsm_recv_conf_ack ops s1)
               else if code = 3 then
                 (let (r, s1) = lcp_recv_conf_nak env data sz s
                  in if recv_id s1 \<noteq> fsm_id s1 then s1 else ppp_fsm_recv_conf_rej ops s1)
               else if code = 4 then
                 (let (r, s1) = lcp_recv_conf_rej env data sz s
                  in if r \<noteq> 0 then core_terminate core TERM_USER_ERROR False s1
                     else if recv_id s1 \<noteq> fsm_id s1 then s1
                     else ppp_fsm_recv_conf_rej ops s1)
               else if code = 5 then core_terminate core TERM_USER_REQUEST False (ppp_fsm_recv_term_req ops s)
               else if code = 6 then ppp_fsm_recv_term_ack ops s
               else if code = 7 then ppp_fsm_recv_code_rej_bad ops s
               else if code = 9 then send_echo_reply env s
               else if code = 10 then lcp_recv_echo_repl core env data sz s
               else if code = 8 then core_proto_rej core (rd16 data) s
               else if code = 11 \<or> code = 12 then s
               else ppp_fsm_recv_unk ops s))"

end
