(* ===== verification/Ppp_Lcp_Correct.thy ===== *)
theory Ppp_Lcp_Correct
  imports Ppp_Lcp
begin

text \<open>
  What the link control protocol does with the packets of its peer: the loops over the options of a packet, the
  answer to a Configure-Request, and the invariant \<open>lcp_wf\<close> that keeps every packet it builds within its buffer.
\<close>

section \<open>The options of a packet\<close>

lemma opts_walk_0 [simp]: "opts_walk 0 data = ([], False)"
  by (simp add: opts_walk.simps)

lemma opts_walk_Cons:
  assumes "0 < sz" "l \<noteq> 0" "unat l \<le> sz" "unat l \<le> length (i # l # data)"
  shows "opts_walk sz (i # l # data) =
    (let (os, f) = opts_walk (sz - unat l) (drop (unat l) (i # l # data)) in (take (unat l) (i # l # data) # os, f))"
  using assms by (subst opts_walk.simps) simp

text \<open>The loop cuts a prefix of the packet into options, none of them empty.\<close>

lemma opts_walk_cuts:
  "(\<exists>rest. take sz data = concat (fst (opts_walk sz data)) @ rest) \<and> [] \<notin> set (fst (opts_walk sz data))"
proof (induction sz data rule: opts_walk.induct)
  case (1 sz data)
  show ?case
  proof (cases "\<exists>i l r. sz \<noteq> 0 \<and> data = i # l # r \<and> l \<noteq> 0 \<and> unat l \<le> sz \<and> unat l \<le> length data")
    case False
    then have "fst (opts_walk sz data) = []"
      by (subst opts_walk.simps) (auto split: list.split)
    then show ?thesis by simp
  next
    case True
    then obtain i l r where d: "sz \<noteq> 0" "data = i # l # r" "l \<noteq> 0" "unat l \<le> sz" "unat l \<le> length data" by blast
    then have l: "\<not> (l = 0 \<or> sz < unat l)" "\<not> length data < unat l" "0 < unat l" by (auto simp: unat_gt_0)
    let ?w = "opts_walk (sz - unat l) (drop (unat l) data)"
    from "1.IH" [OF d(1,2) refl l(1,2)]
    obtain rest where ih: "take (sz - unat l) (drop (unat l) data) = concat (fst ?w) @ rest" "[] \<notin> set (fst ?w)" by blast
    have w: "fst (opts_walk sz data) = take (unat l) data # fst ?w"
      using d by (subst opts_walk.simps) (simp add: case_prod_unfold Let_def)
    have "take sz data = take (unat l) data @ take (sz - unat l) (drop (unat l) data)"
      using d(4) by (metis le_add_diff_inverse take_add)
    then have "take sz data = concat (fst (opts_walk sz data)) @ rest" by (simp add: w ih(1))
    moreover have "take (unat l) data \<noteq> []" using l(3) d(2) by simp
    ultimately show ?thesis using ih(2) by (auto simp: w)
  qed
qed

lemma opts_walk_length: "length (concat (fst (opts_walk sz data))) \<le> sz"
proof -
  obtain rest where "take sz data = concat (fst (opts_walk sz data)) @ rest" using opts_walk_cuts by blast
  then have "length (concat (fst (opts_walk sz data))) \<le> length (take sz data)" by simp
  then show ?thesis by simp
qed

lemma opts_walk_in_buffer: "sz < length data \<Longrightarrow> \<not> snd (opts_walk sz data)"
proof (induction sz data rule: opts_walk.induct)
  case (1 sz data)
  show ?case
  proof (cases "sz = 0")
    case False
    then obtain i l r where d: "data = i # l # r" using "1.prems" by (cases data; cases "tl data") auto
    show ?thesis
    proof (cases "l = 0 \<or> sz < unat l")
      case True
      then show ?thesis using False d by (subst opts_walk.simps) auto
    next
      case l: False
      then have "\<not> length data < unat l" "sz - unat l < length (drop (unat l) data)" using "1.prems" by auto
      from "1.IH" [OF False d refl l this] show ?thesis
        using False d l "1.prems" by (subst opts_walk.simps) (auto simp: case_prod_unfold Let_def)
    qed
  qed simp
qed

section \<open>Handlers and the list of options\<close>

text \<open>
  \<open>lcp_view\<close> is the part of the state that the handlers of the options and the packets they build depend on, and
  the state of the session around the protocol; most operations leave it alone.
\<close>

definition lcp_view ::
    "'z ppp_lcp_t_scheme \<Rightarrow> (lcp_option_t list \<times> int \<times> auth_data_t list \<times> nat option \<times> int) \<times> bool \<times> 'z" where
  "lcp_view s = ((lcp_options s, conf_req_len s, auth_list s, auth_cur s, ppp_mtu s), ses_terminating s, ppp_lcp_t.more s)"

lemma view_chan_send [simp]: "lcp_view (ppp_chan_send data s) = lcp_view s"
  by (simp add: ppp_chan_send_def lcp_view_def)

lemma view_send_buf [simp]: "lcp_view (send_buf n s) = lcp_view s"
  unfolding send_buf_def by (simp add: lcp_view_def [of "s\<lparr>ppp_fault := True\<rparr>"]) (simp add: lcp_view_def)

lemma view_set_code [simp]: "lcp_view (set_code c s) = lcp_view s"
  by (simp add: set_code_def lcp_view_def)

lemma view_stop_echo [simp]: "lcp_view (stop_echo s) = lcp_view s"
  by (simp add: stop_echo_def lcp_view_def)

lemma view_start_echo [simp]: "lcp_view (start_echo env s) = lcp_view s"
  by (simp add: start_echo_def lcp_view_def Let_def)

lemma view_simple [simp]:
  "lcp_view (lcp_send_conf_ack s) = lcp_view s" "lcp_view (lcp_send_code_rej s) = lcp_view s"
  "lcp_view (lcp_send_term_ack s) = lcp_view s" "lcp_view (lcp_layer_down s) = lcp_view s"
  by (simp_all add: lcp_send_conf_ack_def lcp_send_code_rej_def lcp_send_term_ack_def lcp_layer_down_def)

lemma view_upd [simp]:
  "lcp_view (s\<lparr>ppp_fault := b\<rparr>) = lcp_view s" "lcp_view (s\<lparr>fsm_id := i\<rparr>) = lcp_view s"
  "lcp_view (s\<lparr>recv_id := i\<rparr>) = lcp_view s" "lcp_view (s\<lparr>ropt_list := ros\<rparr>) = lcp_view s"
  "lcp_view (s\<lparr>ropt_len := n\<rparr>) = lcp_view s" "lcp_view (s\<lparr>lcp_started := b\<rparr>) = lcp_view s"
  "lcp_view (s\<lparr>fsm_state := st\<rparr>) = lcp_view s" "lcp_view (s\<lparr>restart_counter := n\<rparr>) = lcp_view s"
  "lcp_view (s\<lparr>restart_timer_tpd := b\<rparr>) = lcp_view s" "lcp_view (s\<lparr>conf_failure := n\<rparr>) = lcp_view s"
  "lcp_view (s\<lparr>echo_sent := n\<rparr>) = lcp_view s" "lcp_view (s\<lparr>last_echo_ts := n\<rparr>) = lcp_view s"
  "lcp_view (s\<lparr>last_ipackets := w\<rparr>) = lcp_view s" "lcp_view (s\<lparr>ppp_buf := buf\<rparr>) = lcp_view s"
  "lcp_view (s\<lparr>lcp_magic := m\<rparr>) = lcp_view s"
  by (simp_all add: lcp_view_def)

lemma view_send_term_req [simp]: "lcp_view (lcp_send_term_req s) = lcp_view s"
  by (simp add: lcp_send_term_req_def)

lemma view_send_conf_rej [simp]: "lcp_view (lcp_send_conf_rej s) = lcp_view s"
  by (simp add: lcp_send_conf_rej_def Let_def)

lemma view_free_conf_req [simp]: "lcp_view (lcp_free_conf_req s) = lcp_view s"
  by (simp add: lcp_free_conf_req_def)

lemma view_echo_reply [simp]: "lcp_view (send_echo_reply env s) = lcp_view s"
  by (simp add: send_echo_reply_def Let_def)

text \<open>What the handlers of the options leave alone.\<close>

definition lcp_rest :: "'z ppp_lcp_t_scheme \<Rightarrow>
    (bytes list \<times> bytes \<times> u8 \<times> u8) \<times> (FSM_STATE \<times> int \<times> int \<times> bool \<times> bool) \<times> 'z" where
  "lcp_rest s = ((ppp_sent s, ppp_buf s, fsm_id s, recv_id s),
     (fsm_state s, conf_failure s, max_failure s, lcp_started s, ses_terminating s), ppp_lcp_t.more s)"

lemma lcp_rest_upd [simp]:
  "lcp_rest (s\<lparr>lcp_options := ls\<rparr>) = lcp_rest s" "lcp_rest (s\<lparr>ropt_list := ros\<rparr>) = lcp_rest s"
  "lcp_rest (s\<lparr>ropt_len := n\<rparr>) = lcp_rest s" "lcp_rest (s\<lparr>ppp_fault := b\<rparr>) = lcp_rest s"
  "lcp_rest (s\<lparr>lcp_magic := m\<rparr>) = lcp_rest s" "lcp_rest (s\<lparr>ppp_mru := n\<rparr>) = lcp_rest s"
  "lcp_rest (s\<lparr>ppp_mtu := n\<rparr>) = lcp_rest s" "lcp_rest (s\<lparr>auth_list := ds\<rparr>) = lcp_rest s"
  "lcp_rest (s\<lparr>auth_cur := c\<rparr>) = lcp_rest s"
  "lcp_rest (s\<lparr>ppp_comp_prot := b\<rparr>) = lcp_rest s" "lcp_rest (s\<lparr>ppp_comp_ac := b\<rparr>) = lcp_rest s"
  by (simp_all add: lcp_rest_def)

text \<open>
  An option fits its handler: its id, its length and, where the peer can be given a Nak, its handler for it. \<open>M\<close>
  bounds the transmit unit.
\<close>

fun opt_wf :: "int \<Rightarrow> auth_handler list \<Rightarrow> lcp_option_t \<Rightarrow> bool" where
  "opt_wf M hs lopt =
     (case lo_data lopt of
        Opt_auth \<Rightarrow> lo_id lopt = 3 \<and> lo_len lopt \<ge> 4 \<and> lo_state lopt \<noteq> LCP_OPT_NAK \<and>
          (\<forall>h \<in> set hs. 4 + int (length (auth_conf h)) \<le> lo_len lopt)
      | Opt_mru m \<Rightarrow> lo_id lopt = 1 \<and> lo_len lopt = 4 \<and> mo_mtu m \<le> M
      | Opt_magic m \<Rightarrow> lo_id lopt = 5 \<and> lo_len lopt = 6
      | Opt_pcomp p \<Rightarrow> lo_id lopt = 7 \<and> lo_len lopt = 2 \<and> lo_state lopt \<noteq> LCP_OPT_NAK
      | Opt_accomp p \<Rightarrow> lo_id lopt = 8 \<and> lo_len lopt = 2 \<and> lo_state lopt \<noteq> LCP_OPT_NAK)"

declare opt_wf.simps [simp del]

lemma opt_wf_len: "opt_wf M hs lopt \<Longrightarrow> 0 \<le> lo_len lopt"
  by (cases "lo_data lopt") (auto simp: opt_wf.simps)

definition lcp_wf :: "int \<Rightarrow> 'z ppp_lcp_t_scheme \<Rightarrow> bool" where
  "lcp_wf M s \<longleftrightarrow> (\<forall>lopt \<in> set (lcp_options s). opt_wf M (map ad_h (auth_list s)) lopt) \<and>
     conf_req_len s = 6 + sum_list (map lo_len (lcp_options s)) \<and>
     (\<forall>i. auth_cur s = Some i \<longrightarrow> i < length (auth_list s)) \<and>
     (auth_cur s = None \<longrightarrow> (\<forall>d \<in> set (auth_list s). ad_state d = LCP_OPT_NONE)) \<and> ppp_mtu s \<le> M"

lemma lcp_wf_view: "lcp_view s = lcp_view t \<Longrightarrow> lcp_wf M s = lcp_wf M t"
  by (auto simp: lcp_wf_def lcp_view_def)

definition env_mtu_ok :: "int \<Rightarrow> lcp_env \<Rightarrow> bool" where
  "env_mtu_ok M env \<longleftrightarrow> min (ctrl_max_mtu env) (conf_max_mtu env) \<le> M"

lemma clip_mtu_le: "clip_mtu env v \<le> ctrl_max_mtu env" "clip_mtu env v \<le> conf_max_mtu env"
  by (simp_all add: clip_mtu_def Let_def)

lemma env_mtu_clip: "env_mtu_ok M env \<Longrightarrow> clip_mtu env v \<le> M"
  using clip_mtu_le [of env v] by (auto simp: env_mtu_ok_def min_def split: if_splits)

subsection \<open>Building packets\<close>

text \<open>What an option writes is no longer than the option said when the session started.\<close>

lemma auth_pick_bound: "auth_pick ds = Some i \<Longrightarrow> i < length ds"
  by (auto simp: auth_pick_def find_Some_iff)

lemma auth_pick_None: "auth_pick ds = None \<longleftrightarrow> (\<forall>d \<in> set ds. ad_state d = LCP_OPT_NAK \<or> ad_state d = LCP_OPT_REJ)"
  by (auto simp: auth_pick_def find_None_iff all_set_conv_all_nth)

lemma auth_conf_req_cur:
  assumes "auth_list s \<noteq> []" "\<not> conf_noauth env" "auth_send_conf_req env s = (bs, s')" "\<not> ppp_fault s'"
  shows "auth_cur s' \<noteq> None"
  using assms by (auto simp: auth_send_conf_req_def Let_def split: option.splits if_splits)

lemma auth_conf_req_spec:
  assumes "auth_send_conf_req env s = (bs, s')" "\<forall>i. auth_cur s = Some i \<longrightarrow> i < length (auth_list s)"
  shows "bs = [] \<or> (\<exists>d \<in> set (auth_list s). length bs = 4 + length (auth_conf (ad_h d)))"
    and "\<exists>c f. s' = s\<lparr>auth_cur := c, ppp_fault := f\<rparr> \<and> (\<forall>i. c = Some i \<longrightarrow> i < length (auth_list s)) \<and> (c = None \<longrightarrow> auth_cur s = None)"
proof -
  let ?r = "case auth_cur s of None \<Rightarrow> True | Some i \<Rightarrow> ad_state (auth_list s ! i) = LCP_OPT_NAK"
  define cur where "cur = (if ?r then (case auth_pick (auth_list s) of None \<Rightarrow> auth_cur s | Some i \<Rightarrow> Some i) else auth_cur s)"
  have b: "i < length (auth_list s)" if "cur = Some i" for i
    using that assms(2) auth_pick_bound by (auto simp: cur_def split: if_splits option.splits)
  have c: "cur = None \<longrightarrow> auth_cur s = None" by (auto simp: cur_def split: option.split)
  consider "auth_list s = [] \<or> conf_noauth env" | "auth_list s \<noteq> []" "\<not> conf_noauth env" "cur = None"
    | i where "auth_list s \<noteq> []" "\<not> conf_noauth env" "cur = Some i" by blast
  then have "(bs = [] \<or> (\<exists>d \<in> set (auth_list s). length bs = 4 + length (auth_conf (ad_h d)))) \<and>
    (\<exists>c f. s' = s\<lparr>auth_cur := c, ppp_fault := f\<rparr> \<and> (\<forall>i. c = Some i \<longrightarrow> i < length (auth_list s)) \<and> (c = None \<longrightarrow> auth_cur s = None))"
  proof cases
    case 1
    then have "bs = []" "s' = s\<lparr>auth_cur := auth_cur s, ppp_fault := ppp_fault s\<rparr>"
      using assms(1) by (auto simp: auth_send_conf_req_def)
    then show ?thesis using assms(2) by blast
  next
    case 2
    then have "bs = []" "s' = s\<lparr>auth_cur := auth_cur s, ppp_fault := True\<rparr>"
      using assms(1) by (simp_all add: auth_send_conf_req_def Let_def cur_def [symmetric])
    then show ?thesis using assms(2) by blast
  next
    case 3
    then have "length bs = 4 + length (auth_conf (ad_h (auth_list s ! i)))"
      "s' = s\<lparr>auth_cur := cur, ppp_fault := ppp_fault s\<rparr>"
      using assms(1) by (auto simp: auth_send_conf_req_def Let_def cur_def [symmetric])
    then show ?thesis using b 3 c nth_mem by blast
  qed
  then show "bs = [] \<or> (\<exists>d \<in> set (auth_list s). length bs = 4 + length (auth_conf (ad_h d)))"
    and "\<exists>c f. s' = s\<lparr>auth_cur := c, ppp_fault := f\<rparr> \<and> (\<forall>i. c = Some i \<longrightarrow> i < length (auth_list s)) \<and> (c = None \<longrightarrow> auth_cur s = None)"
    by blast+
qed

text \<open>The configuration of the session as a whole: lists of options that change only within their kind.\<close>

lemma opts_write_inv:
  assumes step: "\<And>lopt u. lopt \<in> set ls \<Longrightarrow> I u \<Longrightarrow> I (snd (f lopt u)) \<and> int (length (fst (f lopt u))) \<le> lo_len lopt"
    and "I s"
  shows "I (snd (opts_write f ls s)) \<and> int (length (fst (opts_write f ls s))) \<le> sum_list (map lo_len ls)"
  using assms
proof (induction ls arbitrary: s)
  case (Cons lopt ls)
  have f: "I (snd (f lopt s))" "int (length (fst (f lopt s))) \<le> lo_len lopt" using Cons.prems by auto
  from Cons.IH [OF Cons.prems(1) f(1)] f(2) show ?case
    by (simp add: case_prod_unfold Let_def)
qed simp

text \<open>Sending leaves all of the view but the choice of the authentication protocol, which is never taken back.\<close>

definition same_opts :: "'z ppp_lcp_t_scheme \<Rightarrow> 'z ppp_lcp_t_scheme \<Rightarrow> bool" where
  "same_opts s t \<longleftrightarrow> lcp_options t = lcp_options s \<and> conf_req_len t = conf_req_len s \<and> auth_list t = auth_list s \<and>
     ppp_mtu t = ppp_mtu s \<and> (\<forall>i. auth_cur t = Some i \<longrightarrow> i < length (auth_list s)) \<and> (auth_cur t = None \<longrightarrow> auth_cur s = None) \<and>
     lcp_rest t = lcp_rest s"

lemma same_opts_refl: "lcp_wf M s \<Longrightarrow> same_opts s s"
  by (auto simp: same_opts_def lcp_wf_def)

lemma same_opts_wf: "lcp_wf M s \<Longrightarrow> same_opts s t \<Longrightarrow> lcp_wf M t"
  by (auto simp: lcp_wf_def same_opts_def)

lemma same_opts_auth:
  assumes "lcp_wf M s" "same_opts s u" "auth_send_conf_req env u = (bs, t)"
  shows "same_opts s t"
proof -
  have "\<forall>i. auth_cur u = Some i \<longrightarrow> i < length (auth_list u)" using assms(2) by (simp add: same_opts_def)
  from auth_conf_req_spec(2) [OF assms(3) this] assms(2) show ?thesis by (auto simp: same_opts_def)
qed

lemma opt_send_conf_req_spec:
  assumes "lcp_wf M s" "same_opts s u" "lopt \<in> set (lcp_options s)"
  shows "same_opts s (snd (opt_send_conf_req env lopt u)) \<and> int (length (fst (opt_send_conf_req env lopt u))) \<le> lo_len lopt"
proof -
  have w: "opt_wf M (map ad_h (auth_list u)) lopt" using assms by (simp add: lcp_wf_def same_opts_def)
  show ?thesis
  proof (cases "lo_data lopt")
    case Opt_auth
    obtain bs t where a: "auth_send_conf_req env u = (bs, t)" by fastforce
    have "\<forall>i. auth_cur u = Some i \<longrightarrow> i < length (auth_list u)" using assms(2) by (simp add: same_opts_def)
    from auth_conf_req_spec(1) [OF a this] have "int (length bs) \<le> lo_len lopt"
      using w Opt_auth by (auto simp: opt_wf.simps)
    then show ?thesis using same_opts_auth [OF assms(1,2) a] a Opt_auth by (simp add: opt_send_conf_req_def)
  qed (use assms(2) w in \<open>simp_all add: opt_send_conf_req_def opt_wf.simps mru_send_conf_req_def magic_send_conf_req_def
        pcomp_send_conf_req_def accomp_send_conf_req_def\<close>)
qed

lemma opt_send_conf_nak_spec:
  assumes "lcp_wf M s" "same_opts s u" "lopt \<in> set (lcp_options s)" "lo_state lopt = LCP_OPT_NAK"
  shows "same_opts s (snd (opt_send_conf_nak env lopt u)) \<and> int (length (fst (opt_send_conf_nak env lopt u))) \<le> lo_len lopt"
proof -
  have w: "opt_wf M (map ad_h (auth_list u)) lopt" using assms by (simp add: lcp_wf_def same_opts_def)
  show ?thesis
    using w assms(2,4)
    by (cases "lo_data lopt")
      (auto simp: opt_send_conf_nak_def opt_wf.simps mru_send_conf_nak_def magic_send_conf_nak_def same_opts_def split: option.split)
qed

text \<open>A Configure-Request and a Configure-Nak fit the buffer of \<open>conf_req_len\<close> bytes: neither is a fault.\<close>

lemma conf_req_write:
  assumes "lcp_wf M s" "opts_write (opt_send_conf_req env) (lcp_options s) s = (bs, t)"
  shows "same_opts s t" "int (6 + length bs) \<le> conf_req_len s"
  using opts_write_inv [of "lcp_options s" "same_opts s" "opt_send_conf_req env" s, OF opt_send_conf_req_spec [OF assms(1)]
      same_opts_refl [OF assms(1)]] assms by (auto simp: lcp_wf_def)

lemma send_conf_req_eq:
  assumes "lcp_wf M s" "opts_write (opt_send_conf_req env) (lcp_options s) s = (bs, t)"
  shows "lcp_send_conf_req env s = (0, ppp_chan_send (lcp_hdr 1 (fsm_id s) (4 + length bs) @ bs) t)"
  using conf_req_write(2) [OF assms] assms(2) by (simp add: lcp_send_conf_req_def)

lemma conf_nak_write:
  assumes "lcp_wf M s"
    "opts_write (\<lambda>lopt s. if lo_state lopt = LCP_OPT_NAK then opt_send_conf_nak env lopt s else ([], s)) (lcp_options s) s = (bs, t)"
  shows "same_opts s t" "int (6 + length bs) \<le> conf_req_len s"
proof -
  let ?f = "\<lambda>lopt s. if lo_state lopt = LCP_OPT_NAK then opt_send_conf_nak env lopt s else ([], s)"
  have len: "0 \<le> lo_len lopt" if "lopt \<in> set (lcp_options s)" for lopt
    using that assms(1) opt_wf_len by (auto simp: lcp_wf_def)
  have "same_opts s (snd (?f lopt u)) \<and> int (length (fst (?f lopt u))) \<le> lo_len lopt"
    if "lopt \<in> set (lcp_options s)" "same_opts s u" for lopt u
    using opt_send_conf_nak_spec [OF assms(1) that(2,1)] len [OF that(1)] that(2) by simp
  from opts_write_inv [of "lcp_options s" "same_opts s" ?f s, OF this same_opts_refl [OF assms(1)]] assms(2)
  show "same_opts s t" "int (6 + length bs) \<le> conf_req_len s" using assms(1) by (auto simp: lcp_wf_def)
qed

lemma send_conf_nak_eq:
  assumes "lcp_wf M s"
    "opts_write (\<lambda>lopt s. if lo_state lopt = LCP_OPT_NAK then opt_send_conf_nak env lopt s else ([], s)) (lcp_options s) s = (bs, t)"
  shows "lcp_send_conf_nak env s = ppp_chan_send (lcp_hdr 3 (recv_id s) (4 + length bs) @ bs) t"
  using conf_nak_write(2) [OF assms] assms(2) by (simp add: lcp_send_conf_nak_def)

lemma wf_send_conf_req: "lcp_wf M s \<Longrightarrow> lcp_wf M (snd (lcp_send_conf_req env s))"
proof -
  assume w: "lcp_wf M s"
  obtain bs t where b: "opts_write (opt_send_conf_req env) (lcp_options s) s = (bs, t)" by fastforce
  have "lcp_view (snd (lcp_send_conf_req env s)) = lcp_view t" by (simp add: send_conf_req_eq [OF w b])
  then show ?thesis using lcp_wf_view same_opts_wf [OF w conf_req_write(1) [OF w b]] by blast
qed

lemma wf_send_conf_nak: "lcp_wf M s \<Longrightarrow> lcp_wf M (lcp_send_conf_nak env s)"
proof -
  assume w: "lcp_wf M s"
  obtain bs t where b: "opts_write (\<lambda>lopt s. if lo_state lopt = LCP_OPT_NAK then opt_send_conf_nak env lopt s else ([], s))
    (lcp_options s) s = (bs, t)" by fastforce
  have "lcp_view (lcp_send_conf_nak env s) = lcp_view t" by (simp add: send_conf_nak_eq [OF w b])
  then show ?thesis using lcp_wf_view same_opts_wf [OF w conf_nak_write(1) [OF w b]] by blast
qed

subsection \<open>Receiving options\<close>

text \<open>
  \<open>opt_moves M s t\<close>: a handler may note the state of an authentication protocol and set a transmit unit within the
  bound; the rest of the configuration stays.
\<close>

definition opt_moves :: "int \<Rightarrow> 'z ppp_lcp_t_scheme \<Rightarrow> 'z ppp_lcp_t_scheme \<Rightarrow> bool" where
  "opt_moves M s t \<longleftrightarrow> conf_req_len t = conf_req_len s \<and> map ad_h (auth_list t) = map ad_h (auth_list s) \<and>
     auth_cur t = auth_cur s \<and> (auth_cur s = None \<longrightarrow> auth_list t = auth_list s) \<and> (ppp_mtu s \<le> M \<longrightarrow> ppp_mtu t \<le> M) \<and>
     lcp_rest t = lcp_rest s"

lemma opt_moves_refl [simp]: "opt_moves M s s"
  by (simp add: opt_moves_def)

lemma opt_moves_trans: "opt_moves M s t \<Longrightarrow> opt_moves M t u \<Longrightarrow> opt_moves M s u"
  by (auto simp: opt_moves_def)

lemma opt_moves_upd [simp]:
  "opt_moves M s (t\<lparr>lcp_options := ls\<rparr>) = opt_moves M s t" "opt_moves M s (t\<lparr>ropt_list := ros\<rparr>) = opt_moves M s t"
  "opt_moves M s (t\<lparr>ropt_len := n\<rparr>) = opt_moves M s t" "opt_moves M s (t\<lparr>ppp_fault := b\<rparr>) = opt_moves M s t"
  "opt_moves M s (t\<lparr>lcp_magic := m\<rparr>) = opt_moves M s t" "opt_moves M s (t\<lparr>ppp_mru := n\<rparr>) = opt_moves M s t"
  "opt_moves M s (t\<lparr>ppp_comp_prot := b\<rparr>) = opt_moves M s t" "opt_moves M s (t\<lparr>ppp_comp_ac := b\<rparr>) = opt_moves M s t"
  by (simp_all add: opt_moves_def)

text \<open>What a handler must do to the option it is called for.\<close>

definition good_handler :: "int \<Rightarrow> 'z ppp_lcp_t_scheme opt_handler \<Rightarrow> bool" where
  "good_handler M h \<longleftrightarrow> (\<forall>hs lopt s. opt_wf M hs lopt \<longrightarrow>
     (case h lopt s of (r, lopt', t) \<Rightarrow> opt_wf M hs lopt' \<and> lo_len lopt' = lo_len lopt \<and> lo_id lopt' = lo_id lopt \<and> opt_moves M s t))"

lemma map_ad_h_update: "map ad_h (ds[i := (ds ! i)\<lparr>ad_state := x\<rparr>]) = map ad_h ds"
  by (cases "i < length ds") (auto simp: nth_list_update intro!: nth_equalityI)

lemma auth_refused_moves:
  "opt_moves M s (snd (auth_recv_conf_rej s))" "opt_moves M s (snd (auth_recv_conf_nak s))"
  by (cases "auth_cur s"; simp add: auth_recv_conf_rej_def auth_recv_conf_nak_def opt_moves_def map_ad_h_update Let_def)+

lemma good_conf_req:
  assumes "env_mtu_ok M env"
  shows "good_handler M (\<lambda>lopt s. let (r, lopt', s') = opt_recv_conf_req env ptr lopt s in (r, lopt'\<lparr>lo_state := r\<rparr>, s'))"
proof -
  have mru: "v \<le> M" if "\<not> (v < conf_min_mtu env \<or> v > ctrl_max_mtu env \<or> v > conf_max_mtu env)" for v
    using assms that by (auto simp: env_mtu_ok_def)
  show ?thesis
    unfolding good_handler_def
  proof (intro allI impI)
    fix hs lopt and s :: "'z ppp_lcp_t_scheme"
    assume "opt_wf M hs lopt"
    then show "case let (r, lopt', s') = opt_recv_conf_req env ptr lopt s in (r, lopt'\<lparr>lo_state := r\<rparr>, s') of
      (r, lopt', t) \<Rightarrow> opt_wf M hs lopt' \<and> lo_len lopt' = lo_len lopt \<and> lo_id lopt' = lo_id lopt \<and> opt_moves M s t"
      by (cases "lo_data lopt")
        (auto simp: opt_recv_conf_req_def opt_wf.simps mru_recv_conf_req_def magic_recv_conf_req_def pcomp_recv_conf_req_def
          accomp_recv_conf_req_def Let_def mru opt_moves_def)
  qed
qed

lemma good_conf_rej: "good_handler M (opt_recv_conf_rej env ptr)"
  unfolding good_handler_def
proof (intro allI impI)
  fix hs lopt and s :: "'z ppp_lcp_t_scheme"
  assume "opt_wf M hs lopt"
  then show "case opt_recv_conf_rej env ptr lopt s of
    (r, lopt', t) \<Rightarrow> opt_wf M hs lopt' \<and> lo_len lopt' = lo_len lopt \<and> lo_id lopt' = lo_id lopt \<and> opt_moves M s t"
    using auth_refused_moves(1) [of M s]
    by (cases "lo_data lopt") (auto simp: opt_recv_conf_rej_def opt_wf.simps mru_recv_conf_rej_def magic_recv_conf_rej_def case_prod_unfold Let_def)
qed

lemma good_conf_nak: "good_handler M (opt_recv_conf_nak env ptr)"
  unfolding good_handler_def
proof (intro allI impI)
  fix hs lopt and s :: "'z ppp_lcp_t_scheme"
  assume "opt_wf M hs lopt"
  then show "case opt_recv_conf_nak env ptr lopt s of
    (r, lopt', t) \<Rightarrow> opt_wf M hs lopt' \<and> lo_len lopt' = lo_len lopt \<and> lo_id lopt' = lo_id lopt \<and> opt_moves M s t"
    using auth_refused_moves(2) [of M s]
    by (cases "lo_data lopt")
      (auto simp: opt_recv_conf_nak_def opt_wf.simps mru_recv_conf_nak_def magic_recv_conf_nak_def pcomp_recv_conf_nak_def
        accomp_recv_conf_nak_def case_prod_unfold Let_def split: option.split)
qed

lemma good_conf_ack: "good_handler M (opt_recv_conf_ack env ptr)"
  unfolding good_handler_def
proof (intro allI impI)
  fix hs lopt and s :: "'z ppp_lcp_t_scheme"
  assume "opt_wf M hs lopt"
  then show "case opt_recv_conf_ack env ptr lopt s of
    (r, lopt', t) \<Rightarrow> opt_wf M hs lopt' \<and> lo_len lopt' = lo_len lopt \<and> lo_id lopt' = lo_id lopt \<and> opt_moves M s t"
    by (cases "lo_data lopt")
      (auto simp: opt_recv_conf_ack_def opt_wf.simps mru_recv_conf_ack_def pcomp_recv_conf_ack_def accomp_recv_conf_ack_def)
qed

lemma with_opt_good:
  assumes "good_handler M h" "\<forall>lopt \<in> set ls. opt_wf M hs lopt" "with_opt h i ls s = (r, ls', t)"
  shows "(\<forall>lopt \<in> set ls'. opt_wf M hs lopt) \<and> map lo_len ls' = map lo_len ls \<and> map lo_id ls' = map lo_id ls \<and> opt_moves M s t"
  using assms(2,3)
proof (induction ls arbitrary: ls')
  case (Cons lopt ls)
  show ?case
  proof (cases "lo_id lopt = i")
    case True
    obtain r' lopt' t' where h: "h lopt s = (r', lopt', t')" by (cases "h lopt s")
    then show ?thesis using True Cons.prems assms(1) [unfolded good_handler_def, rule_format, of hs lopt s] by auto
  next
    case False
    obtain r' ls'' t' where w: "with_opt h i ls s = (r', ls'', t')" by (cases "with_opt h i ls s")
    then show ?thesis using False Cons.IH [of ls''] Cons.prems by auto
  qed
qed simp

lemma call_option_good:
  assumes "good_handler M h" "lcp_wf M s" "call_option h i s = (r, t)"
  shows "lcp_wf M t \<and> opt_moves M s t \<and> map lo_id (lcp_options t) = map lo_id (lcp_options s)"
proof -
  obtain ls u where w: "with_opt h i (lcp_options s) s = (r, ls, u)" "t = u\<lparr>lcp_options := ls\<rparr>"
    using assms(3) by (auto simp: call_option_def case_prod_unfold Let_def prod_eq_iff)
  have g: "(\<forall>lopt \<in> set ls. opt_wf M (map ad_h (auth_list s)) lopt) \<and> map lo_len ls = map lo_len (lcp_options s) \<and>
      map lo_id ls = map lo_id (lcp_options s) \<and> opt_moves M s u"
    using with_opt_good [where hs = "map ad_h (auth_list s)", OF assms(1) _ w(1)] assms(2) by (simp add: lcp_wf_def)
  then have "length (auth_list u) = length (auth_list s)" unfolding opt_moves_def by (metis length_map)
  then show ?thesis using g assms(2) by (simp add: w(2)) (simp add: lcp_wf_def opt_moves_def)
qed

subsection \<open>The verdict on a request\<close>

text \<open>
  The answer to one received option, by the data of the option that handles it, and to an option of a packet, by the
  list of options; 1, -1 and -2 are Ack, Nak and Reject.
\<close>

definition opt_answer :: "lcp_env \<Rightarrow> opt_data \<Rightarrow> bytes \<Rightarrow> int" where
  "opt_answer env d ptr =
     (case d of
        Opt_auth \<Rightarrow> LCP_OPT_REJ
      | Opt_mru m \<Rightarrow>
          if length ptr \<noteq> 4 then LCP_OPT_REJ
          else if int (unat (rd16 (drop 2 ptr))) \<in> {conf_min_mtu env .. min (ctrl_max_mtu env) (conf_max_mtu env)} then LCP_OPT_ACK
          else LCP_OPT_NAK
      | Opt_magic m \<Rightarrow>
          if length ptr \<noteq> 6 then LCP_OPT_REJ else if m \<noteq> 0 \<and> rd32 (drop 2 ptr) = m then LCP_OPT_NAK else LCP_OPT_ACK
      | Opt_pcomp p \<Rightarrow> if length ptr = 2 \<and> p AND 2 \<noteq> 0 then LCP_OPT_ACK else LCP_OPT_REJ
      | Opt_accomp p \<Rightarrow> if length ptr = 2 \<and> p AND 2 \<noteq> 0 then LCP_OPT_ACK else LCP_OPT_REJ)"

definition verdict :: "lcp_env \<Rightarrow> lcp_option_t list \<Rightarrow> bytes \<Rightarrow> int" where
  "verdict env ls ptr =
     (case find (\<lambda>lopt. lo_id lopt = hd ptr) ls of None \<Rightarrow> LCP_OPT_REJ | Some lopt \<Rightarrow> opt_answer env (lo_data lopt) ptr)"

lemma opt_recv_conf_req_answer:
  assumes "opt_recv_conf_req env ptr lopt s = (r, lopt', t)"
  shows "r = opt_answer env (lo_data lopt) ptr" "opt_answer env (lo_data lopt') = opt_answer env (lo_data lopt)" "lo_id lopt' = lo_id lopt"
  using assms
  by (cases "lo_data lopt";
      auto simp: opt_recv_conf_req_def opt_answer_def mru_recv_conf_req_def magic_recv_conf_req_def pcomp_recv_conf_req_def
        accomp_recv_conf_req_def Let_def fun_eq_iff split: if_splits)+

lemma opt_answer_range: "opt_answer env d ptr \<in> {LCP_OPT_ACK, LCP_OPT_NAK, LCP_OPT_REJ}"
  by (cases d) (auto simp: opt_answer_def)

lemma verdict_range: "verdict env ls ptr \<in> {LCP_OPT_ACK, LCP_OPT_NAK, LCP_OPT_REJ}"
  using opt_answer_range by (auto simp: verdict_def split: option.split)

abbreviation conf_req_handler :: "lcp_env \<Rightarrow> bytes \<Rightarrow> 'z ppp_lcp_t_scheme opt_handler" where
  "conf_req_handler env ptr \<equiv> (\<lambda>lopt s. let (r, lopt', s') = opt_recv_conf_req env ptr lopt s in (r, lopt'\<lparr>lo_state := r\<rparr>, s'))"

lemma with_opt_verdict:
  assumes "with_opt (conf_req_handler env ptr) (hd ptr) ls s = (r, ls', t)"
  shows "verdict env ls' = verdict env ls"
    "r = (case find (\<lambda>lopt. lo_id lopt = hd ptr) ls of None \<Rightarrow> None | Some lopt \<Rightarrow> Some (opt_answer env (lo_data lopt) ptr))"
  using assms
proof (induction ls arbitrary: ls')
  case (Cons lopt ls)
  {
    case 1
    show ?case
    proof (cases "lo_id lopt = hd ptr")
      case True
      obtain r' lopt' t' where o: "opt_recv_conf_req env ptr lopt s = (r', lopt', t')" by (cases "opt_recv_conf_req env ptr lopt s")
      then show ?thesis
        using 1 True opt_recv_conf_req_answer(2,3) [OF o] by (auto simp: verdict_def fun_eq_iff)
    next
      case False
      obtain r' ls'' t' where w: "with_opt (conf_req_handler env ptr) (hd ptr) ls s = (r', ls'', t')"
        by (cases "with_opt (conf_req_handler env ptr) (hd ptr) ls s")
      have "verdict env ls'' = verdict env ls" by (rule Cons.IH(1)) (use w 1 False in simp)
      then show ?thesis using 1 False w by (auto simp: verdict_def fun_eq_iff)
    qed
  next
    case 2
    show ?case
    proof (cases "lo_id lopt = hd ptr")
      case True
      obtain r' lopt' t' where o: "opt_recv_conf_req env ptr lopt s = (r', lopt', t')" by (cases "opt_recv_conf_req env ptr lopt s")
      then show ?thesis using 2 True opt_recv_conf_req_answer(1) [OF o] by auto
    next
      case False
      obtain r' ls'' t' where w: "with_opt (conf_req_handler env ptr) (hd ptr) ls s = (r', ls'', t')"
        by (cases "with_opt (conf_req_handler env ptr) (hd ptr) ls s")
      have "r = r'" using 2 False w by simp
      moreover have "r = (case find (\<lambda>lopt. lo_id lopt = hd ptr) ls of None \<Rightarrow> None | Some lopt \<Rightarrow> Some (opt_answer env (lo_data lopt) ptr))"
        by (rule Cons.IH(2)) (use w 2 False in simp)
      ultimately show ?thesis using False by simp
    qed
  }
qed simp_all

lemma call_option_verdict:
  assumes "call_option (conf_req_handler env ptr) (hd ptr) s = (r, t)"
  shows "verdict env (lcp_options t) = verdict env (lcp_options s)"
    "(case r of Some v \<Rightarrow> v | None \<Rightarrow> LCP_OPT_REJ) = verdict env (lcp_options s) ptr"
proof -
  obtain ls u where w: "with_opt (conf_req_handler env ptr) (hd ptr) (lcp_options s) s = (r, ls, u)" "t = u\<lparr>lcp_options := ls\<rparr>"
    using assms by (auto simp: call_option_def case_prod_unfold Let_def prod_eq_iff)
  show "verdict env (lcp_options t) = verdict env (lcp_options s)" using with_opt_verdict(1) [OF w(1)] w(2) by simp
  show "(case r of Some v \<Rightarrow> v | None \<Rightarrow> LCP_OPT_REJ) = verdict env (lcp_options s) ptr"
    using with_opt_verdict(2) [OF w(1)] by (simp add: verdict_def split: option.splits)
qed

lemma with_opt_quiet:
  assumes "with_opt (conf_req_handler env ptr) i ls s = (r, ls', t)"
  shows "ropt_len t = ropt_len s \<and> ppp_fault t = ppp_fault s"
  using assms
proof (induction ls arbitrary: ls')
  case (Cons lopt ls)
  then show ?case
    by (cases "lo_data lopt"; cases "with_opt (conf_req_handler env ptr) i ls s")
      (auto simp: opt_recv_conf_req_def mru_recv_conf_req_def Let_def split: if_splits)
qed simp

lemma call_option_quiet:
  assumes "call_option (conf_req_handler env ptr) i s = (r, t)"
  shows "ropt_len t = ropt_len s \<and> ppp_fault t = ppp_fault s"
proof -
  obtain ls u where w: "with_opt (conf_req_handler env ptr) i (lcp_options s) s = (r, ls, u)" "t = u\<lparr>lcp_options := ls\<rparr>"
    using assms by (auto simp: call_option_def case_prod_unfold Let_def prod_eq_iff)
  then show ?thesis using with_opt_quiet [OF w(1)] by simp
qed

lemma conf_req_loop_spec:
  assumes "env_mtu_ok M env" "lcp_wf M s" "conf_req_loop env ros ret s = (ros', ret', t)" "-2 \<le> ret"
    "\<forall>ro \<in> set ros. \<not> ro_known ro"
  shows "lcp_wf M t \<and> opt_moves M s t \<and> map lo_id (lcp_options t) = map lo_id (lcp_options s) \<and>
    map ro_hdr ros' = map ro_hdr ros \<and> map ro_state ros' = map (\<lambda>ro. verdict env (lcp_options s) (ro_hdr ro)) ros \<and>
    ret' = fold min (map (\<lambda>ro. verdict env (lcp_options s) (ro_hdr ro)) ros) ret \<and> ropt_len t = ropt_len s \<and> ppp_fault t = ppp_fault s"
  using assms(2-5)
proof (induction ros arbitrary: ros' ret s)
  case (Cons ro ros)
  obtain r s1 where c: "call_option (conf_req_handler env (ro_hdr ro)) (hd (ro_hdr ro)) s = (r, s1)" by fastforce
  let ?v = "verdict env (lcp_options s) (ro_hdr ro)"
  define ret1 where "ret1 = (case r of Some r \<Rightarrow> if r < ret then r else ret | None \<Rightarrow> LCP_OPT_REJ)"
  define ro1 where "ro1 = (case r of Some v \<Rightarrow> ro\<lparr>ro_state := v, ro_known := True\<rparr> | None \<Rightarrow> ro\<lparr>ro_state := LCP_OPT_REJ\<rparr>)"
  obtain ros1 ret2 t2 where l1: "conf_req_loop env ros ret1 s1 = (ros1, ret2, t2)" by (cases "conf_req_loop env ros ret1 s1")
  have "\<not> ro_known ro" using Cons.prems(4) by simp
  then have "conf_req_loop env (ro # ros) ret s = (ro1 # ros1, ret2, t2)"
    using l1 c by (cases r) (simp_all add: ro1_def ret1_def del: if_split)
  then have l: "conf_req_loop env ros ret1 s1 = (ros1, ret', t)" "ros' = ro1 # ros1" using l1 Cons.prems(2) by simp_all
  have ro1: "ro_hdr ro1 = ro_hdr ro" "ro_state ro1 = ?v"
    using call_option_verdict(2) [OF c] by (cases r; simp add: ro1_def)+
  have ret: "ret1 = min ?v ret" "-2 \<le> ret1"
    using call_option_verdict(2) [OF c] verdict_range [of env "lcp_options s" "ro_hdr ro"] Cons.prems(3)
    by (auto simp: ret1_def min_def split: option.splits)
  have g: "lcp_wf M s1 \<and> opt_moves M s s1 \<and> map lo_id (lcp_options s1) = map lo_id (lcp_options s)"
    by (rule call_option_good [OF good_conf_req [OF assms(1)] Cons.prems(1) c])
  have v: "verdict env (lcp_options s1) = verdict env (lcp_options s)" by (rule call_option_verdict(1) [OF c])
  have k: "ropt_len s1 = ropt_len s" "ppp_fault s1 = ppp_fault s" using call_option_quiet [OF c] by simp_all
  have "\<forall>ro \<in> set ros. \<not> ro_known ro" using Cons.prems(4) by simp
  from Cons.IH [OF conjunct1 [OF g] l(1) ret(2) this] g l(2) ro1 ret(1) v k show ?case
    by (auto intro: opt_moves_trans simp: min.commute)
qed simp

lemma min_verdicts:
  assumes "\<forall>v \<in> set vs. v \<in> {LCP_OPT_ACK, LCP_OPT_NAK, LCP_OPT_REJ}"
  shows "fold min vs 1 = (if LCP_OPT_REJ \<in> set vs then LCP_OPT_REJ else if LCP_OPT_NAK \<in> set vs then LCP_OPT_NAK else LCP_OPT_ACK)"
proof -
  have "fold min vs a = (if LCP_OPT_REJ \<in> set vs then LCP_OPT_REJ else if LCP_OPT_NAK \<in> set vs then min a LCP_OPT_NAK else a)"
    if "a \<in> {LCP_OPT_ACK, LCP_OPT_NAK, LCP_OPT_REJ}" for a
    using that assms
  proof (induction vs arbitrary: a)
    case (Cons v vs)
    have "min v a \<in> {LCP_OPT_ACK, LCP_OPT_NAK, LCP_OPT_REJ}" using Cons.prems by (auto simp: min_def)
    from Cons.IH [OF this] Cons.prems show ?case by (auto simp: min_def)
  qed simp
  then show ?thesis by simp
qed

lemma verdict_reset: "verdict env (map (\<lambda>lopt. lopt\<lparr>lo_state := x\<rparr>) ls) = verdict env ls"
proof
  show "verdict env (map (\<lambda>lopt. lopt\<lparr>lo_state := x\<rparr>) ls) ptr = verdict env ls ptr" for ptr
    by (induction ls) (simp_all add: verdict_def)
qed

lemma wf_reset: "lcp_wf M s \<Longrightarrow> lcp_wf M (s\<lparr>lcp_options := map (\<lambda>lopt. lopt\<lparr>lo_state := LCP_OPT_NONE\<rparr>) (lcp_options s)\<rparr>)"
proof -
  assume w: "lcp_wf M s"
  have o: "opt_wf M hs (lopt\<lparr>lo_state := LCP_OPT_NONE\<rparr>)" if "opt_wf M hs lopt" for hs lopt
    using that by (cases "lo_data lopt") (simp_all add: opt_wf.simps)
  show ?thesis using w o by (auto simp: lcp_wf_def comp_def)
qed

lemma recv_conf_req_spec:
  assumes "env_mtu_ok M env" "lcp_wf M s" "ropt_list s = []" "lcp_recv_conf_req env data sz s = (ret, t)"
  shows "lcp_wf M t" "opt_moves M s t" "map ro_hdr (ropt_list t) = fst (opts_walk sz data)"
    "map ro_state (ropt_list t) = map (verdict env (lcp_options s)) (fst (opts_walk sz data))"
    "ret = fold min (map (verdict env (lcp_options s)) (fst (opts_walk sz data))) 1"
    "ropt_len t = int sz" "ppp_fault t = (ppp_fault s \<or> snd (opts_walk sz data))"
    "map lo_id (lcp_options t) = map lo_id (lcp_options s)"
proof -
  obtain os f where o: "opts_walk sz data = (os, f)" by fastforce
  let ?ros = "map (\<lambda>bs. \<lparr>ro_hdr = bs, ro_state = LCP_OPT_NONE, ro_known = False\<rparr>) os"
  let ?s1 = "s\<lparr>ropt_len := int sz, ppp_fault := ppp_fault s \<or> f,
      lcp_options := map (\<lambda>lopt. lopt\<lparr>lo_state := LCP_OPT_NONE\<rparr>) (lcp_options s)\<rparr>"
  obtain ros' s2 where l: "conf_req_loop env ?ros 1 ?s1 = (ros', ret, s2)" "t = s2\<lparr>ropt_list := ros'\<rparr>"
    using assms(3,4) by (auto simp: lcp_recv_conf_req_def o case_prod_unfold Let_def prod_eq_iff)
  have "lcp_view ?s1 = lcp_view (s\<lparr>lcp_options := map (\<lambda>lopt. lopt\<lparr>lo_state := LCP_OPT_NONE\<rparr>) (lcp_options s)\<rparr>)"
    by (simp add: lcp_view_def)
  then have w1: "lcp_wf M ?s1" using wf_reset [OF assms(2)] lcp_wf_view by blast
  have v: "verdict env (lcp_options ?s1) = verdict env (lcp_options s)" by (simp add: verdict_reset)
  have m: "opt_moves M s ?s1" by simp
  have c: "map lo_id (lcp_options ?s1) = map lo_id (lcp_options s)" by (simp add: comp_def)
  note spec = conf_req_loop_spec [OF assms(1) w1 l(1), unfolded v c]
  have spec': "lcp_wf M s2" "opt_moves M ?s1 s2" "map lo_id (lcp_options s2) = map lo_id (lcp_options s)"
      "map ro_hdr ros' = map ro_hdr ?ros" "map ro_state ros' = map (\<lambda>ro. verdict env (lcp_options s) (ro_hdr ro)) ?ros"
      "ret = fold min (map (\<lambda>ro. verdict env (lcp_options s) (ro_hdr ro)) ?ros) 1" "ropt_len s2 = ropt_len ?s1" "ppp_fault s2 = ppp_fault ?s1"
    using spec by auto
  show "lcp_wf M t" using spec'(1) lcp_wf_view [of t s2 M] by (simp add: l(2))
  show "opt_moves M s t" using opt_moves_trans [OF m spec'(2)] by (simp add: l(2))
  show "map lo_id (lcp_options t) = map lo_id (lcp_options s)" using spec'(3) by (simp add: l(2))
  show "map ro_hdr (ropt_list t) = fst (opts_walk sz data)" using spec'(4) by (simp add: l(2) o comp_def)
  show "map ro_state (ropt_list t) = map (verdict env (lcp_options s)) (fst (opts_walk sz data))"
    using spec'(5) by (simp add: l(2) o comp_def)
  show "ret = fold min (map (verdict env (lcp_options s)) (fst (opts_walk sz data))) 1" using spec'(6) by (simp add: o comp_def)
  show "ropt_len t = int sz" "ppp_fault t = (ppp_fault s \<or> snd (opts_walk sz data))" using spec'(7,8) by (simp_all add: l(2) o)
qed

lemma request_verdict:
  assumes "env_mtu_ok M env" "lcp_wf M s" "ropt_list s = []" "lcp_recv_conf_req env data sz s = (ret, t)"
  defines "vs \<equiv> verdict env (lcp_options s) ` set (fst (opts_walk sz data))"
  shows "ret = (if LCP_OPT_REJ \<in> vs then LCP_OPT_REJ else if LCP_OPT_NAK \<in> vs then LCP_OPT_NAK else LCP_OPT_ACK)"
proof -
  have "\<forall>v \<in> set (map (verdict env (lcp_options s)) (fst (opts_walk sz data))). v \<in> {LCP_OPT_ACK, LCP_OPT_NAK, LCP_OPT_REJ}"
    using verdict_range by auto
  from min_verdicts [OF this] recv_conf_req_spec(5) [OF assms(1-4)] show ?thesis by (simp add: vs_def)
qed

subsection \<open>What a Configure-Nak proposes\<close>

text \<open>
  What a request leaves of one option: the answer to the last occurrence of the option in the request, and for the
  maximum receive unit the value that was accepted last.
\<close>

definition judge :: "lcp_env \<Rightarrow> bytes \<Rightarrow> lcp_option_t \<Rightarrow> lcp_option_t" where
  "judge env ptr lopt =
     (if lo_id lopt \<noteq> hd ptr then lopt
      else lopt\<lparr>lo_state := opt_answer env (lo_data lopt) ptr,
        lo_data := (case lo_data lopt of
            Opt_mru m \<Rightarrow> if opt_answer env (lo_data lopt) ptr = LCP_OPT_ACK then Opt_mru (m\<lparr>mo_mtu := int (unat (rd16 (drop 2 ptr)))\<rparr>) else Opt_mru m
          | d \<Rightarrow> d)\<rparr>)"

lemma handler_judges:
  assumes "conf_req_handler env ptr lopt s = (r, lopt', t)" "lo_id lopt = hd ptr"
  shows "lopt' = judge env ptr lopt"
  using assms
  by (cases "lo_data lopt"; cases lopt)
    (auto simp: judge_def opt_recv_conf_req_def opt_answer_def mru_recv_conf_req_def magic_recv_conf_req_def
      pcomp_recv_conf_req_def accomp_recv_conf_req_def Let_def split: if_splits)

lemma with_opt_judges:
  "distinct (map lo_id ls) \<Longrightarrow> fst (snd (with_opt (conf_req_handler env ptr) (hd ptr) ls s)) = map (judge env ptr) ls"
proof (induction ls)
  case (Cons lopt ls)
  show ?case
  proof (cases "lo_id lopt = hd ptr")
    case True
    obtain r lopt' t where h: "conf_req_handler env ptr lopt s = (r, lopt', t)" by (cases "conf_req_handler env ptr lopt s")
    have "lo_id x \<noteq> hd ptr" if "x \<in> set ls" for x using Cons.prems True that by force
    then have "map (judge env ptr) ls = ls" by (intro map_idI) (simp add: judge_def)
    with True h handler_judges [OF h True] show ?thesis by simp
  next
    case False
    then show ?thesis using Cons by (simp add: case_prod_unfold Let_def judge_def)
  qed
qed simp

lemma judge_fields:
  "lo_id (judge env ptr lopt) = lo_id lopt"
  "opt_answer env (lo_data (judge env ptr lopt)) = opt_answer env (lo_data lopt)"
  "lo_state (judge env ptr lopt) = (if hd ptr = lo_id lopt then opt_answer env (lo_data lopt) ptr else lo_state lopt)"
  "lo_data (judge env ptr lopt) = (case lo_data lopt of
       Opt_mru m \<Rightarrow> Opt_mru (if hd ptr = lo_id lopt \<and> opt_answer env (lo_data lopt) ptr = LCP_OPT_ACK
         then m\<lparr>mo_mtu := int (unat (rd16 (drop 2 ptr)))\<rparr> else m)
     | d \<Rightarrow> d)"
  by (cases "lo_data lopt"; auto simp: judge_def opt_answer_def fun_eq_iff)+

lemma conf_req_loop_judges:
  "distinct (map lo_id (lcp_options s)) \<Longrightarrow>
   lcp_options (snd (snd (conf_req_loop env ros ret s))) = map (fold (judge env) (map ro_hdr ros)) (lcp_options s)"
proof (induction ros arbitrary: ret s)
  case (Cons ro ros)
  obtain r t where c: "call_option (conf_req_handler env (ro_hdr ro)) (hd (ro_hdr ro)) s = (r, t)" by fastforce
  have t: "lcp_options t = map (judge env (ro_hdr ro)) (lcp_options s)"
    using with_opt_judges [OF Cons.prems, of env "ro_hdr ro" s] c
    by (auto simp: call_option_def case_prod_unfold Let_def prod_eq_iff)
  have "distinct (map lo_id (lcp_options t))" using Cons.prems by (simp add: t comp_def judge_fields)
  note IH = Cons.IH [OF this]
  define ret1 where "ret1 = (case r of Some r \<Rightarrow> if r < ret then r else ret | None \<Rightarrow> if ro_known ro then ret else LCP_OPT_REJ)"
  obtain ros1 ret2 t2 where l: "conf_req_loop env ros ret1 t = (ros1, ret2, t2)" by (cases "conf_req_loop env ros ret1 t")
  have "snd (snd (conf_req_loop env (ro # ros) ret s)) = t2"
    using c l by (cases r; cases "ro_known ro") (simp_all add: ret1_def del: if_split)
  with IH [of ret1] l show ?case by (simp add: t comp_def del: conf_req_loop.simps)
qed simp

lemma recv_conf_req_judges:
  assumes "distinct (map lo_id (lcp_options s))" "ropt_list s = []" "lcp_recv_conf_req env data sz s = (ret, t)"
  shows "lcp_options t =
    map (\<lambda>lopt. fold (judge env) (fst (opts_walk sz data)) (lopt\<lparr>lo_state := LCP_OPT_NONE\<rparr>)) (lcp_options s)"
proof -
  obtain os f where o: "opts_walk sz data = (os, f)" by fastforce
  let ?s1 = "s\<lparr>ropt_len := int sz, ppp_fault := ppp_fault s \<or> f,
      lcp_options := map (\<lambda>lopt. lopt\<lparr>lo_state := LCP_OPT_NONE\<rparr>) (lcp_options s)\<rparr>"
  have "distinct (map lo_id (lcp_options ?s1))" using assms(1) by (simp add: comp_def)
  from conf_req_loop_judges [OF this, of env] assms(2,3) show ?thesis
    by (auto simp: lcp_recv_conf_req_def o case_prod_unfold Let_def prod_eq_iff comp_def)
qed

text \<open>
  What a Configure-Nak says of one option, by the options \<open>opts\<close> of the request: nothing unless the last
  occurrence of the option was answered with a Nak; for the maximum receive unit, the value that the request itself
  had accepted last, or else the transmit unit the option has; for the magic number, the first random number that is
  neither 0 nor the daemon's own.
\<close>

definition nak_proposal :: "lcp_env \<Rightarrow> bytes list \<Rightarrow> lcp_option_t \<Rightarrow> bytes" where
  "nak_proposal env opts lopt =
     (let mine = filter (\<lambda>ptr. hd ptr = lo_id lopt) opts; d = lo_data lopt;
          acked = filter (\<lambda>ptr. opt_answer env d ptr = LCP_OPT_ACK) mine
      in if mine = [] \<or> opt_answer env d (last mine) \<noteq> LCP_OPT_NAK then []
         else case d of
           Opt_mru m \<Rightarrow> [1, 4] @ (if acked = [] then put16 (of_int (mo_mtu m)) else put16 (rd16 (drop 2 (last acked))))
         | Opt_magic m \<Rightarrow>
             (case find (\<lambda>r. r \<noteq> 0 \<and> r \<noteq> m) (env_random env) of None \<Rightarrow> [] | Some v \<Rightarrow> [5, 6] @ put32 v)
         | _ \<Rightarrow> [])"

lemma nzmagic_find: "nzmagic rs m = find (\<lambda>r. r \<noteq> 0 \<and> r \<noteq> m) rs"
  by (induction rs) auto

lemma judged:
  fixes opts :: "bytes list"
  defines "mine i \<equiv> filter (\<lambda>ptr. hd ptr = i) opts"
  shows "lo_id (fold (judge env) opts lopt) = lo_id lopt"
    "opt_answer env (lo_data (fold (judge env) opts lopt)) = opt_answer env (lo_data lopt)"
    "lo_state (fold (judge env) opts lopt) =
       (if mine (lo_id lopt) = [] then lo_state lopt else opt_answer env (lo_data lopt) (last (mine (lo_id lopt))))"
    "lo_data (fold (judge env) opts lopt) = (case lo_data lopt of
         Opt_mru m \<Rightarrow>
           (let acked = filter (\<lambda>ptr. opt_answer env (lo_data lopt) ptr = LCP_OPT_ACK) (mine (lo_id lopt))
            in Opt_mru (if acked = [] then m else m\<lparr>mo_mtu := int (unat (rd16 (drop 2 (last acked))))\<rparr>))
       | d \<Rightarrow> d)"
  unfolding mine_def
proof (induction opts rule: rev_induct)
  case (snoc ptr opts)
  {
    case 1
    show ?case by (simp add: snoc(1) judge_fields(1))
  next
    case 2
    show ?case by (simp add: snoc(2) judge_fields(2))
  next
    case 3
    show ?case by (simp add: snoc(1-3) judge_fields(3))
  next
    case 4
    have j: "fold (judge env) (opts @ [ptr]) lopt = judge env ptr (fold (judge env) opts lopt)" by simp
    have "lo_data (fold (judge env) (opts @ [ptr]) lopt) = (case lo_data (fold (judge env) opts lopt) of
       Opt_mru m \<Rightarrow> Opt_mru (if hd ptr = lo_id lopt \<and> opt_answer env (lo_data lopt) ptr = LCP_OPT_ACK
         then m\<lparr>mo_mtu := int (unat (rd16 (drop 2 ptr)))\<rparr> else m)
     | d \<Rightarrow> d)"
      unfolding j judge_fields(4) snoc(1,2) by (rule refl)
    then show ?case unfolding snoc(4) by (cases "lo_data lopt") (simp_all add: Let_def)
  }
qed (simp_all split: opt_data.split)

lemma nak_write:
  assumes "\<forall>lopt \<in> set ls. lo_state lopt = LCP_OPT_NAK \<longrightarrow> (\<exists>m. lo_data lopt = Opt_mru m) \<or> (\<exists>m. lo_data lopt = Opt_magic m)"
  shows "fst (opts_write (\<lambda>lopt s. if lo_state lopt = LCP_OPT_NAK then opt_send_conf_nak env lopt s else ([], s)) ls s) =
    concat (map (\<lambda>lopt. if lo_state lopt \<noteq> LCP_OPT_NAK then [] else
      case lo_data lopt of Opt_mru m \<Rightarrow> mru_send_conf_nak m
      | Opt_magic m \<Rightarrow> (case nzmagic (env_random env) m of None \<Rightarrow> [] | Some v \<Rightarrow> [5, 6] @ put32 v) | _ \<Rightarrow> []) ls)"
  using assms
proof (induction ls arbitrary: s)
  case (Cons lopt ls)
  then show ?case
    by (auto simp: case_prod_unfold Let_def opt_send_conf_nak_def magic_send_conf_nak_def split: option.split)
qed simp

lemma nak_bytes:
  assumes "distinct (map lo_id (lcp_options s))" "ropt_list s = []" "lcp_recv_conf_req env data sz s = (ret, t)"
  shows "fst (opts_write (\<lambda>lopt s. if lo_state lopt = LCP_OPT_NAK then opt_send_conf_nak env lopt s else ([], s)) (lcp_options t) u) =
    concat (map (nak_proposal env (fst (opts_walk sz data))) (lcp_options s))"
proof -
  let ?j = "\<lambda>lopt. fold (judge env) (fst (opts_walk sz data)) (lopt\<lparr>lo_state := LCP_OPT_NONE\<rparr>)"
  have o: "lcp_options t = map ?j (lcp_options s)" by (rule recv_conf_req_judges [OF assms])
  have k: "(\<exists>m. lo_data (?j lopt) = Opt_mru m) \<or> (\<exists>m. lo_data (?j lopt) = Opt_magic m)" if "lo_state (?j lopt) = LCP_OPT_NAK" for lopt
    using that by (cases "lo_data lopt") (auto simp: judged opt_answer_def Let_def split: if_splits)
  have "(if lo_state (?j lopt) \<noteq> LCP_OPT_NAK then [] else
      case lo_data (?j lopt) of Opt_mru m \<Rightarrow> mru_send_conf_nak m
      | Opt_magic m \<Rightarrow> (case nzmagic (env_random env) m of None \<Rightarrow> [] | Some v \<Rightarrow> [5, 6] @ put32 v) | _ \<Rightarrow> []) =
    nak_proposal env (fst (opts_walk sz data)) lopt" for lopt
    by (cases "lo_data lopt")
      (auto simp: judged nak_proposal_def nzmagic_find mru_send_conf_nak_def Let_def)
  then show ?thesis using nak_write [of "lcp_options t" env u] k by (simp add: o comp_def)
qed

text \<open>A Configure-Reject repeats the rejected options, in their order, and fits the buffer of \<open>ropt_len\<close> bytes.\<close>

lemma rejected_bytes:
  assumes "map ro_hdr ros = os" "map ro_state ros = map v os"
  shows "map ro_hdr (filter (\<lambda>ro. ro_state ro = x) ros) = filter (\<lambda>o'. v o' = x) os"
  using assms by (induction ros arbitrary: os) auto

lemma length_concat_filter: "length (concat (filter P xss)) \<le> length (concat xss)"
  by (induction xss) auto

lemma send_conf_rej_eq:
  assumes "map ro_hdr (ropt_list t) = fst (opts_walk sz data)" "map ro_state (ropt_list t) = map v (fst (opts_walk sz data))"
    "ropt_len t = int sz"
  defines "bs \<equiv> concat (filter (\<lambda>opt. v opt = LCP_OPT_REJ) (fst (opts_walk sz data)))"
  shows "lcp_send_conf_rej t = ppp_chan_send (lcp_hdr 4 (recv_id t) (4 + length bs) @ bs) t" "length bs \<le> sz"
proof -
  have b: "concat (map ro_hdr (filter (\<lambda>ro. ro_state ro = LCP_OPT_REJ) (ropt_list t))) = bs"
    using rejected_bytes [OF assms(1,2)] by (simp add: bs_def)
  show "length bs \<le> sz"
    using length_concat_filter [of "\<lambda>opt. v opt = LCP_OPT_REJ" "fst (opts_walk sz data)"] opts_walk_length [of sz data]
    by (simp add: bs_def)
  then show "lcp_send_conf_rej t = ppp_chan_send (lcp_hdr 4 (recv_id t) (4 + length bs) @ bs) t"
    by (simp add: lcp_send_conf_rej_def b assms(3))
qed

section \<open>Answering a Configure-Request\<close>

lemma chan_send_fields [simp]:
  "fsm_state (ppp_chan_send data s) = fsm_state s" "ppp_fault (ppp_chan_send data s) = ppp_fault s"
  "lcp_started (ppp_chan_send data s) = lcp_started s" "auth_cur (ppp_chan_send data s) = auth_cur s"
  by (simp_all add: ppp_chan_send_def)

lemma chan_send_sent: "data \<noteq> [] \<Longrightarrow> length data \<le> 1498 \<Longrightarrow> ppp_sent (ppp_chan_send data s) = ppp_sent s @ [data]"
  by (simp add: ppp_chan_send_def)

lemma length_lcp_hdr [simp]: "length (lcp_hdr c i n) = 6" "lcp_hdr c i n \<noteq> []"
  by (simp_all add: lcp_hdr_def put16_def)

lemma recv_request:
  assumes "6 \<le> ppp_buf_size s" "hdr_code s = 1" "4 \<le> hdr_len s" "\<not> ses_terminating s"
    "fsm_state s = FSM_Req_Sent \<or> fsm_state s = FSM_Ack_Sent"
  shows "lcp_recv core env s = lcp_conf_req_packet core env (s\<lparr>recv_id := hdr_id s\<rparr>)"
  using assms by (auto simp: lcp_recv_def is_answer_def Let_def)

lemma request_packet:
  assumes "lcp_recv_conf_req env (drop 6 (ppp_buf s)) (hdr_len s - 4) s = (ret, t)" "\<not> lcp_started t"
    "ret \<in> {LCP_OPT_ACK, LCP_OPT_NAK, LCP_OPT_REJ}"
  shows "lcp_conf_req_packet core env s = lcp_free_conf_req
    (if ret = LCP_OPT_ACK then ppp_fsm_recv_conf_req_ack (lcp_ops core env) t
     else if ret = LCP_OPT_NAK then ppp_fsm_recv_conf_req_nak (lcp_ops core env) t
     else ppp_fsm_recv_conf_req_rej (lcp_ops core env) t)"
  using assms by (auto simp: lcp_conf_req_packet_def Let_def)

lemma negotiating_answers:
  assumes "fsm_state t = FSM_Req_Sent \<or> fsm_state t = FSM_Ack_Sent" "\<not> at_limit t"
  shows "ppp_fsm_recv_conf_req_ack (lcp_ops core env) t = goto FSM_Ack_Sent (lcp_send_conf_ack t)"
    "ppp_fsm_recv_conf_req_nak (lcp_ops core env) t =
       (if fsm_state t = FSM_Ack_Sent then goto FSM_Req_Sent (lcp_send_conf_nak env t) else lcp_send_conf_nak env (inc_failure t))"
    "ppp_fsm_recv_conf_req_rej (lcp_ops core env) t =
       (if fsm_state t = FSM_Ack_Sent then goto FSM_Req_Sent (lcp_send_conf_rej (inc_failure t)) else lcp_send_conf_rej (inc_failure t))"
  using assms by (auto simp: ppp_fsm_recv_conf_req_ack_def ppp_fsm_recv_conf_req_nak_def ppp_fsm_recv_conf_req_rej_def
      lcp_ops_def call_opt_def Let_def)

lemma send_conf_ack_sent:
  assumes "hdr_len t + 2 \<le> 1498" "length (ppp_buf t) = 8192"
  shows "ppp_sent (lcp_send_conf_ack t) = ppp_sent t @ [take (hdr_len t + 2) ((ppp_buf t)[2 := 2])]"
    "ppp_fault (lcp_send_conf_ack t) = ppp_fault t"
proof -
  have "ppp_buf t \<noteq> []" using assms(2) by auto
  then show "ppp_sent (lcp_send_conf_ack t) = ppp_sent t @ [take (hdr_len t + 2) ((ppp_buf t)[2 := 2])]"
    "ppp_fault (lcp_send_conf_ack t) = ppp_fault t"
    using assms by (simp_all add: lcp_send_conf_ack_def send_buf_def set_code_def ppp_chan_send_def)
qed

lemma send_conf_nak_sent:
  fixes env :: lcp_env
  assumes "lcp_wf M t" "conf_req_len t \<le> 1498"
  defines "bs \<equiv> fst (opts_write (\<lambda>lopt s. if lo_state lopt = LCP_OPT_NAK then opt_send_conf_nak env lopt s else ([], s)) (lcp_options t) t)"
  shows "ppp_sent (lcp_send_conf_nak env t) = ppp_sent t @ [lcp_hdr 3 (recv_id t) (4 + length bs) @ bs]"
    "fsm_state (lcp_send_conf_nak env t) = fsm_state t"
proof -
  define u where "u = snd (opts_write (\<lambda>lopt s. if lo_state lopt = LCP_OPT_NAK then opt_send_conf_nak env lopt s else ([], s))
    (lcp_options t) t)"
  have b: "opts_write (\<lambda>lopt s. if lo_state lopt = LCP_OPT_NAK then opt_send_conf_nak env lopt s else ([], s))
    (lcp_options t) t = (bs, u)" unfolding bs_def u_def by (rule prod.collapse [symmetric])
  note w = conf_nak_write [OF assms(1) b]
  have "ppp_sent u = ppp_sent t" "fsm_state u = fsm_state t" using w(1) by (simp_all add: same_opts_def lcp_rest_def)
  moreover have "length (lcp_hdr 3 (recv_id t) (4 + length bs) @ bs) \<le> 1498" using w(2) assms(2) by simp
  ultimately show "ppp_sent (lcp_send_conf_nak env t) = ppp_sent t @ [lcp_hdr 3 (recv_id t) (4 + length bs) @ bs]"
    "fsm_state (lcp_send_conf_nak env t) = fsm_state t"
    by (simp_all add: send_conf_nak_eq [OF assms(1) b] chan_send_sent)
qed

lemma view_inc_failure [simp]: "lcp_wf M (inc_failure s) = lcp_wf M s"
  by (rule lcp_wf_view) simp

text \<open>
  C7: The answer of the link control protocol to a Configure-Request while it negotiates. The options are cut out of
  the packet by their length bytes and judged one by one. If all are acceptable the packet is sent back as a
  Configure-Ack with nothing but its code changed, and the automaton is in Ack-Sent. If one is to be rejected, a
  Configure-Reject with the id of the request goes out that repeats exactly the rejected options in their order. In all other cases a
  Configure-Nak with the id of the request goes out whose body is exactly what the daemon proposes instead: for every
  option whose last occurrence got a Nak, in the daemon's order, the receive unit it wants or a random magic number that is
  neither 0 nor its own. Nothing else is sent, and the packets fit their buffers. This is for a session that
  is not terminating and an automaton in Req-Sent or Ack-Sent that has not reached its limit of failures, for requests
  of at most 1496 bytes.
\<close>

theorem lcp_answers_request:
  fixes core :: "'z ppp_lcp_t_scheme ppp_core"
  assumes "env_mtu_ok M env" "lcp_wf M s" "ropt_list s = []" "\<not> lcp_started s" "\<not> ses_terminating s"
    and "fsm_state s = FSM_Req_Sent \<or> fsm_state s = FSM_Ack_Sent" "\<not> at_limit s"
    and "length (ppp_buf s) = 8192" "6 \<le> ppp_buf_size s" "hdr_code s = 1" "4 \<le> hdr_len s" "hdr_len s \<le> 1496" "conf_req_len s \<le> 1498"
    and "distinct (map lo_id (lcp_options s))"
  defines "opts \<equiv> fst (opts_walk (hdr_len s - 4) (drop 6 (ppp_buf s)))" and "v \<equiv> verdict env (lcp_options s)"
    and "t \<equiv> lcp_recv core env s"
  shows "((\<forall>opt \<in> set opts. v opt = LCP_OPT_ACK) \<longrightarrow>
      ppp_sent t = ppp_sent s @ [take (hdr_len s + 2) ((ppp_buf s)[2 := 2])] \<and> fsm_state t = FSM_Ack_Sent \<and> ppp_fault t = ppp_fault s) \<and>
    ((\<exists>opt \<in> set opts. v opt = LCP_OPT_REJ) \<longrightarrow>
      (let bs = concat (filter (\<lambda>opt. v opt = LCP_OPT_REJ) opts)
       in ppp_sent t = ppp_sent s @ [lcp_hdr 4 (hdr_id s) (4 + length bs) @ bs] \<and> fsm_state t = FSM_Req_Sent \<and> ppp_fault t = ppp_fault s)) \<and>
    ((\<exists>opt \<in> set opts. v opt = LCP_OPT_NAK) \<and> (\<forall>opt \<in> set opts. v opt \<noteq> LCP_OPT_REJ) \<longrightarrow>
      (let bs = concat (map (nak_proposal env opts) (lcp_options s))
       in ppp_sent t = ppp_sent s @ [lcp_hdr 3 (hdr_id s) (4 + length bs) @ bs] \<and> fsm_state t = FSM_Req_Sent))"
proof -
  let ?u = "s\<lparr>recv_id := hdr_id s\<rparr>"
  have wu: "lcp_wf M ?u" using assms(2) lcp_wf_view [of ?u s M] by simp
  obtain ret w where r: "lcp_recv_conf_req env (drop 6 (ppp_buf ?u)) (hdr_len ?u - 4) ?u = (ret, w)" by fastforce
  note spec = recv_conf_req_spec [OF assms(1) wu _ r, simplified, OF assms(3)]
  have ret: "ret = (if LCP_OPT_REJ \<in> v ` set opts then LCP_OPT_REJ else if LCP_OPT_NAK \<in> v ` set opts then LCP_OPT_NAK else LCP_OPT_ACK)"
    using request_verdict [OF assms(1) wu _ r] assms(3) by (simp add: opts_def v_def)
  have rest: "lcp_rest w = lcp_rest ?u" "conf_req_len w = conf_req_len s" using spec(2) by (auto simp: opt_moves_def)
  then have f: "ppp_sent w = ppp_sent s" "ppp_buf w = ppp_buf s" "recv_id w = hdr_id s" "fsm_state w = fsm_state s"
      "conf_failure w = conf_failure s" "max_failure w = max_failure s" "\<not> lcp_started w"
    using assms(4) by (auto simp: lcp_rest_def)
  have "hdr_len s - 4 < length (drop 6 (ppp_buf s))" using assms(8,12) by simp
  from opts_walk_in_buffer [OF this] spec(7) have fault: "ppp_fault w = ppp_fault s" by simp
  have neg: "fsm_state w = FSM_Req_Sent \<or> fsm_state w = FSM_Ack_Sent" "\<not> at_limit w" using assms(6,7) f by simp_all
  have t: "t = lcp_free_conf_req
    (if ret = LCP_OPT_ACK then ppp_fsm_recv_conf_req_ack (lcp_ops core env) w
     else if ret = LCP_OPT_NAK then ppp_fsm_recv_conf_req_nak (lcp_ops core env) w
     else ppp_fsm_recv_conf_req_rej (lcp_ops core env) w)"
    unfolding t_def recv_request [OF assms(9,10,11,5,6)]
    by (rule request_packet [OF r f(7)]) (simp add: ret)
  note neg_eq = negotiating_answers [OF neg]
  have ack: "(\<forall>opt \<in> set opts. v opt = LCP_OPT_ACK) \<longrightarrow>
      ppp_sent t = ppp_sent s @ [take (hdr_len s + 2) ((ppp_buf s)[2 := 2])] \<and> fsm_state t = FSM_Ack_Sent \<and> ppp_fault t = ppp_fault s"
    using send_conf_ack_sent [of w] assms(8,12) f fault by (auto simp: t ret neg_eq lcp_free_conf_req_def)
  have len: "length (concat (filter (\<lambda>opt. v opt = LCP_OPT_REJ) opts)) \<le> hdr_len s - 4"
    using send_conf_rej_eq(2) [OF spec(3,4,6)] by (simp add: opts_def v_def)
  have rej: "lcp_send_conf_rej (inc_failure w) = ppp_chan_send (lcp_hdr 4 (hdr_id s)
      (4 + length (concat (filter (\<lambda>opt. v opt = LCP_OPT_REJ) opts))) @ concat (filter (\<lambda>opt. v opt = LCP_OPT_REJ) opts)) (inc_failure w)"
    using send_conf_rej_eq(1) [of "inc_failure w" "hdr_len s - 4" "drop 6 (ppp_buf s)" v] spec(3,4,6) f(3)
    by (simp add: opts_def v_def)
  have rejected: "(\<exists>opt \<in> set opts. v opt = LCP_OPT_REJ) \<longrightarrow>
      (let bs = concat (filter (\<lambda>opt. v opt = LCP_OPT_REJ) opts)
       in ppp_sent t = ppp_sent s @ [lcp_hdr 4 (hdr_id s) (4 + length bs) @ bs] \<and> fsm_state t = FSM_Req_Sent \<and> ppp_fault t = ppp_fault s)"
    using len assms(6,12) f(1,4) fault
    by (auto simp: t ret neg_eq lcp_free_conf_req_def rej chan_send_sent Let_def image_iff)
  let ?bs = "concat (map (nak_proposal env opts) (lcp_options s))"
  have bytes: "fst (opts_write (\<lambda>lopt s. if lo_state lopt = LCP_OPT_NAK then opt_send_conf_nak env lopt s else ([], s))
      (lcp_options w) x) = ?bs" for x :: "'z ppp_lcp_t_scheme"
    using nak_bytes [OF _ _ r, of x] assms(3,14) by (simp add: opts_def)
  have n1: "ppp_sent (lcp_send_conf_nak env w) = ppp_sent w @ [lcp_hdr 3 (recv_id w) (4 + length ?bs) @ ?bs]"
    using send_conf_nak_sent(1) [OF spec(1), of env] rest(2) assms(13) bytes [of w] by simp
  have n2: "ppp_sent (lcp_send_conf_nak env (inc_failure w)) = ppp_sent w @ [lcp_hdr 3 (recv_id w) (4 + length ?bs) @ ?bs]"
      "fsm_state (lcp_send_conf_nak env (inc_failure w)) = fsm_state w"
    using send_conf_nak_sent [of M "inc_failure w" env] spec(1) rest(2) assms(13) bytes [of "inc_failure w"] by simp_all
  have nak: "(\<exists>opt \<in> set opts. v opt = LCP_OPT_NAK) \<and> (\<forall>opt \<in> set opts. v opt \<noteq> LCP_OPT_REJ) \<longrightarrow>
      (let bs = ?bs in ppp_sent t = ppp_sent s @ [lcp_hdr 3 (hdr_id s) (4 + length bs) @ bs] \<and> fsm_state t = FSM_Req_Sent)"
    using n1 n2 assms(6) f(1,3,4) by (auto simp: t ret neg_eq lcp_free_conf_req_def image_iff Let_def)
  from ack rejected nak show ?thesis by blast
qed

definition demo_env :: lcp_env where
  "demo_env = \<lparr>conf_mtu = 0, conf_mru = 0, conf_min_mtu = 100, conf_max_mtu = 1500, ctrl_max_mtu = 1492, conf_pcomp = 0,
     conf_accomp = 0, conf_noauth = False, conf_echo_interval = 0, conf_echo_failure = 0, conf_echo_timeout = 0,
     env_random = [7], env_flags_ok = True, env_time = 0, env_rx_packets = 0, env_timer_ok = True\<rparr>"

definition demo_lcp :: "bytes \<Rightarrow> ppp_lcp_t" where
  "demo_lcp pkt =
     \<lparr>fsm_state = FSM_Req_Sent, fsm_proto = 0xc021, restart_timer_tpd = True, restart_timer_period = 3000, restart_counter = 9,
      max_terminate = 2, max_configure = 10, max_failure = 10, conf_failure = 0, fsm_id = 1, recv_id = 0,
      lcp_options = [\<lparr>lo_id = 1, lo_len = 4, lo_state = 0,
        lo_data = Opt_mru \<lparr>mo_mru = 1492, mo_mtu = 1492, mo_naked = False, mo_rejected = False\<rparr>\<rparr>],
      echo_timer_tpd = False, echo_timer_period = 0, echo_sent = 0, lcp_magic = 0, last_ipackets = 0, last_echo_ts = 0,
      ropt_list = [], ropt_len = 0, conf_req_len = 10, lcp_started = False, auth_list = [], auth_cur = None, ppp_mtu = 1492,
      ppp_mru = 1500, ppp_comp_prot = False, ppp_comp_ac = False, ses_terminating = False,
      ppp_buf = pkt @ replicate (8192 - length pkt) 0, ppp_buf_size = length pkt, ppp_sent = [], ppp_fault = False\<rparr>"

definition demo_core :: "'s ppp_core" where
  "demo_core = \<lparr>core_started = \<lambda>_ s. s, core_passive = \<lambda>_ s. s, core_finished = \<lambda>_ s. s, core_post_finished = \<lambda>s. s, core_terminate = \<lambda>_ _ s. s,
     core_proto_rej = \<lambda>_ s. s\<rparr>"

text \<open>
  The peer asks for a receive unit of 1492 bytes, which is fine, and for a callback, which the daemon does not know:
  only the callback comes back in the Configure-Reject. A peer that asks for a receive unit of 50 bytes gets a
  Configure-Nak with 1492.
\<close>

abbreviation demo_request :: bytes where
  "demo_request \<equiv> [0xc0, 0x21, 1, 7, 0, 11, 1, 4, 5, 0xd4, 13, 3, 6]"

abbreviation demo_small :: bytes where
  "demo_small \<equiv> [0xc0, 0x21, 1, 7, 0, 8, 1, 4, 0, 50]"

lemma demo_walk: "fst (opts_walk 7 (drop 6 (ppp_buf (demo_lcp demo_request)))) = [[1, 4, 5, 0xd4], [13, 3, 6]]"
    "fst (opts_walk 4 (drop 6 (ppp_buf (demo_lcp demo_small)))) = [[1, 4, 0, 50]]"
  by (simp_all add: demo_lcp_def opts_walk_Cons)

lemma demo_hdr: "hdr_len (demo_lcp demo_request) = 11" "hdr_id (demo_lcp demo_request) = 7" "hdr_code (demo_lcp demo_request) = 1"
    "length (ppp_buf (demo_lcp demo_request)) = 8192" "ppp_buf_size (demo_lcp demo_request) = 13"
    "hdr_len (demo_lcp demo_small) = 8" "hdr_id (demo_lcp demo_small) = 7" "hdr_code (demo_lcp demo_small) = 1"
    "length (ppp_buf (demo_lcp demo_small)) = 8192" "ppp_buf_size (demo_lcp demo_small) = 10"
  by (simp_all add: demo_lcp_def get16_def)

lemma demo_fields:
  "lcp_options (demo_lcp pkt) = [\<lparr>lo_id = 1, lo_len = 4, lo_state = 0,
     lo_data = Opt_mru \<lparr>mo_mru = 1492, mo_mtu = 1492, mo_naked = False, mo_rejected = False\<rparr>\<rparr>]"
  "fsm_state (demo_lcp pkt) = FSM_Req_Sent" "\<not> at_limit (demo_lcp pkt)" "ropt_list (demo_lcp pkt) = []"
  "\<not> lcp_started (demo_lcp pkt)" "\<not> ses_terminating (demo_lcp pkt)" "conf_req_len (demo_lcp pkt) = 10" "ppp_sent (demo_lcp pkt) = []"
  "lcp_wf 1492 (demo_lcp pkt)" "distinct (map lo_id (lcp_options (demo_lcp pkt)))"
  by (simp_all add: demo_lcp_def lcp_wf_def opt_wf.simps)

lemma demo_verdicts: "verdict demo_env (lcp_options (demo_lcp pkt)) [1, 4, 5, 0xd4] = LCP_OPT_ACK"
    "verdict demo_env (lcp_options (demo_lcp pkt)) [13, 3, 6] = LCP_OPT_REJ"
    "verdict demo_env (lcp_options (demo_lcp pkt)) [1, 4, 0, 50] = LCP_OPT_NAK"
    "concat (map (nak_proposal demo_env [[1, 4, 0, 50]]) (lcp_options (demo_lcp pkt))) = [1, 4, 5, 0xd4]"
  by (simp_all add: verdict_def opt_answer_def demo_fields(1) demo_env_def get16_def nak_proposal_def put16_def)

theorem lcp_answers_request_witness:
  "ppp_sent (lcp_recv demo_core demo_env (demo_lcp demo_request)) = [[0xc0, 0x21, 4, 7, 0, 7, 13, 3, 6]] \<and>
   ppp_sent (lcp_recv demo_core demo_env (demo_lcp demo_small)) = [[0xc0, 0x21, 3, 7, 0, 8, 1, 4, 5, 0xd4]] \<and>
   fsm_state (lcp_recv demo_core demo_env (demo_lcp demo_request)) = FSM_Req_Sent"
proof -
  have "env_mtu_ok 1492 demo_env" by (simp add: env_mtu_ok_def demo_env_def)
  note a = lcp_answers_request [OF this demo_fields(9,4,5,6), where core = demo_core]
  from a [of demo_request] demo_fields(2,3,7,10) demo_hdr
  have "ppp_sent (lcp_recv demo_core demo_env (demo_lcp demo_request)) = [[0xc0, 0x21, 4, 7, 0, 7, 13, 3, 6]] \<and>
   fsm_state (lcp_recv demo_core demo_env (demo_lcp demo_request)) = FSM_Req_Sent"
    by (simp add: demo_walk demo_verdicts demo_fields(8) lcp_hdr_def put16_def Let_def)
  moreover from a [of demo_small] demo_fields(2,3,7,10) demo_hdr
  have "ppp_sent (lcp_recv demo_core demo_env (demo_lcp demo_small)) = [[0xc0, 0x21, 3, 7, 0, 8, 1, 4, 5, 0xd4]]"
    by (simp add: demo_walk demo_verdicts demo_fields(8) lcp_hdr_def put16_def Let_def del: concat.simps map_map)
  ultimately show ?thesis by simp
qed

text \<open>
  An Echo-Reply is the buffer of the Echo-Request up to the length in its header, and nothing compares that length with the
  number of bytes received: what the buffer held before goes to the peer.
\<close>

lemma rd16_nth: "2 \<le> length bs \<Longrightarrow> rd16 bs = get16 (bs ! 0) (bs ! 1)"
  by (cases bs rule: rd16.cases) auto

lemma nth_mem_put:
  "off + length src \<le> length buf \<Longrightarrow> mem_put buf off src ! k =
     (if off \<le> k \<and> k < off + length src then src ! (k - off) else buf ! k)"
  by (auto simp: mem_put_def nth_append)

lemma echo_reply_sends_buffer:
  assumes "length (ppp_buf s) = 8192" "8 \<le> hdr_len s" "hdr_len s \<le> 1496" "int (hdr_len s) \<le> ppp_mtu s"
  shows "\<exists>p. ppp_sent (send_echo_reply env s) = ppp_sent s @ [p] \<and> length p = hdr_len s + 2 \<and>
    (\<forall>k. 10 \<le> k \<and> k < hdr_len s + 2 \<longrightarrow> p ! k = ppp_buf s ! k)"
proof -
  let ?b = "mem_put ((ppp_buf s)[2 := 10]) 6 (put32 (lcp_magic s))"
  have b: "?b ! k = ppp_buf s ! k" if "k \<noteq> 2" "k < 6 \<or> 10 \<le> k" for k
    using that assms(1) by (auto simp: nth_mem_put)
  have len: "unat (rd16 (drop 4 ?b)) = hdr_len s" using assms(1) b [of 4] b [of 5] by (simp add: rd16_nth)
  let ?p = "take (hdr_len s + 2) ?b"
  have l: "length ?p = hdr_len s + 2" using assms(1,3) by simp
  have n: "nat (min (int (hdr_len s)) (ppp_mtu s) + 2) = hdr_len s + 2" using assms(4) by linarith
  let ?s = "s\<lparr>echo_sent := 0, last_echo_ts := env_time env, ppp_buf := ?b\<rparr>"
  have e: "send_echo_reply env s = send_buf (nat (min (int (hdr_len ?s)) (ppp_mtu ?s) + 2)) ?s"
    by (simp add: send_echo_reply_def set_code_def Let_def)
  have "hdr_len ?s = hdr_len s" "ppp_mtu ?s = ppp_mtu s" using len by simp_all
  then have "send_echo_reply env s = send_buf (hdr_len s + 2) ?s" unfolding e by (simp only: n)
  moreover have "?b \<noteq> []" using assms(1) by (simp add: mem_put_def put32_def)
  ultimately have "ppp_sent (send_echo_reply env s) = ppp_sent s @ [?p]"
    using assms(1,3) l by (auto simp: send_buf_def ppp_chan_send_def)
  then show ?thesis using l b assms(1) by (intro exI [of _ ?p]) auto
qed

section \<open>The protocol as a layer of a session\<close>

subsection \<open>Starting\<close>

definition auth_protos :: "lcp_env \<Rightarrow> auth_handler list \<Rightarrow> auth_handler list" where
  "auth_protos env protos = (if conf_noauth env then [] else protos)"

lemma ad_h_init [simp]: "ad_h (auth_data_init h) = h" "ad_state (auth_data_init h) = LCP_OPT_NONE"
  "ad_len (auth_data_init h) = int (length (auth_conf h))"
  by (cases h; simp)+

lemma auth_len_max:
  "m \<le> fold (\<lambda>d m. if m < ad_len d then ad_len d else m) ds m \<and>
   (\<forall>d \<in> set ds. ad_len d \<le> fold (\<lambda>d m. if m < ad_len d then ad_len d else m) ds m)"
proof (induction ds arbitrary: m)
  case (Cons d ds)
  let ?m = "if m < ad_len d then ad_len d else m"
  from Cons.IH [of ?m] show ?case by (auto split: if_splits)
qed simp

lemma opt_init_wf:
  assumes "env_mtu_ok M env" "opt_init env protos k s = (lopt, t)"
  shows "opt_wf M (auth_protos env protos) lopt"
    and "k = K_auth \<Longrightarrow> lo_id lopt = 3" "k = K_auth \<Longrightarrow> auth_list t = map auth_data_init (auth_protos env protos)"
    "k \<noteq> K_auth \<Longrightarrow> auth_list t = auth_list s"
    "lcp_options t = lcp_options s" "conf_req_len t = conf_req_len s" "auth_cur t = auth_cur s" "ppp_lcp_t.more t = ppp_lcp_t.more s"
    "ppp_mtu s \<le> M \<Longrightarrow> ppp_mtu t \<le> M" "ses_terminating t = ses_terminating s" "fsm_state t = fsm_state s"
  using assms auth_len_max [of 0 "map auth_data_init (auth_protos env protos)"]
  by (cases k;
      force simp: auth_init_def mru_init_def magic_init_def pcomp_init_def accomp_init_def opt_wf.simps Let_def auth_protos_def
        env_mtu_clip split: option.splits if_splits)+

lemma options_init_wf:
  fixes protos :: "auth_handler list" and s :: "'z ppp_lcp_t_scheme"
  assumes "env_mtu_ok M env" "K_auth \<in> set handlers" "auth_cur s = None" "ppp_mtu s \<le> M"
  defines "t \<equiv> lcp_options_init env protos handlers s"
  shows "lcp_wf M t" "map ad_h (auth_list t) = auth_protos env protos" "3 \<in> set (map lo_id (lcp_options t))"
    "auth_cur t = None" "ppp_lcp_t.more t = ppp_lcp_t.more s" "ses_terminating t = ses_terminating s" "fsm_state t = fsm_state s"
proof -
  let ?hs = "auth_protos env protos"
  define step where "step = (\<lambda>k (s :: 'z ppp_lcp_t_scheme). let (lopt, s') = opt_init env protos k s
      in s'\<lparr>lcp_options := lcp_options s' @ [lopt], conf_req_len := conf_req_len s' + lo_len lopt\<rparr>)"
  define I where "I = (\<lambda>b u. (\<forall>lopt \<in> set (lcp_options u). opt_wf M ?hs lopt) \<and>
      conf_req_len u = 6 + sum_list (map lo_len (lcp_options u)) \<and> auth_cur u = None \<and> ppp_mtu u \<le> M \<and>
      ppp_lcp_t.more u = ppp_lcp_t.more s \<and> ses_terminating u = ses_terminating s \<and> fsm_state u = fsm_state s \<and>
      (b \<longrightarrow> 3 \<in> lo_id ` set (lcp_options u) \<and> auth_list u = map auth_data_init ?hs))"
  have st: "I (b \<or> k = K_auth) (step k u)" if "I b u" for b k u
  proof -
    obtain lopt u' where o: "opt_init env protos k u = (lopt, u')" by fastforce
    note w = opt_init_wf [OF assms(1) o]
    have "step k u = u'\<lparr>lcp_options := lcp_options u' @ [lopt], conf_req_len := conf_req_len u' + lo_len lopt\<rparr>"
      by (simp add: step_def o)
    then show ?thesis using that w by (cases "k = K_auth") (auto simp: I_def)
  qed
  have fold: "I (b \<or> K_auth \<in> set ks) (fold step ks u)" if "I b u" for b ks u
    using that
  proof (induction ks arbitrary: b u)
    case (Cons k ks)
    from Cons.IH [OF st [OF Cons.prems, of k]] show ?case by (simp add: disj_assoc eq_commute [of K_auth])
  qed simp
  have "I False (s\<lparr>lcp_options := [], conf_req_len := 6\<rparr>)" using assms(3,4) by (simp add: I_def)
  from fold [OF this, of handlers] assms(2) have i: "I True t" by (simp add: t_def lcp_options_init_def step_def)
  have m: "map ad_h (map auth_data_init ?hs) = ?hs" by (simp add: comp_def)
  show "lcp_wf M t" using i m by (auto simp: I_def lcp_wf_def comp_def)
  show "map ad_h (auth_list t) = auth_protos env protos" "3 \<in> set (map lo_id (lcp_options t))"
    "auth_cur t = None" "ppp_lcp_t.more t = ppp_lcp_t.more s" "ses_terminating t = ses_terminating s" "fsm_state t = fsm_state s"
    using i m by (auto simp: I_def comp_def)
qed

subsection \<open>Every operation keeps the invariant\<close>

lemma conf_req_loop_wf:
  assumes "env_mtu_ok M env" "lcp_wf M s" "conf_req_loop env ros ret s = (ros', ret', t)"
  shows "lcp_wf M t \<and> opt_moves M s t \<and> map lo_id (lcp_options t) = map lo_id (lcp_options s)"
  using assms(2,3)
proof (induction ros arbitrary: ros' ret s)
  case (Cons ro ros)
  obtain r s1 where c: "call_option (conf_req_handler env (ro_hdr ro)) (hd (ro_hdr ro)) s = (r, s1)" by fastforce
  have g: "lcp_wf M s1 \<and> opt_moves M s s1 \<and> map lo_id (lcp_options s1) = map lo_id (lcp_options s)"
    by (rule call_option_good [OF good_conf_req [OF assms(1)] Cons.prems(1) c])
  obtain ros1 ret1 where "conf_req_loop env ros ret1 s1 = (ros1, ret', t)"
    using Cons.prems(2) c by (auto simp: case_prod_unfold Let_def prod_eq_iff)
  from Cons.IH [OF conjunct1 [OF g] this] g show ?case by (auto intro: opt_moves_trans)
qed simp

lemma recv_conf_req_wf:
  assumes "env_mtu_ok M env" "lcp_wf M s" "lcp_recv_conf_req env data sz s = (ret, t)"
  shows "lcp_wf M t \<and> opt_moves M s t \<and> map lo_id (lcp_options t) = map lo_id (lcp_options s)"
proof -
  let ?f = "snd (opts_walk sz data)"
  let ?s1 = "s\<lparr>ropt_len := int sz, ppp_fault := ppp_fault s \<or> ?f,
      lcp_options := map (\<lambda>lopt. lopt\<lparr>lo_state := LCP_OPT_NONE\<rparr>) (lcp_options s)\<rparr>"
  obtain ros ros' s2 where l: "conf_req_loop env ros 1 ?s1 = (ros', ret, s2)" "t = s2\<lparr>ropt_list := ros'\<rparr>"
    using assms(3) by (auto simp: lcp_recv_conf_req_def case_prod_unfold Let_def prod_eq_iff)
  have "lcp_view ?s1 = lcp_view (s\<lparr>lcp_options := map (\<lambda>lopt. lopt\<lparr>lo_state := LCP_OPT_NONE\<rparr>) (lcp_options s)\<rparr>)"
    by (simp add: lcp_view_def)
  then have w1: "lcp_wf M ?s1" using wf_reset [OF assms(2)] lcp_wf_view by blast
  have m: "opt_moves M s ?s1" "map lo_id (lcp_options ?s1) = map lo_id (lcp_options s)" by (simp_all add: comp_def)
  have s2: "lcp_wf M s2" "opt_moves M ?s1 s2" "map lo_id (lcp_options s2) = map lo_id (lcp_options ?s1)"
    using conf_req_loop_wf [OF assms(1) w1 l(1)] by blast+
  have "lcp_wf M t" using s2(1) lcp_wf_view [of t s2 M] by (simp add: l(2))
  then show ?thesis using opt_moves_trans [OF m(1) s2(2)] s2(3) m(2) by (simp add: l(2))
qed

lemma answer_loop_wf:
  assumes "\<And>ptr. good_handler M (h ptr)" "lcp_wf M s" "answer_loop h ptrs res s = (r, t)"
  shows "lcp_wf M t \<and> opt_moves M s t \<and> map lo_id (lcp_options t) = map lo_id (lcp_options s)"
  using assms(2,3)
proof (induction ptrs arbitrary: res s)
  case (Cons ptr ptrs)
  obtain v s1 where c: "call_option (h ptr) (hd ptr) s = (v, s1)" by fastforce
  have g: "lcp_wf M s1 \<and> opt_moves M s s1 \<and> map lo_id (lcp_options s1) = map lo_id (lcp_options s)"
    by (rule call_option_good [OF assms(1) Cons.prems(1) c])
  obtain res1 where "answer_loop h ptrs res1 s1 = (r, t)" using Cons.prems(2) c by auto
  from Cons.IH [OF conjunct1 [OF g] this] g show ?case by (auto intro: opt_moves_trans)
qed simp

lemma recv_answer_wf:
  assumes "\<And>ptr. good_handler M (h ptr)" "lcp_wf M s" "recv_answer h data sz s = (r, t)"
  shows "lcp_wf M t \<and> opt_moves M s t \<and> map lo_id (lcp_options t) = map lo_id (lcp_options s)"
proof (cases "recv_id s = fsm_id s")
  case True
  let ?s1 = "s\<lparr>ppp_fault := ppp_fault s \<or> snd (opts_walk sz data)\<rparr>"
  have "lcp_wf M ?s1" using assms(2) lcp_wf_view [of ?s1 s M] by simp
  moreover have "answer_loop h (fst (opts_walk sz data)) 0 ?s1 = (r, t)"
    using assms(3) True by (simp add: recv_answer_def case_prod_unfold Let_def)
  ultimately show ?thesis using answer_loop_wf [OF assms(1), of ?s1] opt_moves_trans [of M s ?s1 t] by simp
qed (use assms in \<open>simp add: recv_answer_def\<close>)

lemma state_plain [simp]:
  "fsm_state (send_buf n s) = fsm_state s" "fsm_state (set_code c s) = fsm_state s" "fsm_state (stop_echo s) = fsm_state s"
  "fsm_state (start_echo env s) = fsm_state s" "fsm_state (lcp_send_conf_ack s) = fsm_state s"
  "fsm_state (lcp_send_code_rej s) = fsm_state s" "fsm_state (lcp_send_term_ack s) = fsm_state s"
  "fsm_state (lcp_send_term_req s) = fsm_state s" "fsm_state (lcp_send_conf_rej s) = fsm_state s"
  "fsm_state (lcp_layer_down s) = fsm_state s" "fsm_state (send_echo_reply env s) = fsm_state s"
  "fsm_state (lcp_free_conf_req s) = fsm_state s"
  by (simp_all add: send_buf_def set_code_def stop_echo_def start_echo_def lcp_send_conf_ack_def lcp_send_code_rej_def
      lcp_send_term_ack_def lcp_send_term_req_def lcp_send_conf_rej_def lcp_layer_down_def send_echo_reply_def
      lcp_free_conf_req_def Let_def)

text \<open>
  \<open>lcp_frame\<close> is what the protocol never changes of itself, and \<open>lcp_local M s t\<close> a step of the protocol that calls
  nothing of the session: the chosen authentication protocol may change but not be taken back.
\<close>

definition lcp_frame :: "'z ppp_lcp_t_scheme \<Rightarrow> u8 list \<times> auth_handler list \<times> bool \<times> 'z" where
  "lcp_frame s = (map lo_id (lcp_options s), map ad_h (auth_list s), ses_terminating s, ppp_lcp_t.more s)"

definition lcp_local :: "int \<Rightarrow> 'z ppp_lcp_t_scheme \<Rightarrow> 'z ppp_lcp_t_scheme \<Rightarrow> bool" where
  "lcp_local M s t \<longleftrightarrow> lcp_wf M t \<and> lcp_frame t = lcp_frame s \<and> (auth_cur t = None \<longrightarrow> auth_cur s = None)"

lemma local_view: "lcp_wf M s \<Longrightarrow> lcp_view t = lcp_view s \<Longrightarrow> lcp_local M s t"
  using lcp_wf_view [of t s M] by (simp add: lcp_local_def lcp_frame_def lcp_view_def)

lemma local_moves:
  "lcp_wf M t \<Longrightarrow> opt_moves M s t \<Longrightarrow> map lo_id (lcp_options t) = map lo_id (lcp_options s) \<Longrightarrow> lcp_local M s t"
  by (simp add: lcp_local_def lcp_frame_def opt_moves_def lcp_rest_def)

lemma local_same:
  assumes "lcp_wf M s" "same_opts s u" "lcp_view t = lcp_view u"
  shows "lcp_local M s t"
proof -
  have "lcp_wf M t" using same_opts_wf [OF assms(1,2)] lcp_wf_view [OF assms(3)] by simp
  then show ?thesis using assms(2,3) by (auto simp: lcp_local_def lcp_frame_def same_opts_def lcp_view_def lcp_rest_def)
qed

lemma local_conf_req: "lcp_wf M s \<Longrightarrow> lcp_local M s (snd (lcp_send_conf_req env s))"
proof -
  assume w: "lcp_wf M s"
  obtain bs t where b: "opts_write (opt_send_conf_req env) (lcp_options s) s = (bs, t)" by fastforce
  show ?thesis by (rule local_same [OF w conf_req_write(1) [OF w b]]) (simp add: send_conf_req_eq [OF w b])
qed

lemma local_conf_nak:
  "lcp_wf M s \<Longrightarrow> lcp_local M s (lcp_send_conf_nak env s) \<and> fsm_state (lcp_send_conf_nak env s) = fsm_state s"
proof -
  assume w: "lcp_wf M s"
  obtain bs t where b: "opts_write (\<lambda>lopt s. if lo_state lopt = LCP_OPT_NAK then opt_send_conf_nak env lopt s else ([], s))
    (lcp_options s) s = (bs, t)" by fastforce
  have "fsm_state t = fsm_state s" using conf_nak_write(1) [OF w b] by (simp add: same_opts_def lcp_rest_def)
  moreover have "lcp_local M s (lcp_send_conf_nak env s)"
    by (rule local_same [OF w conf_nak_write(1) [OF w b]]) (simp add: send_conf_nak_eq [OF w b])
  ultimately show ?thesis by (simp add: send_conf_nak_eq [OF w b])
qed

text \<open>A request that goes out has an authentication protocol chosen, if there is one to choose.\<close>

lemma opts_write_picks:
  assumes "lcp_wf M s" "auth_list s \<noteq> []" "\<not> conf_noauth env" "same_opts s u" "set ls \<subseteq> set (lcp_options s)"
    "\<exists>lopt \<in> set ls. lo_data lopt = Opt_auth"
  shows "auth_cur (snd (opts_write (opt_send_conf_req env) ls u)) \<noteq> None"
  using assms(4-6)
proof (induction ls arbitrary: u)
  case (Cons lopt ls)
  let ?v = "snd (opt_send_conf_req env lopt u)"
  have v: "same_opts s ?v" using opt_send_conf_req_spec [OF assms(1) Cons.prems(1)] Cons.prems(2) by simp
  have mono: "auth_cur (snd (opts_write (opt_send_conf_req env) ls ?v)) \<noteq> None" if c: "auth_cur ?v \<noteq> None"
  proof -
    let ?I = "\<lambda>w. same_opts s w \<and> auth_cur w \<noteq> None"
    have "?I (snd (opt_send_conf_req env l w)) \<and> int (length (fst (opt_send_conf_req env l w))) \<le> lo_len l"
      if "l \<in> set ls" "?I w" for l w
    proof -
      have l: "l \<in> set (lcp_options s)" using that(1) Cons.prems(2) by auto
      note o = opt_send_conf_req_spec [OF assms(1) conjunct1 [OF that(2)] l, of env]
      have "\<forall>i. auth_cur w = Some i \<longrightarrow> i < length (auth_list w)" using that(2) by (simp add: same_opts_def)
      then have "auth_cur (snd (opt_send_conf_req env l w)) \<noteq> None"
        using that(2) auth_conf_req_spec(2) [of env w "fst (auth_send_conf_req env w)" "snd (auth_send_conf_req env w)"]
        by (cases "lo_data l") (auto simp: opt_send_conf_req_def)
      then show ?thesis using o by blast
    qed
    from opts_write_inv [of ls ?I "opt_send_conf_req env" ?v, OF this] show ?thesis using v c by blast
  qed
  show ?case
  proof (cases "lo_data lopt = Opt_auth")
    case True
    have "auth_cur ?v \<noteq> None"
    proof
      assume n: "auth_cur ?v = None"
      then have u: "auth_cur u = None" "auth_list u = auth_list s" using v Cons.prems(1) True
        using auth_conf_req_spec(2) [of env u "fst (auth_send_conf_req env u)" ?v] by (auto simp: opt_send_conf_req_def same_opts_def)
      have "auth_cur s = None" using u Cons.prems(1) by (simp add: same_opts_def)
      then have "\<forall>d \<in> set (auth_list s). ad_state d = LCP_OPT_NONE" using assms(1) by (simp add: lcp_wf_def)
      then have "auth_pick (auth_list u) \<noteq> None" using assms(2) u(2) by (cases "auth_list s") (auto simp: auth_pick_None)
      then show False using n True u assms(2,3) by (auto simp: opt_send_conf_req_def auth_send_conf_req_def Let_def)
    qed
    from mono [OF this] show ?thesis by (simp add: case_prod_unfold Let_def)
  next
    case False
    then have "\<exists>lopt \<in> set ls. lo_data lopt = Opt_auth" using Cons.prems(3) by auto
    from Cons.IH [OF v _ this] Cons.prems(2) show ?thesis by (simp add: case_prod_unfold Let_def)
  qed
qed simp

lemma conf_req_picks:
  assumes "lcp_wf M s" "auth_list s \<noteq> []" "3 \<in> set (map lo_id (lcp_options s))" "\<not> conf_noauth env"
  shows "auth_cur (snd (lcp_send_conf_req env s)) \<noteq> None"
proof -
  obtain lopt where o: "lopt \<in> set (lcp_options s)" "lo_id lopt = 3" using assms(3) by auto
  then have "opt_wf M (map ad_h (auth_list s)) lopt" using assms(1) by (simp add: lcp_wf_def)
  then have "lo_data lopt = Opt_auth" using o(2) by (cases "lo_data lopt") (auto simp: opt_wf.simps)
  then have e: "\<exists>lopt \<in> set (lcp_options s). lo_data lopt = Opt_auth" using o(1) by blast
  obtain bs t where b: "opts_write (opt_send_conf_req env) (lcp_options s) s = (bs, t)" by fastforce
  from opts_write_picks [OF assms(1,2,4) same_opts_refl [OF assms(1)] subset_refl e] b
  show ?thesis by (simp add: send_conf_req_eq [OF assms(1) b])
qed

subsection \<open>The contract with the session\<close>

text \<open>
  \<open>J\<close> is an invariant of the session that the protocol's own steps cannot break, and \<open>chosen\<close> says that an
  authentication protocol is chosen. The calls into the session keep both; a layer that came up is reported only
  with an authentication protocol chosen.
\<close>

definition chosen :: "'z ppp_lcp_t_scheme \<Rightarrow> bool" where
  "chosen s \<longleftrightarrow> auth_cur s \<noteq> None"

lemma chosen_local: "lcp_local M s t \<Longrightarrow> chosen s \<Longrightarrow> chosen t"
  by (auto simp: lcp_local_def chosen_def)

lemma chosen_view: "lcp_view t = lcp_view s \<Longrightarrow> chosen t = chosen s"
  by (simp add: lcp_view_def chosen_def)

locale lcp_session =
  fixes core :: "'z ppp_lcp_t_scheme ppp_core"
    and env :: lcp_env
    and M :: int
    and J :: "'z ppp_lcp_t_scheme \<Rightarrow> bool"
  assumes env: "env_mtu_ok M env" "\<not> conf_noauth env"
    and wf: "J s \<Longrightarrow> lcp_wf M s"
    and auth: "J s \<Longrightarrow> auth_list s \<noteq> [] \<and> 3 \<in> set (map lo_id (lcp_options s))"
    and local: "\<lbrakk>J s; lcp_local M s t\<rbrakk> \<Longrightarrow> J t"
    and started: "\<lbrakk>J s; chosen s\<rbrakk> \<Longrightarrow> J (core_started core L_lcp s) \<and> chosen (core_started core L_lcp s)"
    and session: "client_keeps J chosen (core_finished core L_lcp)" "client_keeps J chosen (core_post_finished core)"
      "client_keeps J chosen (core_terminate core cause hard)"
begin

lemma J_view: "J s \<Longrightarrow> lcp_view t = lcp_view s \<Longrightarrow> J t"
  by (rule local) (auto intro: local_view wf)

lemma keeps_local:
  assumes "\<And>s. lcp_wf M s \<Longrightarrow> lcp_local M s (f s) \<and> fsm_state (f s) = fsm_state s"
  shows "client_keeps J chosen f"
proof -
  have "client_ok J chosen (f s) \<and> (chosen s \<longrightarrow> chosen (f s))" if "client_ok J chosen s" for s
  proof -
    have J: "J s" using that by (simp add: client_ok_def)
    note l = assms [OF wf [OF J]]
    have "J (f s)" using local [OF J] l by blast
    moreover have "chosen s \<longrightarrow> chosen (f s)" using l chosen_local by blast
    ultimately show ?thesis using that l by (simp add: client_ok_def)
  qed
  then show ?thesis by (auto simp: client_keeps_def)
qed

lemma keeps_view:
  assumes "\<And>s. lcp_view (f s) = lcp_view s" "\<And>s. fsm_state (f s) = fsm_state s"
  shows "client_keeps J chosen f"
  by (rule keeps_local) (use assms local_view in blast)

lemma keeps_comp: "client_keeps J chosen f \<Longrightarrow> client_keeps J chosen g \<Longrightarrow> client_keeps J chosen (\<lambda>s. g (f s))"
  by (auto simp: client_keeps_def)

lemma keeps_if: "client_keeps J chosen f \<Longrightarrow> client_keeps J chosen g \<Longrightarrow> client_keeps J chosen (\<lambda>s. if P s then f s else g s)"
  by (auto simp: client_keeps_def)

lemma keeps_layer_finished: "client_keeps J chosen (lcp_layer_finished core)"
proof -
  have "lcp_layer_finished core = (\<lambda>s. if lcp_started (stop_echo s)
      then (if ses_terminating (stop_echo s) then core_finished core L_lcp ((stop_echo s)\<lparr>lcp_started := False\<rparr>)
            else core_terminate core TERM_NAS_ERROR False ((stop_echo s)\<lparr>lcp_started := False\<rparr>))
      else core_terminate core TERM_NAS_ERROR False (stop_echo s))"
    by (auto simp: lcp_layer_finished_def Let_def)
  moreover have e: "client_keeps J chosen (\<lambda>s. (stop_echo s)\<lparr>lcp_started := False\<rparr>)" "client_keeps J chosen stop_echo"
    by (rule keeps_view; simp)+
  ultimately show ?thesis
    using keeps_if [OF keeps_if [OF keeps_comp [OF e(1) session(1)] keeps_comp [OF e(1) session(3)]] keeps_comp [OF e(2) session(3)]]
    by simp
qed

end

sublocale lcp_session \<subseteq> fsm_client "lcp_ops core env" J chosen
proof
  fix s :: "'z ppp_lcp_t_scheme" and st b n i
  show "J (goto st s) = J s"
    using J_view [of s "goto st s"] J_view [of "goto st s" s] by auto
  show "J (s\<lparr>restart_timer_tpd := b\<rparr>) = J s"
    using J_view [of s "s\<lparr>restart_timer_tpd := b\<rparr>"] J_view [of "s\<lparr>restart_timer_tpd := b\<rparr>" s] by auto
  show "J (s\<lparr>restart_counter := n\<rparr>) = J s"
    using J_view [of s "s\<lparr>restart_counter := n\<rparr>"] J_view [of "s\<lparr>restart_counter := n\<rparr>" s] by auto
  show "J (s\<lparr>conf_failure := n\<rparr>) = J s"
    using J_view [of s "s\<lparr>conf_failure := n\<rparr>"] J_view [of "s\<lparr>conf_failure := n\<rparr>" s] by auto
  show "J (s\<lparr>fsm_id := i\<rparr>) = J s"
    using J_view [of s "s\<lparr>fsm_id := i\<rparr>"] J_view [of "s\<lparr>fsm_id := i\<rparr>" s] by auto
  show "chosen (goto st s) = chosen s" "chosen (s\<lparr>restart_timer_tpd := b\<rparr>) = chosen s"
    "chosen (s\<lparr>restart_counter := n\<rparr>) = chosen s" "chosen (s\<lparr>conf_failure := n\<rparr>) = chosen s" "chosen (s\<lparr>fsm_id := i\<rparr>) = chosen s"
    by (simp_all add: chosen_def)
  show "J (call_opt (layer_up (lcp_ops core env)) s) \<and> chosen (call_opt (layer_up (lcp_ops core env)) s)" if "J s" "chosen s"
  proof -
    have J1: "J (s\<lparr>lcp_started := True\<rparr>)" "chosen (s\<lparr>lcp_started := True\<rparr>)" using J_view that by (simp_all add: chosen_def)
    note u = started [OF this]
    let ?t = "if \<not> lcp_started s then core_started core L_lcp (s\<lparr>lcp_started := True\<rparr>) else s"
    have "J ?t" "chosen ?t" using u that by simp_all
    moreover have "J (start_echo env ?t)" using J_view [OF \<open>J ?t\<close>, of "start_echo env ?t"] by simp
    moreover have "chosen (start_echo env ?t) = chosen ?t" by (rule chosen_view) simp
    ultimately show ?thesis by (simp add: lcp_ops_def call_opt_def lcp_layer_up_def)
  qed
  show "J (do_conf_req (lcp_ops core env) s) \<and> chosen (do_conf_req (lcp_ops core env) s)" if "J s"
    using local [OF that local_conf_req [OF wf [OF that]]] conf_req_picks [OF wf [OF that]] auth [OF that] env(2)
    by (auto simp: try_conf_req_def lcp_ops_def chosen_def)
  show "client_keeps J chosen (call_opt (layer_finished (lcp_ops core env)))"
    using keeps_layer_finished by (simp add: lcp_ops_def call_opt_def [abs_def])
  show "client_keeps J chosen (call_opt (layer_down (lcp_ops core env)))" "client_keeps J chosen (call_opt (layer_started (lcp_ops core env)))"
    "client_keeps J chosen (call_opt (send_conf_ack (lcp_ops core env)))" "client_keeps J chosen (call_opt (send_conf_rej (lcp_ops core env)))"
    "client_keeps J chosen (call_opt (send_code_rej (lcp_ops core env)))" "client_keeps J chosen (send_term_req (lcp_ops core env))"
    "client_keeps J chosen (send_term_ack (lcp_ops core env))"
    by (rule keeps_view; simp add: lcp_ops_def call_opt_def)+
  show "client_keeps J chosen (call_opt (send_conf_nak (lcp_ops core env)))"
    by (rule keeps_local) (simp add: lcp_ops_def call_opt_def local_conf_nak)
qed

text \<open>One step that keeps the invariant; such steps compose.\<close>

definition client_rel ::
    "('z ppp_fsm_t_scheme \<Rightarrow> bool) \<Rightarrow> ('z ppp_fsm_t_scheme \<Rightarrow> bool) \<Rightarrow> 'z ppp_fsm_t_scheme \<Rightarrow> 'z ppp_fsm_t_scheme \<Rightarrow> bool" where
  "client_rel J K s t \<longleftrightarrow> (client_ok J K s \<longrightarrow> client_ok J K t \<and> (K s \<longrightarrow> K t))"

lemma client_rel_trans: "client_rel J K s t \<Longrightarrow> client_rel J K t u \<Longrightarrow> client_rel J K s u"
  by (auto simp: client_rel_def)

lemma client_rel_refl [simp]: "client_rel J K s s"
  by (simp add: client_rel_def)

lemma client_relI: "client_keeps J K f \<Longrightarrow> client_rel J K s (f s)"
  by (simp add: client_keeps_def client_rel_def)

lemma client_keepsI: "(\<And>s. client_rel J K s (f s)) \<Longrightarrow> client_keeps J K f"
  by (simp add: client_keeps_def client_rel_def)

context lcp_session
begin

lemma rel_local:
  assumes "lcp_wf M s \<Longrightarrow> lcp_local M s t" "fsm_state t = fsm_state s"
  shows "client_rel J chosen s t"
proof -
  have "client_ok J chosen t \<and> (chosen s \<longrightarrow> chosen t)" if "client_ok J chosen s"
  proof -
    have J: "J s" using that by (simp add: client_ok_def)
    note l = assms(1) [OF wf [OF J]]
    have "J t" by (rule local [OF J l])
    moreover have "chosen s \<longrightarrow> chosen t" using l chosen_local by blast
    ultimately show ?thesis using that assms(2) by (simp add: client_ok_def)
  qed
  then show ?thesis by (auto simp: client_rel_def)
qed

lemma rel_view: "lcp_view t = lcp_view s \<Longrightarrow> fsm_state t = fsm_state s \<Longrightarrow> client_rel J chosen s t"
  by (rule rel_local) (auto intro: local_view)

lemma rel_moves:
  assumes "lcp_wf M s \<Longrightarrow> lcp_wf M t \<and> opt_moves M s t \<and> map lo_id (lcp_options t) = map lo_id (lcp_options s)"
    and "fsm_state t = fsm_state s"
  shows "client_rel J chosen s t"
  by (rule rel_local) (use assms local_moves in blast)+

lemma rel_fsm: "client_rel J chosen s (fsm_step (lcp_ops core env) e s)"
  by (rule client_relI [OF handler_keeps])

lemmas rel_handlers = rel_fsm [of _ Ev_RCR_ack, simplified] rel_fsm [of _ Ev_RCR_nak, simplified] rel_fsm [of _ Ev_RCR_rej, simplified]
  rel_fsm [of _ Ev_RCA, simplified] rel_fsm [of _ Ev_RCN, simplified] rel_fsm [of _ Ev_RTR, simplified] rel_fsm [of _ Ev_RTA, simplified]
  rel_fsm [of _ Ev_RUC, simplified] rel_fsm [of _ Ev_RXJ_bad, simplified] rel_fsm [of _ Ev_Close, simplified]
  rel_fsm [of _ Ev_Timer, simplified]

lemma rel_conf_req_loop_state:
  assumes "conf_req_loop env ros ret s = (ros', ret', t)" "lcp_wf M s"
  shows "fsm_state t = fsm_state s"
  using conf_req_loop_wf [OF env(1) assms(2,1)] by (simp add: opt_moves_def lcp_rest_def)

lemma rel_conf_req:
  assumes "lcp_recv_conf_req env data sz s = (ret, t)"
  shows "client_rel J chosen s t"
proof -
  have "client_ok J chosen t \<and> (chosen s \<longrightarrow> chosen t)" if "client_ok J chosen s"
  proof -
    have "lcp_wf M s" using that wf by (simp add: client_ok_def)
    note w = recv_conf_req_wf [OF env(1) this assms]
    have "fsm_state t = fsm_state s" using w by (simp add: opt_moves_def lcp_rest_def)
    from rel_moves [OF _ this] w that show ?thesis by (simp add: client_rel_def)
  qed
  then show ?thesis by (auto simp: client_rel_def)
qed

lemma rel_answer:
  assumes "recv_answer h data sz s = (r, t)" "\<And>ptr. good_handler M (h ptr)"
  shows "client_rel J chosen s t"
proof -
  have "client_ok J chosen t \<and> (chosen s \<longrightarrow> chosen t)" if "client_ok J chosen s"
  proof -
    have "lcp_wf M s" using that wf by (simp add: client_ok_def)
    note w = recv_answer_wf [OF assms(2) this assms(1)]
    have "fsm_state t = fsm_state s" using w by (simp add: opt_moves_def lcp_rest_def)
    from rel_moves [OF _ this] w that show ?thesis by (simp add: client_rel_def)
  qed
  then show ?thesis by (auto simp: client_rel_def)
qed

lemma rel_terminate: "client_rel J chosen s t \<Longrightarrow> client_rel J chosen s (core_terminate core c h t)"
  by (blast intro: client_rel_trans client_relI session)

lemma rel_free: "client_rel J chosen s t \<Longrightarrow> client_rel J chosen s (lcp_free_conf_req t)"
  by (rule client_rel_trans) (auto intro: rel_view)

lemma rel_conf_req_packet: "client_rel J chosen s (lcp_conf_req_packet core env s)"
proof -
  obtain r t where r: "lcp_recv_conf_req env (drop 6 (ppp_buf s)) (hdr_len s - 4) s = (r, t)" by fastforce
  note c = rel_conf_req [OF r]
  have a: "client_rel J chosen s (lcp_free_conf_req (lcp_send_conf_ack t))"
    by (rule rel_free, rule client_rel_trans [OF c]) (rule rel_view; simp)
  have f: "client_rel J chosen s (lcp_free_conf_req (ppp_fsm_recv_conf_req_ack (lcp_ops core env) t))"
    "client_rel J chosen s (lcp_free_conf_req (ppp_fsm_recv_conf_req_nak (lcp_ops core env) t))"
    "client_rel J chosen s (lcp_free_conf_req (ppp_fsm_recv_conf_req_rej (lcp_ops core env) t))"
    by (rule rel_free; rule client_rel_trans [OF c]; rule rel_handlers)+
  show ?thesis
    unfolding lcp_conf_req_packet_def Let_def r prod.case
    using a f rel_free [OF c] by (auto intro: rel_terminate)
qed

lemma rel_echo_repl: "client_rel J chosen s (lcp_recv_echo_repl core env data sz s)"
proof -
  let ?s1 = "if sz = 4 \<and> lcp_magic s \<noteq> 0 \<and> rd32 data = lcp_magic s then core_terminate core TERM_NAS_ERROR False s else s"
  have "client_rel J chosen s ?s1" by (auto intro: rel_terminate)
  moreover have "client_rel J chosen ?s1 (?s1\<lparr>echo_sent := 0, last_echo_ts := env_time env\<rparr>)" by (rule rel_view) simp_all
  ultimately show ?thesis unfolding lcp_recv_echo_repl_def Let_def by (rule client_rel_trans)
qed

lemma rel_recv:
  assumes "\<And>proto. client_keeps J chosen (core_proto_rej core proto)"
  shows "client_rel J chosen s (lcp_recv core env s)"
proof -
  define u where "u = s\<lparr>recv_id := hdr_id s\<rparr>"
  have u: "client_rel J chosen s u" by (rule rel_view) (simp_all add: u_def)
  let ?data = "drop 6 (ppp_buf s)" and ?sz = "hdr_len s - 4" and ?ops = "lcp_ops core env"
  obtain r2 t2 where r2: "lcp_recv_conf_ack env ?data ?sz u = (r2, t2)" by fastforce
  obtain r3 t3 where r3: "lcp_recv_conf_nak env ?data ?sz u = (r3, t3)" by fastforce
  obtain r4 t4 where r4: "lcp_recv_conf_rej env ?data ?sz u = (r4, t4)" by fastforce
  have t: "client_rel J chosen s t2" "client_rel J chosen s t3" "client_rel J chosen s t4"
    using rel_answer [OF r2 [unfolded lcp_recv_conf_ack_def] good_conf_ack] rel_answer [OF r3 [unfolded lcp_recv_conf_nak_def] good_conf_nak]
      rel_answer [OF r4 [unfolded lcp_recv_conf_rej_def] good_conf_rej] client_rel_trans [OF u] by blast+
  have h: "client_rel J chosen s (lcp_conf_req_packet core env u)" "client_rel J chosen s (ppp_fsm_recv_conf_ack ?ops t2)"
    "client_rel J chosen s (ppp_fsm_recv_conf_rej ?ops t3)" "client_rel J chosen s (ppp_fsm_recv_conf_rej ?ops t4)"
    "client_rel J chosen s (ppp_fsm_recv_term_req ?ops u)" "client_rel J chosen s (ppp_fsm_recv_term_ack ?ops u)"
    "client_rel J chosen s (ppp_fsm_recv_code_rej_bad ?ops u)" "client_rel J chosen s (ppp_fsm_recv_unk ?ops u)"
    "client_rel J chosen s (lcp_recv_echo_repl core env ?data ?sz u)" "client_rel J chosen s (core_proto_rej core (rd16 ?data) u)"
    by (rule client_rel_trans [OF u] client_rel_trans [OF t(1)] client_rel_trans [OF t(2)] client_rel_trans [OF t(3)];
        rule rel_conf_req_packet rel_handlers rel_echo_repl client_relI [OF assms])+
  have e: "client_rel J chosen s (send_echo_reply env u)" by (rule client_rel_trans [OF u]) (rule rel_view; simp)
  show ?thesis
    unfolding lcp_recv_def Let_def u_def [symmetric] r2 r3 r4 prod.case
    using u t h e by (auto intro: rel_terminate)
qed

lemma rel_echo_request: "client_rel J chosen s (send_echo_request core env s)"
  unfolding send_echo_request_def by (auto intro: rel_terminate rel_view)

lemma rel_layer_finish: "client_rel J chosen s (lcp_layer_finish core env s)"
proof -
  have "client_rel J chosen s (ppp_fsm_close (lcp_ops core env) (stop_echo s))"
    by (rule client_rel_trans [OF rel_view rel_handlers(10)]) simp_all
  then show ?thesis by (simp add: lcp_layer_finish_def client_relI [OF session(2)])
qed

text \<open>Starting: the options are there before the automaton is opened.\<close>

lemma start_ok:
  assumes "J (lcp_options_init env protos handlers s)" "fsm_state s = FSM_Initial"
    "fsm_state (lcp_options_init env protos handlers s) = fsm_state s"
  shows "client_ok J chosen (snd (lcp_layer_start core env protos handlers s))"
proof -
  let ?s1 = "lcp_options_init env protos handlers s"
  have "client_ok J chosen ?s1" using assms by (simp add: client_ok_def)
  then have "client_ok J chosen (fsm_step (lcp_ops core env) Ev_Open (fsm_step (lcp_ops core env) Ev_Up ?s1))"
    using rel_fsm [of ?s1 Ev_Up] rel_fsm [of "fsm_step (lcp_ops core env) Ev_Up ?s1" Ev_Open] by (auto simp: client_rel_def simp del: fsm_step.simps)
  then show ?thesis by (simp add: lcp_layer_start_def Let_def case_prod_unfold)
qed

end

end
