(* ===== verification/Ppp_Session.thy ===== *)
theory Ppp_Session
  imports Ppp_Lcp_Correct Crypto_Hash
begin

text \<open>
  A PPP session: the layers of \<open>micro-bngd/ppp/ppp.c\<close>, the authentication layer of \<open>ppp_auth.c\<close> with the password
  protocols of \<open>auth/auth_pap.c\<close> and \<open>auth/auth_chap_md5.c\<close>, the password databases of \<open>pwdb.c\<close>, and the end of a
  session in \<open>session.c\<close>, around the link control protocol of \<open>Ppp_Lcp\<close>.

  The layers call each other: the link control protocol reports that it is up, which starts the authentication layer,
  whose failure terminates the session, which finishes the layers. \<open>ppp_core_of\<close> ties the knot with a depth, and
  \<open>ppp_deep\<close> notes that a call was nested deeper. The network layers are seen through the calls they make into the session: a start or a
  finish of such a layer makes any list of these calls. Calls posted to the session's context run later, one by one.
\<close>

section \<open>State\<close>

datatype AP_STATE = AP_STATE_INIT | AP_STATE_STARTING | AP_STATE_ACTIVE | AP_STATE_FINISHING

record ppp_layer_data_t =
  ld_layer :: layer_id
  ld_starting :: bool
  ld_started :: bool
  ld_finished :: bool
  ld_passive :: bool
  ld_optional :: bool

record pap_auth_data =
  pap_timeout_tpd :: bool
  pap_peer_id :: "bytes option"
  pap_req_id :: u8
  pap_started :: bool
  pap_active :: bool

record chap_auth_data =
  chap_id :: u8
  chap_val :: bytes
  chap_timeout_tpd :: bool
  chap_interval_tpd :: bool
  chap_failure :: int
  chap_name :: "bytes option"
  chap_started :: bool
  chap_registered :: bool

text \<open>
  What the session adds to the counters of \<open>ap_session_stat\<close> is kept with it. Calls posted to the context of the session, and what is logged of a run: the start of a layer, the event that the
  session is authorized, an answer of the password databases that lets a name in, and the end.
\<close>

datatype posted = Post_lcp_finished | Post_auth_started

datatype ses_event = Ev_start layer_id | Ev_let_in bytes | Ev_authorized | Ev_active | Ev_down | Ev_finished

record ppp_t = ppp_lcp_t +
  auth_opt_started :: bool
  pap :: pap_auth_data
  chap :: chap_auth_data
  ppp_layers :: "ppp_layer_data_t list list"
  ses_state :: AP_STATE
  ses_finish_started :: bool
  ses_down :: bool
  ses_stop_time :: bool
  ses_terminate_cause :: "term_cause option"
  ses_username :: "bytes option"
  ctx_calls :: "posted list"
  stat_starting :: int
  stat_active :: int
  stat_finishing :: int
  ppp_deep :: bool
  ses_log :: "ses_event list"

subsection \<open>Password databases\<close>

datatype pwdb_res = PWDB_SUCCESS | PWDB_DENIED | PWDB_WAIT | PWDB_NO_IMPL

datatype auth_req = Req_pap bytes | Req_chap_md5 u8 bytes bytes

record pwdb_t =
  pw_check :: "(bytes \<Rightarrow> auth_req \<Rightarrow> pwdb_res) option"
  pw_get_passwd :: "(bytes \<Rightarrow> bytes option) option"

text \<open>The other sessions, as far as the names are compared with theirs: a name and whether it failed to authenticate.\<close>

record other_session =
  os_username :: "bytes option"
  os_auth_error :: bool

datatype net_call = N_started | N_passive | N_finished | N_terminate term_cause bool

record ppp_env =
  e_lcp :: lcp_env
  conf_any_login :: bool
  conf_auth_timeout :: int
  conf_interval :: int
  conf_chap_max_failure :: int
  conf_challenge_name :: bytes
  conf_single_session :: int
  conf_ignore_case :: bool
  e_sessions :: "other_session list"
  e_pwdb :: "pwdb_t list"
  e_urandom :: bytes
  e_shutdown :: bool
  net_start :: "net_id \<Rightarrow> int \<times> net_call list"
  net_finish :: "net_id \<Rightarrow> net_call list"
  net_packet :: "u16 \<Rightarrow> (net_id \<times> net_call list) option"
  net_proto_rej :: "u16 \<Rightarrow> (net_id \<times> net_call list) option"

definition tolower :: "u8 \<Rightarrow> u8" where
  "tolower c = (if 65 \<le> c \<and> c \<le> 90 then c + 32 else c)"

definition same_name :: "ppp_env \<Rightarrow> bytes \<Rightarrow> bytes \<Rightarrow> bool" where
  "same_name env a b \<longleftrightarrow> (if conf_ignore_case env then map tolower a = map tolower b else a = b)"

definition ap_check_username :: "ppp_env \<Rightarrow> bytes \<Rightarrow> bool" where
  "ap_check_username env username \<longleftrightarrow>
     conf_single_session env = 0 \<and>
     (\<exists>os \<in> set (e_sessions env). case os_username os of None \<Rightarrow> False | Some u \<Rightarrow> same_name env u username)"

text \<open>The result 0 comes with the name stored; other sessions of the name are told to end where one replaces the other.\<close>

definition ap_session_set_username :: "ppp_env \<Rightarrow> bytes \<Rightarrow> 'z ppp_t_scheme \<Rightarrow> int \<times> 'z ppp_t_scheme" where
  "ap_session_set_username env username s =
     (if conf_single_session env = 0 \<and>
         (\<exists>os \<in> set (e_sessions env). \<not> os_auth_error os \<and>
            (case os_username os of None \<Rightarrow> False | Some u \<Rightarrow> same_name env u username))
      then (-1, s)
      else (0, s\<lparr>ses_username := Some username\<rparr>))"

fun pwdb_loop :: "pwdb_t list \<Rightarrow> bytes \<Rightarrow> auth_req \<Rightarrow> pwdb_res \<Rightarrow> pwdb_res" where
  "pwdb_loop [] username req res = res"
| "pwdb_loop (pw # pws) username req res =
     (case pw_check pw of
        None \<Rightarrow> pwdb_loop pws username req res
      | Some check \<Rightarrow>
          (let r = check username req
           in if r = PWDB_NO_IMPL then pwdb_loop pws username req res
              else if r = PWDB_SUCCESS \<or> r = PWDB_WAIT then r
              else pwdb_loop pws username req r))"

definition pwdb_check :: "ppp_env \<Rightarrow> bytes \<Rightarrow> auth_req \<Rightarrow> pwdb_res" where
  "pwdb_check env username req =
     (if ap_check_username env username then PWDB_DENIED else pwdb_loop (e_pwdb env) username req PWDB_NO_IMPL)"

fun pwdb_get_loop :: "pwdb_t list \<Rightarrow> bytes \<Rightarrow> bytes option" where
  "pwdb_get_loop [] username = None"
| "pwdb_get_loop (pw # pws) username =
     (case pw_get_passwd pw of
        None \<Rightarrow> pwdb_get_loop pws username
      | Some get \<Rightarrow> (case get username of None \<Rightarrow> pwdb_get_loop pws username | Some p \<Rightarrow> Some p))"

definition pwdb_get_passwd :: "ppp_env \<Rightarrow> bytes \<Rightarrow> bytes option" where
  "pwdb_get_passwd env username = pwdb_get_loop (e_pwdb env) username"

section \<open>Layers\<close>

abbreviation log_ev :: "ses_event \<Rightarrow> 'z ppp_t_scheme \<Rightarrow> 'z ppp_t_scheme" where
  "log_ev e s \<equiv> s\<lparr>ses_log := ses_log s @ [e]\<rparr>"

definition upd_layer :: "layer_id \<Rightarrow> (ppp_layer_data_t \<Rightarrow> ppp_layer_data_t) \<Rightarrow> 'z ppp_t_scheme \<Rightarrow> 'z ppp_t_scheme" where
  "upd_layer L f s = s\<lparr>ppp_layers := map (map (\<lambda>d. if ld_layer d = L then f d else d)) (ppp_layers s)\<rparr>"

definition get_layer_order :: "string \<Rightarrow> int" where
  "get_layer_order name =
     (if name = ''lcp'' then 0 else if name = ''auth'' then 1
      else if name = ''ccp'' \<or> name = ''ipcp'' \<or> name = ''ipv6cp'' then 2 else -1)"

fun layer_name :: "layer_id \<Rightarrow> string" where
  "layer_name L_lcp = ''lcp''"
| "layer_name L_auth = ''auth''"
| "layer_name (L_net Ccp) = ''ccp''"
| "layer_name (L_net Ipcp) = ''ipcp''"
| "layer_name (L_net Ipv6cp) = ''ipv6cp''"

text \<open>The registered layers are kept sorted by their order, with a list of layers for each.\<close>

fun ppp_register_layer :: "layer_id \<Rightarrow> (int \<times> layer_id list) list \<Rightarrow> (int \<times> layer_id list) list" where
  "ppp_register_layer L [] = [(get_layer_order (layer_name L), [L])]"
| "ppp_register_layer L ((ord, items) # ns) =
     (let order = get_layer_order (layer_name L)
      in if order > ord then (ord, items) # ppp_register_layer L ns
         else if order < ord then (order, [L]) # (ord, items) # ns
         else (ord, items @ [L]) # ns)"

definition init_layers :: "(int \<times> layer_id list) list \<Rightarrow> bool \<Rightarrow> 'z ppp_t_scheme \<Rightarrow> 'z ppp_t_scheme" where
  "init_layers reg ccp_optional s =
     s\<lparr>ppp_layers := ppp_layers s @ map (\<lambda>(_, items). map (\<lambda>L. \<lparr>ld_layer = L, ld_starting = False, ld_started = False,
        ld_finished = False, ld_passive = (L = L_net Ccp), ld_optional = (L = L_net Ccp \<and> ccp_optional)\<rparr>) items) reg\<rparr>"

fun ppp_find_layer_data :: "ppp_layer_data_t list list \<Rightarrow> layer_id \<Rightarrow> ppp_layer_data_t option" where
  "ppp_find_layer_data [] L = None"
| "ppp_find_layer_data (n # ns) L =
     (case find (\<lambda>d. ld_layer d = L) n of Some d \<Rightarrow> Some d | None \<Rightarrow> ppp_find_layer_data ns L)"

text \<open>The node of a layer with the nodes after it.\<close>

fun from_node :: "layer_id \<Rightarrow> ppp_layer_data_t list list \<Rightarrow> ppp_layer_data_t list list" where
  "from_node L [] = []"
| "from_node L (n # ns) = (if L \<in> ld_layer ` set n then n # ns else from_node L ns)"

subsection \<open>The end of a session\<close>

definition log_if_up :: "'z ppp_t_scheme \<Rightarrow> 'z ppp_t_scheme" where
  "log_if_up s = (if \<not> ses_down s then log_ev Ev_down s else s)"

definition ap_session_finished :: "'z ppp_t_scheme \<Rightarrow> 'z ppp_t_scheme" where
  "ap_session_finished s0 =
     (if ses_finish_started s0 then s0
      else
        (let s1 = log_if_up (s0\<lparr>ses_finish_started := True\<rparr>);
             s2 = (case ses_state s1 of
                     AP_STATE_ACTIVE \<Rightarrow> s1\<lparr>stat_active := stat_active s1 - 1\<rparr>
                   | AP_STATE_STARTING \<Rightarrow> s1\<lparr>stat_starting := stat_starting s1 - 1\<rparr>
                   | AP_STATE_FINISHING \<Rightarrow> s1\<lparr>stat_finishing := stat_finishing s1 - 1\<rparr>
                   | AP_STATE_INIT \<Rightarrow> s1)
         in (log_ev Ev_finished s2)\<lparr>ses_username := None\<rparr>))"

definition pap_finish :: "'z ppp_t_scheme \<Rightarrow> 'z ppp_t_scheme" where
  "pap_finish s = s\<lparr>pap := (pap s)\<lparr>pap_active := False, pap_timeout_tpd := False\<rparr>\<rparr>"

definition chap_finish :: "'z ppp_t_scheme \<Rightarrow> 'z ppp_t_scheme" where
  "chap_finish s = s\<lparr>chap := (chap s)\<lparr>chap_timeout_tpd := False, chap_interval_tpd := False, chap_registered := False\<rparr>\<rparr>"

fun auth_finish :: "auth_handler \<Rightarrow> 'z ppp_t_scheme \<Rightarrow> 'z ppp_t_scheme" where
  "auth_finish Auth_pap s = pap_finish s"
| "auth_finish Auth_chap_md5 s = chap_finish s"

definition pap_data_free :: "'z ppp_t_scheme \<Rightarrow> 'z ppp_t_scheme" where
  "pap_data_free s = s\<lparr>pap := (pap s)\<lparr>pap_timeout_tpd := False\<rparr>\<rparr>"

definition chap_data_free :: "'z ppp_t_scheme \<Rightarrow> 'z ppp_t_scheme" where
  "chap_data_free s = s\<lparr>chap := (chap s)\<lparr>chap_timeout_tpd := False, chap_interval_tpd := False\<rparr>\<rparr>"

fun auth_data_free :: "auth_handler \<Rightarrow> 'z ppp_t_scheme \<Rightarrow> 'z ppp_t_scheme" where
  "auth_data_free Auth_pap s = pap_data_free s"
| "auth_data_free Auth_chap_md5 s = chap_data_free s"

text \<open>The memory of the layers is given back; what it holds is left as it is.\<close>

definition auth_free :: "'z ppp_t_scheme \<Rightarrow> 'z ppp_t_scheme" where
  "auth_free s =
     (let s1 = (case auth_cur s of
                  Some i \<Rightarrow> if auth_opt_started s then (auth_finish (ad_h (auth_list s ! i)) s)\<lparr>auth_opt_started := False\<rparr> else s
                | None \<Rightarrow> s)
      in fold auth_data_free (map ad_h (auth_list s)) s1)"

definition lcp_layer_free :: "'z ppp_t_scheme \<Rightarrow> 'z ppp_t_scheme" where
  "lcp_layer_free s =
     (let s1 = ppp_fsm_free (auth_free (stop_echo s))
      in s1\<lparr>ctx_calls := filter (\<lambda>c. c \<noteq> Post_lcp_finished) (ctx_calls s1)\<rparr>)"

definition auth_layer_free :: "'z ppp_t_scheme \<Rightarrow> 'z ppp_t_scheme" where
  "auth_layer_free s = s\<lparr>ctx_calls := filter (\<lambda>c. c \<noteq> Post_auth_started) (ctx_calls s)\<rparr>"

fun layer_free :: "layer_id \<Rightarrow> 'z ppp_t_scheme \<Rightarrow> 'z ppp_t_scheme" where
  "layer_free L_lcp s = lcp_layer_free s"
| "layer_free L_auth s = auth_layer_free s"
| "layer_free (L_net n) s = s"

definition free_layers :: "'z ppp_t_scheme \<Rightarrow> 'z ppp_t_scheme" where
  "free_layers s = (fold layer_free (map ld_layer (concat (ppp_layers s))) s)\<lparr>ppp_layers := []\<rparr>"

text \<open>No unit is ever attached to a session (\<open>unit_fd\<close> stays -1), so that its part of the function is never reached.\<close>

definition destablish_ppp :: "'z ppp_t_scheme \<Rightarrow> 'z ppp_t_scheme" where
  "destablish_ppp s = (if ses_finish_started s then s else free_layers (ap_session_finished s))"

definition ppp_layer_finished :: "layer_id \<Rightarrow> 'z ppp_t_scheme \<Rightarrow> 'z ppp_t_scheme" where
  "ppp_layer_finished L s =
     (if ses_finish_started s then s
      else
        (let s1 = upd_layer L (\<lambda>d. d\<lparr>ld_finished := True, ld_starting := False\<rparr>) s
         in if \<exists>d \<in> set (concat (ppp_layers s1)). ld_starting d \<and> \<not> ld_finished d then s1 else destablish_ppp s1))"

subsection \<open>Calls of the network layers\<close>

fun run_call :: "'z ppp_t_scheme ppp_core \<Rightarrow> layer_id \<Rightarrow> net_call \<Rightarrow> 'z ppp_t_scheme \<Rightarrow> 'z ppp_t_scheme" where
  "run_call core L N_started s = core_started core L s"
| "run_call core L N_passive s = core_passive core L s"
| "run_call core L N_finished s = core_finished core L s"
| "run_call core L (N_terminate cause hard) s = core_terminate core cause hard s"

definition run_calls :: "'z ppp_t_scheme ppp_core \<Rightarrow> net_id \<Rightarrow> net_call list \<Rightarrow> 'z ppp_t_scheme \<Rightarrow> 'z ppp_t_scheme" where
  "run_calls core n calls s = fold (run_call core (L_net n)) calls s"

section \<open>Authentication\<close>

subsection \<open>The authentication layer\<close>

definition ppp_auth_succeeded :: "ppp_env \<Rightarrow> bytes \<Rightarrow> 'z ppp_t_scheme \<Rightarrow> int \<times> 'z ppp_t_scheme" where
  "ppp_auth_succeeded env username s =
     (let (r, s1) = ap_session_set_username env username s
      in if r \<noteq> 0 then (-1, s1) else (0, s1\<lparr>ctx_calls := ctx_calls s1 @ [Post_auth_started]\<rparr>))"

definition ppp_auth_failed :: "'z ppp_t_scheme ppp_core \<Rightarrow> bytes option \<Rightarrow> 'z ppp_t_scheme \<Rightarrow> 'z ppp_t_scheme" where
  "ppp_auth_failed core username s =
     (let s1 = (case username of
                  Some u \<Rightarrow> s\<lparr>ses_username := (case ses_username s of None \<Rightarrow> Some u | Some v \<Rightarrow> Some v),
                              ses_terminate_cause := Some TERM_AUTH_ERROR\<rparr>
                | None \<Rightarrow> s)
      in core_terminate core TERM_AUTH_ERROR False s1)"

definition ppp_auth_started :: "'z ppp_t_scheme ppp_core \<Rightarrow> 'z ppp_t_scheme \<Rightarrow> 'z ppp_t_scheme" where
  "ppp_auth_started core s = (if ses_terminating s then s else core_started core L_auth (log_ev Ev_authorized s))"

text \<open>\<open>strndup\<close> of \<open>n\<close> bytes, where a negative length became a huge one; running over the buffer is a fault.\<close>

definition strndup :: "bytes \<Rightarrow> nat \<Rightarrow> bytes" where
  "strndup data n = takeWhile (\<lambda>c. c \<noteq> 0) (take n data)"

definition strndup_overruns :: "bytes \<Rightarrow> nat \<Rightarrow> bool" where
  "strndup_overruns data n \<longleftrightarrow> n > length data \<and> 0 \<notin> set data"

definition size_t :: "int \<Rightarrow> nat" where
  "size_t i = nat (i mod 2 ^ 64)"

definition str_bytes :: "string \<Rightarrow> bytes" where
  "str_bytes = map of_char"

subsection \<open>PAP\<close>

definition pap_start :: "ppp_env \<Rightarrow> 'z ppp_t_scheme \<Rightarrow> 'z ppp_t_scheme" where
  "pap_start env s = s\<lparr>pap := (pap s)\<lparr>pap_timeout_tpd := env_timer_ok (e_lcp env), pap_active := True\<rparr>\<rparr>"

definition pap_timeout :: "'z ppp_t_scheme ppp_core \<Rightarrow> 'z ppp_t_scheme \<Rightarrow> 'z ppp_t_scheme" where
  "pap_timeout core s = ppp_auth_failed core None s"

definition pap_msg :: "u8 \<Rightarrow> u8 \<Rightarrow> string \<Rightarrow> bytes" where
  "pap_msg code i msg = put16 0xc023 @ [code, i] @ put16 (of_nat (4 + 1 + length msg)) @ [of_nat (length msg)] @ str_bytes msg"

definition pap_send_ack :: "u8 \<Rightarrow> 'z ppp_t_scheme \<Rightarrow> 'z ppp_t_scheme" where
  "pap_send_ack i s = ppp_chan_send (pap_msg 2 i ''Authentication succeeded'') s"

definition pap_send_nak :: "u8 \<Rightarrow> 'z ppp_t_scheme \<Rightarrow> 'z ppp_t_scheme" where
  "pap_send_nak i s = ppp_chan_send (pap_msg 3 i ''Authentication failed'') s"

text \<open>The two ends of an attempt: a name that the databases let in, and one that they refuse.\<close>

definition pap_accept ::
    "'z ppp_t_scheme ppp_core \<Rightarrow> ppp_env \<Rightarrow> u8 \<Rightarrow> bytes \<Rightarrow> 'z ppp_t_scheme \<Rightarrow> 'z ppp_t_scheme" where
  "pap_accept core env i name s =
     (let (r, s1) = ppp_auth_succeeded env name (log_ev (Ev_let_in name) s)
      in if r \<noteq> 0 then core_terminate core TERM_AUTH_ERROR False (pap_send_nak i s1)
         else (let s2 = pap_send_ack i s1 in s2\<lparr>pap := (pap s2)\<lparr>pap_started := True\<rparr>\<rparr>))"

definition pap_refuse :: "'z ppp_t_scheme ppp_core \<Rightarrow> u8 \<Rightarrow> bytes \<Rightarrow> 'z ppp_t_scheme \<Rightarrow> 'z ppp_t_scheme" where
  "pap_refuse core i name s =
     (let s1 = pap_send_nak i s
      in if pap_started (pap s1) then core_terminate core TERM_AUTH_ERROR False s1 else ppp_auth_failed core (Some name) s1)"

definition pap_auth_result :: "'z ppp_t_scheme ppp_core \<Rightarrow> ppp_env \<Rightarrow> pwdb_res \<Rightarrow> 'z ppp_t_scheme \<Rightarrow> 'z ppp_t_scheme" where
  "pap_auth_result core env res s =
     (case pap_peer_id (pap s) of
        None \<Rightarrow> fault s
      | Some peer_id \<Rightarrow>
          (let s1 = s\<lparr>pap := (pap s)\<lparr>pap_peer_id := None\<rparr>\<rparr>
           in if res = PWDB_DENIED then pap_refuse core (pap_req_id (pap s1)) peer_id s1
              else pap_accept core env (pap_req_id (pap s1)) peer_id s1))"

text \<open>What a request says: the name and the password, or nothing if a length is found too big.\<close>

definition pap_parse :: "bytes \<Rightarrow> (bytes \<times> bytes) option" where
  "pap_parse buf =
     (let len = int (unat (rd16 (drop 4 buf)));
          peer_id_len = unat (buf ! 6);
          passwd_len = unat (buf ! (7 + peer_id_len))
      in if peer_id_len > size_t (len - 6 + 2 - 1) then None
         else if passwd_len > size_t (len - 6 + 2 - 2 - int peer_id_len) then None
         else Some (strndup (drop 7 buf) peer_id_len, strndup (drop (8 + peer_id_len) buf) passwd_len))"

definition pap_verdict :: "ppp_env \<Rightarrow> bytes \<Rightarrow> bytes \<Rightarrow> pwdb_res" where
  "pap_verdict env peer_id passwd =
     (case pwdb_check env peer_id (Req_pap passwd) of
        PWDB_NO_IMPL \<Rightarrow>
          (case pwdb_get_passwd env peer_id of
             None \<Rightarrow> PWDB_DENIED
           | Some passwd2 \<Rightarrow> if passwd2 \<noteq> passwd then PWDB_DENIED else PWDB_SUCCESS)
      | r \<Rightarrow> r)"

definition pap_recv_req :: "'z ppp_t_scheme ppp_core \<Rightarrow> ppp_env \<Rightarrow> 'z ppp_t_scheme \<Rightarrow> 'z ppp_t_scheme" where
  "pap_recv_req core env s0 =
     (if \<not> pap_active (pap s0) then s0
      else
        (let s = s0\<lparr>pap := (pap s0)\<lparr>pap_timeout_tpd := False\<rparr>\<rparr>
         in if pap_started (pap s) then pap_send_ack (hdr_id s) s
            else if pap_peer_id (pap s) \<noteq> None then s
            else
              (case pap_parse (ppp_buf s) of
                 None \<Rightarrow> s
               | Some (peer_id, passwd) \<Rightarrow>
                   if conf_any_login env then pap_accept core env (hdr_id s) peer_id s
                   else
                     (case pap_verdict env peer_id passwd of
                        PWDB_WAIT \<Rightarrow> s\<lparr>pap := (pap s)\<lparr>pap_peer_id := Some peer_id, pap_req_id := hdr_id s\<rparr>\<rparr>
                      | PWDB_DENIED \<Rightarrow> pap_refuse core (hdr_id s) peer_id s
                      | _ \<Rightarrow> pap_accept core env (hdr_id s) peer_id s))))"

definition pap_recv :: "'z ppp_t_scheme ppp_core \<Rightarrow> ppp_env \<Rightarrow> 'z ppp_t_scheme \<Rightarrow> 'z ppp_t_scheme" where
  "pap_recv core env s =
     (if ppp_buf_size s < 6 \<or> hdr_len s < 4 \<or> hdr_len s > ppp_buf_size s - 2 then s
      else if hdr_code s = 1 then pap_recv_req core env s
      else s)"

subsection \<open>CHAP with MD5\<close>

definition chap_msg :: "u8 \<Rightarrow> u8 \<Rightarrow> bytes \<Rightarrow> bytes" where
  "chap_msg code i body = put16 0xc223 @ [code, i] @ put16 (of_nat (4 + length body)) @ body"

definition chap_send_failure :: "'z ppp_t_scheme \<Rightarrow> 'z ppp_t_scheme" where
  "chap_send_failure s = ppp_chan_send (chap_msg 4 (chap_id (chap s)) (str_bytes ''Authentication failed'')) s"

definition chap_send_success :: "u8 \<Rightarrow> 'z ppp_t_scheme \<Rightarrow> 'z ppp_t_scheme" where
  "chap_send_success i s = ppp_chan_send (chap_msg 3 i (str_bytes ''Authentication succeeded'')) s"

definition chap_send_challenge :: "ppp_env \<Rightarrow> bool \<Rightarrow> 'z ppp_t_scheme \<Rightarrow> 'z ppp_t_scheme" where
  "chap_send_challenge env new s0 =
     (let s = (if new then s0\<lparr>chap := (chap s0)\<lparr>chap_val := e_urandom env\<rparr>\<rparr> else s0);
          s1 = ppp_chan_send (chap_msg 1 (chap_id (chap s)) ([16] @ chap_val (chap s) @ conf_challenge_name env)) s
      in if conf_auth_timeout env \<noteq> 0 \<and> \<not> chap_timeout_tpd (chap s1)
         then s1\<lparr>chap := (chap s1)\<lparr>chap_timeout_tpd := env_timer_ok (e_lcp env)\<rparr>\<rparr> else s1)"

definition chap_start :: "ppp_env \<Rightarrow> 'z ppp_t_scheme \<Rightarrow> 'z ppp_t_scheme" where
  "chap_start env s =
     chap_send_challenge env True (s\<lparr>chap := (chap s)\<lparr>chap_id := 1, chap_name := None, chap_registered := True\<rparr>\<rparr>)"

definition chap_timeout_timer :: "'z ppp_t_scheme ppp_core \<Rightarrow> ppp_env \<Rightarrow> 'z ppp_t_scheme \<Rightarrow> 'z ppp_t_scheme" where
  "chap_timeout_timer core env s0 =
     (let s = s0\<lparr>chap := (chap s0)\<lparr>chap_failure := chap_failure (chap s0) + 1\<rparr>\<rparr>
      in if chap_failure (chap s) = conf_chap_max_failure env then
           (if chap_started (chap s) then core_terminate core TERM_USER_ERROR False s else ppp_auth_failed core None s)
         else chap_send_challenge env False s)"

definition chap_restart_timer :: "ppp_env \<Rightarrow> 'z ppp_t_scheme \<Rightarrow> 'z ppp_t_scheme" where
  "chap_restart_timer env s = chap_send_challenge env True s"

definition chap_next_id :: "'z ppp_t_scheme \<Rightarrow> 'z ppp_t_scheme" where
  "chap_next_id s = s\<lparr>chap := (chap s)\<lparr>chap_id := chap_id (chap s) + 1\<rparr>\<rparr>"

definition chap_accept :: "'z ppp_t_scheme ppp_core \<Rightarrow> ppp_env \<Rightarrow> bytes \<Rightarrow> 'z ppp_t_scheme \<Rightarrow> 'z ppp_t_scheme" where
  "chap_accept core env name s0 =
     (let s = log_ev (Ev_let_in name) s0
      in if chap_started (chap s) then chap_send_success (chap_id (chap s)) s
         else
           (let (r, s1) = ppp_auth_succeeded env name s
            in if r \<noteq> 0 then core_terminate core TERM_AUTH_ERROR False (chap_send_failure s1)
               else
                 (let s2 = chap_send_success (chap_id (chap s1)) s1;
                      ad = (chap s2)\<lparr>chap_started := True\<rparr>
                  in s2\<lparr>chap := (if conf_interval env \<noteq> 0 then ad\<lparr>chap_interval_tpd := env_timer_ok (e_lcp env)\<rparr> else ad)\<rparr>)))"

definition chap_refuse :: "'z ppp_t_scheme ppp_core \<Rightarrow> term_cause \<Rightarrow> bytes option \<Rightarrow> 'z ppp_t_scheme \<Rightarrow> 'z ppp_t_scheme" where
  "chap_refuse core cause name s =
     (let s1 = chap_send_failure s
      in if chap_started (chap s1) then core_terminate core cause False s1 else ppp_auth_failed core name s1)"

definition chap_auth_result :: "'z ppp_t_scheme ppp_core \<Rightarrow> ppp_env \<Rightarrow> pwdb_res \<Rightarrow> 'z ppp_t_scheme \<Rightarrow> 'z ppp_t_scheme" where
  "chap_auth_result core env res s =
     (case chap_name (chap s) of
        None \<Rightarrow> fault s
      | Some name \<Rightarrow>
          (let s1 = s\<lparr>chap := (chap s)\<lparr>chap_name := None\<rparr>\<rparr>
           in chap_next_id (if res = PWDB_DENIED then chap_refuse core TERM_AUTH_ERROR (Some name) s1
                            else chap_accept core env name s1)))"

definition chap_any_login :: "'z ppp_t_scheme ppp_core \<Rightarrow> ppp_env \<Rightarrow> bytes \<Rightarrow> 'z ppp_t_scheme \<Rightarrow> 'z ppp_t_scheme" where
  "chap_any_login core env name s =
     (let (r, s1) = ppp_auth_succeeded env name (log_ev (Ev_let_in name) s)
      in if r \<noteq> 0 then core_terminate core TERM_AUTH_ERROR False (chap_send_failure s1)
         else (let s2 = chap_send_success (chap_id (chap s1)) s1
               in chap_next_id (s2\<lparr>chap := (chap s2)\<lparr>chap_started := True\<rparr>\<rparr>)))"

text \<open>The digest of RFC 1994 over the id, the password and the challenge.\<close>

definition chap_digest :: "u8 \<Rightarrow> bytes \<Rightarrow> bytes \<Rightarrow> bytes" where
  "chap_digest i passwd val = md5 ([i] @ passwd @ val)"

definition chap_check :: "'z ppp_t_scheme ppp_core \<Rightarrow> ppp_env \<Rightarrow> bytes \<Rightarrow> bytes \<Rightarrow> 'z ppp_t_scheme \<Rightarrow> 'z ppp_t_scheme" where
  "chap_check core env name response s =
     (case pwdb_check env name (Req_chap_md5 (chap_id (chap s)) (chap_val (chap s)) response) of
        PWDB_WAIT \<Rightarrow> s\<lparr>chap := (chap s)\<lparr>chap_name := Some name\<rparr>\<rparr>
      | PWDB_NO_IMPL \<Rightarrow>
          (case pwdb_get_passwd env name of
             None \<Rightarrow> chap_send_failure s
           | Some passwd \<Rightarrow>
               if chap_digest (hdr_id s) passwd (chap_val (chap s)) \<noteq> response then chap_refuse core TERM_USER_ERROR (Some name) s
               else chap_next_id (chap_accept core env name s))
      | PWDB_DENIED \<Rightarrow> chap_refuse core TERM_USER_ERROR (Some name) s
      | PWDB_SUCCESS \<Rightarrow> chap_next_id (chap_accept core env name s))"

definition chap_recv_response :: "'z ppp_t_scheme ppp_core \<Rightarrow> ppp_env \<Rightarrow> 'z ppp_t_scheme \<Rightarrow> 'z ppp_t_scheme" where
  "chap_recv_response core env s0 =
     (let s = s0\<lparr>chap := (chap s0)\<lparr>chap_timeout_tpd := False\<rparr>\<rparr>
      in if chap_started (chap s) \<and> uint (hdr_id s) = uint (chap_id (chap s)) - 1 then chap_send_success (hdr_id s) s
         else if chap_name (chap s) \<noteq> None then s
         else if hdr_id s \<noteq> chap_id (chap s) then s
         else if ppp_buf s ! 6 \<noteq> 16 then chap_refuse core TERM_USER_ERROR None s
         else
           (let n = size_t (int (hdr_len s) - 23 + 2);
                name = strndup (drop 23 (ppp_buf s)) n;
                s1 = (if strndup_overruns (drop 23 (ppp_buf s)) n then fault s else s)
            in if conf_any_login env then chap_any_login core env name s1
               else chap_check core env name (take 16 (drop 7 (ppp_buf s1))) s1))"

definition chap_recv :: "'z ppp_t_scheme ppp_core \<Rightarrow> ppp_env \<Rightarrow> 'z ppp_t_scheme \<Rightarrow> 'z ppp_t_scheme" where
  "chap_recv core env s =
     (if ppp_buf_size s < 6 \<or> hdr_len s < 4 \<or> hdr_len s > ppp_buf_size s - 2 then s
      else if hdr_code s = 2 then chap_recv_response core env s
      else s)"

section \<open>Starting and terminating\<close>

fun auth_start :: "ppp_env \<Rightarrow> auth_handler \<Rightarrow> 'z ppp_t_scheme \<Rightarrow> 'z ppp_t_scheme" where
  "auth_start env Auth_pap s = pap_start env s"
| "auth_start env Auth_chap_md5 s = chap_start env s"

definition auth_layer_start :: "'z ppp_t_scheme ppp_core \<Rightarrow> ppp_env \<Rightarrow> 'z ppp_t_scheme \<Rightarrow> int \<times> 'z ppp_t_scheme" where
  "auth_layer_start core env s =
     (case auth_cur s of
        Some i \<Rightarrow> (0, auth_start env (ad_h (auth_list s ! i)) (s\<lparr>auth_opt_started := True\<rparr>))
      | None \<Rightarrow> (0, core_started core L_auth s))"

definition auth_layer_finish :: "'z ppp_t_scheme ppp_core \<Rightarrow> 'z ppp_t_scheme \<Rightarrow> 'z ppp_t_scheme" where
  "auth_layer_finish core s =
     (let s1 = (case auth_cur s of Some i \<Rightarrow> auth_finish (ad_h (auth_list s ! i)) s | None \<Rightarrow> s)
      in core_finished core L_auth (s1\<lparr>auth_opt_started := False\<rparr>))"

text \<open>\<open>cfg\<close> is what is registered: the options of the link control protocol and the authentication protocols.\<close>

type_synonym reg = "opt_kind list \<times> auth_handler list"

fun layer_start :: "'z ppp_t_scheme ppp_core \<Rightarrow> ppp_env \<Rightarrow> reg \<Rightarrow> layer_id \<Rightarrow> 'z ppp_t_scheme \<Rightarrow> int \<times> 'z ppp_t_scheme" where
  "layer_start core env cfg L_lcp s = lcp_layer_start core (e_lcp env) (snd cfg) (fst cfg) (log_ev (Ev_start L_lcp) s)"
| "layer_start core env cfg L_auth s = auth_layer_start core env (log_ev (Ev_start L_auth) s)"
| "layer_start core env cfg (L_net n) s =
     (let (r, calls) = net_start env n in (r, run_calls core n calls (log_ev (Ev_start (L_net n)) s)))"

fun layer_finish :: "'z ppp_t_scheme ppp_core \<Rightarrow> ppp_env \<Rightarrow> layer_id \<Rightarrow> 'z ppp_t_scheme \<Rightarrow> 'z ppp_t_scheme" where
  "layer_finish core env L_lcp s = lcp_layer_finish core (e_lcp env) s"
| "layer_finish core env L_auth s = auth_layer_finish core s"
| "layer_finish core env (L_net n) s = run_calls core n (net_finish env n) s"

fun start_items :: "'z ppp_t_scheme ppp_core \<Rightarrow> ppp_env \<Rightarrow> reg \<Rightarrow> layer_id list \<Rightarrow> 'z ppp_t_scheme \<Rightarrow> 'z ppp_t_scheme" where
  "start_items core env cfg [] s = s"
| "start_items core env cfg (L # Ls) s =
     (let (r, s1) = layer_start core env cfg L (upd_layer L (\<lambda>d. d\<lparr>ld_starting := True\<rparr>) s)
      in if r \<noteq> 0 then core_terminate core TERM_NAS_ERROR False s1 else start_items core env cfg Ls s1)"

definition ap_session_starting :: "ppp_env \<Rightarrow> 'z ppp_t_scheme \<Rightarrow> int \<times> 'z ppp_t_scheme" where
  "ap_session_starting env s =
     (if e_shutdown env then (-1, s)
      else (0, s\<lparr>ses_state := AP_STATE_STARTING, stat_starting := stat_starting s + 1\<rparr>))"

definition ap_session_activate :: "ppp_env \<Rightarrow> 'z ppp_t_scheme \<Rightarrow> 'z ppp_t_scheme" where
  "ap_session_activate env s =
     (if e_shutdown env \<or> ses_stop_time s then s
      else log_ev Ev_active (s\<lparr>ses_state := AP_STATE_ACTIVE, stat_starting := stat_starting s - 1, stat_active := stat_active s + 1\<rparr>))"

definition layer_node_started :: "'z ppp_t_scheme ppp_core \<Rightarrow> ppp_env \<Rightarrow> reg \<Rightarrow> layer_id \<Rightarrow> 'z ppp_t_scheme \<Rightarrow> 'z ppp_t_scheme" where
  "layer_node_started core env cfg L s =
     (case from_node L (ppp_layers s) of
        [] \<Rightarrow> fault s
      | n # ns \<Rightarrow>
          if (\<exists>d \<in> set n. \<not> ld_started d \<and> \<not> ld_passive d) \<or> \<not> (\<exists>d \<in> set n. ld_started d \<and> \<not> ld_optional d) then s
          else
            (case ns of
               [] \<Rightarrow> if ses_state s = AP_STATE_STARTING then ap_session_activate env s else s
             | n' # _ \<Rightarrow> start_items core env cfg (map ld_layer n') s))"

definition layer_flag :: "(ppp_layer_data_t \<Rightarrow> bool) \<Rightarrow> layer_id \<Rightarrow> 'z ppp_t_scheme \<Rightarrow> bool" where
  "layer_flag f L s = (case ppp_find_layer_data (ppp_layers s) L of None \<Rightarrow> False | Some d \<Rightarrow> f d)"

definition ppp_layer_started :: "'z ppp_t_scheme ppp_core \<Rightarrow> ppp_env \<Rightarrow> reg \<Rightarrow> layer_id \<Rightarrow> 'z ppp_t_scheme \<Rightarrow> 'z ppp_t_scheme" where
  "ppp_layer_started core env cfg L s =
     (if layer_flag ld_started L s then s
      else layer_node_started core env cfg L (upd_layer L (\<lambda>d. d\<lparr>ld_started := True\<rparr>) s))"

definition ppp_layer_passive :: "'z ppp_t_scheme ppp_core \<Rightarrow> ppp_env \<Rightarrow> reg \<Rightarrow> layer_id \<Rightarrow> 'z ppp_t_scheme \<Rightarrow> 'z ppp_t_scheme" where
  "ppp_layer_passive core env cfg L s =
     (if layer_flag ld_started L s then s
      else layer_node_started core env cfg L (upd_layer L (\<lambda>d. d\<lparr>ld_passive := True\<rparr>) s))"

fun finish_items :: "'z ppp_t_scheme ppp_core \<Rightarrow> ppp_env \<Rightarrow> layer_id list \<Rightarrow> 'z ppp_t_scheme \<Rightarrow> bool \<times> 'z ppp_t_scheme" where
  "finish_items core env [] s = (False, s)"
| "finish_items core env (L # Ls) s =
     (if layer_flag ld_starting L s then (True, snd (finish_items core env Ls (layer_finish core env L s)))
      else finish_items core env Ls s)"

definition ppp_terminate :: "'z ppp_t_scheme ppp_core \<Rightarrow> ppp_env \<Rightarrow> bool \<Rightarrow> 'z ppp_t_scheme \<Rightarrow> bool \<times> 'z ppp_t_scheme" where
  "ppp_terminate core env hard s =
     (if ses_finish_started s then (False, s)
      else if hard then (False, destablish_ppp s)
      else
        (let (f, s1) = finish_items core env (map ld_layer (concat (ppp_layers s))) s
         in if \<not> f then (False, destablish_ppp s1) else (True, s1)))"

definition ap_session_terminate ::
    "'z ppp_t_scheme ppp_core \<Rightarrow> ppp_env \<Rightarrow> term_cause \<Rightarrow> bool \<Rightarrow> 'z ppp_t_scheme \<Rightarrow> 'z ppp_t_scheme" where
  "ap_session_terminate core env cause hard s0 =
     (if ses_finish_started s0 then s0
      else
        (let s = s0\<lparr>ses_stop_time := True,
                   ses_terminate_cause := (case ses_terminate_cause s0 of None \<Rightarrow> Some cause | Some c \<Rightarrow> Some c)\<rparr>
         in if ses_terminating s then (if hard then snd (ppp_terminate core env hard s) else s)
            else
              (let s1 = (if ses_state s = AP_STATE_ACTIVE then s\<lparr>stat_active := stat_active s - 1\<rparr>
                         else s\<lparr>stat_starting := stat_starting s - 1\<rparr>);
                   s2 = s1\<lparr>stat_finishing := stat_finishing s1 + 1, ses_terminating := True, ses_state := AP_STATE_FINISHING\<rparr>;
                   (r, s3) = ppp_terminate core env hard s2
               in if r then (log_ev Ev_down s3)\<lparr>ses_down := True\<rparr> else s3)))"

text \<open>A network layer makes calls of its own, on a packet or a timer, once it has been started.\<close>

definition net_event :: "'z ppp_t_scheme ppp_core \<Rightarrow> net_id \<Rightarrow> net_call list \<Rightarrow> 'z ppp_t_scheme \<Rightarrow> 'z ppp_t_scheme" where
  "net_event core n calls s = (if Ev_start (L_net n) \<in> set (ses_log s) then run_calls core n calls s else s)"

definition ppp_recv_proto_rej :: "'z ppp_t_scheme ppp_core \<Rightarrow> ppp_env \<Rightarrow> u16 \<Rightarrow> 'z ppp_t_scheme \<Rightarrow> 'z ppp_t_scheme" where
  "ppp_recv_proto_rej core env proto s =
     (if proto = 0xc021 \<or> proto = 0xc023 \<and> Auth_pap \<in> ad_h ` set (auth_list s) \<or> proto = 0xc223 \<and> chap_registered (chap s) then s
      else (case net_proto_rej env proto of None \<Rightarrow> s | Some (n, calls) \<Rightarrow> net_event core n calls s))"

abbreviation too_deep :: "'z ppp_t_scheme \<Rightarrow> 'z ppp_t_scheme" where
  "too_deep s \<equiv> s\<lparr>ppp_deep := True\<rparr>"

text \<open>The calls into the session, nested at most \<open>n\<close> deep.\<close>

primrec ppp_core_of :: "ppp_env \<Rightarrow> reg \<Rightarrow> nat \<Rightarrow> 'z ppp_t_scheme ppp_core" where
  "ppp_core_of env cfg 0 =
     \<lparr>core_started = \<lambda>_. too_deep, core_passive = \<lambda>_. too_deep, core_finished = \<lambda>_. too_deep, core_post_finished = too_deep,
      core_terminate = \<lambda>_ _. too_deep, core_proto_rej = \<lambda>_. too_deep\<rparr>"
| "ppp_core_of env cfg (Suc n) =
     \<lparr>core_started = ppp_layer_started (ppp_core_of env cfg n) env cfg,
      core_passive = ppp_layer_passive (ppp_core_of env cfg n) env cfg,
      core_finished = ppp_layer_finished,
      core_post_finished = \<lambda>s. s\<lparr>ctx_calls := ctx_calls s @ [Post_lcp_finished]\<rparr>,
      core_terminate = ap_session_terminate (ppp_core_of env cfg n) env,
      core_proto_rej = ppp_recv_proto_rej (ppp_core_of env cfg n) env\<rparr>"

text \<open>Three levels are enough, as shown below.\<close>

definition ppp_core :: "ppp_env \<Rightarrow> reg \<Rightarrow> 'z ppp_t_scheme ppp_core" where
  "ppp_core env cfg = ppp_core_of env cfg 3"

section \<open>Events\<close>

definition ppp_init :: "fsm_conf \<Rightarrow> u8 \<Rightarrow> ppp_t" where
  "ppp_init c rnd = ppp_fsm_init c rnd
     \<lparr>fsm_state = FSM_Initial, fsm_proto = 0xc021, restart_timer_tpd = False, restart_timer_period = 0, restart_counter = 0,
      max_terminate = 0, max_configure = 0, max_failure = 0, conf_failure = 0, fsm_id = 0, recv_id = 0, lcp_options = [],
      echo_timer_tpd = False, echo_timer_period = 0, echo_sent = 0, lcp_magic = 0, last_ipackets = 0, last_echo_ts = 0,
      ropt_list = [], ropt_len = 0, conf_req_len = 0, lcp_started = False, auth_list = [], auth_cur = None, ppp_mtu = 0,
      ppp_mru = 0, ppp_comp_prot = False, ppp_comp_ac = False, ses_terminating = False, ppp_buf = replicate 8192 0,
      ppp_buf_size = 0, ppp_sent = [], ppp_fault = False, auth_opt_started = False,
      pap = \<lparr>pap_timeout_tpd = False, pap_peer_id = None, pap_req_id = 0, pap_started = False, pap_active = False\<rparr>,
      chap = \<lparr>chap_id = 0, chap_val = replicate 16 0, chap_timeout_tpd = False, chap_interval_tpd = False, chap_failure = 0,
        chap_name = None, chap_started = False, chap_registered = False\<rparr>,
      ppp_layers = [], ses_state = AP_STATE_INIT, ses_finish_started = False, ses_down = False, ses_stop_time = False,
      ses_terminate_cause = None, ses_username = None, ctx_calls = [], stat_starting = 0, stat_active = 0, stat_finishing = 0,
      ppp_deep = False, ses_log = []\<rparr>"

definition start_first_layer :: "ppp_env \<Rightarrow> reg \<Rightarrow> 'z ppp_t_scheme \<Rightarrow> 'z ppp_t_scheme" where
  "start_first_layer env cfg s = start_items (ppp_core env cfg) env cfg (map ld_layer (hd (ppp_layers s))) s"

definition establish_ppp ::
    "ppp_env \<Rightarrow> reg \<Rightarrow> (int \<times> layer_id list) list \<Rightarrow> bool \<Rightarrow> 'z ppp_t_scheme \<Rightarrow> int \<times> 'z ppp_t_scheme" where
  "establish_ppp env cfg layers ccp_optional s =
     (if e_shutdown env then (-1, s)
      else
        (let s1 = init_layers layers ccp_optional s
         in if ppp_layers s1 = [] then (-1, s1)
            else
              (let (r, s2) = ap_session_starting env s1
               in if r \<noteq> 0 then (-1, s2) else (0, start_first_layer env cfg s2))))"

text \<open>
  \<open>ppp_packet_read\<close>: the packet was copied to the start of the buffer. The frames of IPv6 itself go to other
  handlers of the daemon and are not seen here.
\<close>

definition ppp_packet_read :: "ppp_env \<Rightarrow> reg \<Rightarrow> bytes \<Rightarrow> nat \<Rightarrow> 'z ppp_t_scheme \<Rightarrow> 'z ppp_t_scheme" where
  "ppp_packet_read env cfg buf n s0 =
     (let s = s0\<lparr>ppp_buf := buf, ppp_buf_size := n\<rparr>; core = ppp_core env cfg; proto = rd16 buf
      in if n < 2 then s
         else if proto = 0xc021 then lcp_recv core (e_lcp env) s
         else if proto = 0xc023 \<and> Auth_pap \<in> ad_h ` set (auth_list s) then pap_recv core env s
         else if proto = 0xc223 \<and> chap_registered (chap s) then chap_recv core env s
         else (case net_packet env proto of
                 Some (k, calls) \<Rightarrow> net_event core k calls s
               | None \<Rightarrow> lcp_send_proto_rej proto s))"

definition run_posted :: "ppp_env \<Rightarrow> reg \<Rightarrow> 'z ppp_t_scheme \<Rightarrow> 'z ppp_t_scheme" where
  "run_posted env cfg s =
     (case ctx_calls s of
        [] \<Rightarrow> s
      | Post_lcp_finished # cs \<Rightarrow> ppp_layer_finished L_lcp (s\<lparr>ctx_calls := cs\<rparr>)
      | Post_auth_started # cs \<Rightarrow> ppp_auth_started (ppp_core env cfg) (s\<lparr>ctx_calls := cs\<rparr>))"

datatype ppp_event =
    Packet bytes nat | T_restart | T_echo | T_pap | T_chap | T_chap_interval | Run_posted
  | Pap_result pwdb_res | Chap_result pwdb_res | Net_event net_id "net_call list" | Terminate term_cause bool

fun ppp_handle :: "ppp_env \<Rightarrow> reg \<Rightarrow> ppp_event \<Rightarrow> 'z ppp_t_scheme \<Rightarrow> 'z ppp_t_scheme" where
  "ppp_handle env cfg (Packet buf n) s = ppp_packet_read env cfg buf n s"
| "ppp_handle env cfg T_restart s =
     (if restart_timer_tpd s then restart_timer_func (lcp_ops (ppp_core env cfg) (e_lcp env)) s else s)"
| "ppp_handle env cfg T_echo s = (if echo_timer_tpd s then send_echo_request (ppp_core env cfg) (e_lcp env) s else s)"
| "ppp_handle env cfg T_pap s = (if pap_timeout_tpd (pap s) then pap_timeout (ppp_core env cfg) s else s)"
| "ppp_handle env cfg T_chap s = (if chap_timeout_tpd (chap s) then chap_timeout_timer (ppp_core env cfg) env s else s)"
| "ppp_handle env cfg T_chap_interval s = (if chap_interval_tpd (chap s) then chap_restart_timer env s else s)"
| "ppp_handle env cfg Run_posted s = run_posted env cfg s"
| "ppp_handle env cfg (Pap_result r) s = (if pap_peer_id (pap s) \<noteq> None then pap_auth_result (ppp_core env cfg) env r s else s)"
| "ppp_handle env cfg (Chap_result r) s = (if chap_name (chap s) \<noteq> None then chap_auth_result (ppp_core env cfg) env r s else s)"
| "ppp_handle env cfg (Net_event n calls) s = net_event (ppp_core env cfg) n calls s"
| "ppp_handle env cfg (Terminate c h) s = ap_session_terminate (ppp_core env cfg) env c h s"

text \<open>A session that is finished is gone; nothing happens to it.\<close>

definition ppp_step :: "reg \<Rightarrow> ppp_env \<times> ppp_event \<Rightarrow> 'z ppp_t_scheme \<Rightarrow> 'z ppp_t_scheme" where
  "ppp_step cfg ee s = (if ses_finish_started s then s else ppp_handle (fst ee) cfg (snd ee) s)"

definition ppp_run :: "reg \<Rightarrow> (ppp_env \<times> ppp_event) list \<Rightarrow> 'z ppp_t_scheme \<Rightarrow> 'z ppp_t_scheme" where
  "ppp_run cfg evs s = fold (ppp_step cfg) evs s"

end
