(* ===== verification/Ppp_Session_Correct.thy ===== *)
theory Ppp_Session_Correct
  imports Ppp_Session
begin

text \<open>
  What a PPP session keeps to whatever its peer, the clock and the network layers do: no network layer starts before
  the password databases let the peer in, a session is counted once and ends once, and its calls nest three deep at most.
\<close>

section \<open>Logs\<close>

text \<open>Every event with \<open>P\<close> is preceded by one with \<open>Q\<close>.\<close>

definition preceded :: "('e \<Rightarrow> bool) \<Rightarrow> ('e \<Rightarrow> bool) \<Rightarrow> 'e list \<Rightarrow> bool" where
  "preceded P Q es \<longleftrightarrow> (\<forall>pre e post. es = pre @ e # post \<and> P e \<longrightarrow> (\<exists>q \<in> set pre. Q q))"

lemma preceded_Nil [simp]: "preceded P Q []"
  by (simp add: preceded_def)

lemma preceded_snoc [simp]: "preceded P Q (es @ [e]) \<longleftrightarrow> preceded P Q es \<and> (P e \<longrightarrow> (\<exists>q \<in> set es. Q q))"
proof
  assume p: "preceded P Q (es @ [e])"
  have "preceded P Q es" unfolding preceded_def
  proof (intro allI impI)
    fix pre x post assume "es = pre @ x # post \<and> P x"
    then have "es @ [e] = pre @ x # (post @ [e]) \<and> P x" by simp
    then show "\<exists>q \<in> set pre. Q q" using p unfolding preceded_def by blast
  qed
  then show "preceded P Q es \<and> (P e \<longrightarrow> (\<exists>q \<in> set es. Q q))" using p unfolding preceded_def by blast
next
  assume p: "preceded P Q es \<and> (P e \<longrightarrow> (\<exists>q \<in> set es. Q q))"
  show "preceded P Q (es @ [e])" unfolding preceded_def
  proof (intro allI impI)
    fix pre x post assume x: "es @ [e] = pre @ x # post \<and> P x"
    show "\<exists>q \<in> set pre. Q q"
    proof (cases post rule: rev_cases)
      case Nil
      then show ?thesis using x p by simp
    next
      case (snoc post' y)
      then have "es = pre @ x # post'" using x by simp
      then show ?thesis using x p unfolding preceded_def by blast
    qed
  qed
qed

section \<open>The invariant\<close>

lemma core_of_sel [simp]:
  "core_started (ppp_core_of env cfg (Suc n)) = ppp_layer_started (ppp_core_of env cfg n) env cfg"
  "core_passive (ppp_core_of env cfg (Suc n)) = ppp_layer_passive (ppp_core_of env cfg n) env cfg"
  "core_finished (ppp_core_of env cfg (Suc n)) = ppp_layer_finished"
  "core_post_finished (ppp_core_of env cfg (Suc n)) = (\<lambda>s. s\<lparr>ctx_calls := ctx_calls s @ [Post_lcp_finished]\<rparr>)"
  "core_terminate (ppp_core_of env cfg (Suc n)) = ap_session_terminate (ppp_core_of env cfg n) env"
  "core_proto_rej (ppp_core_of env cfg (Suc n)) = ppp_recv_proto_rej (ppp_core_of env cfg n) env"
  by simp_all

declare ppp_core_of.simps [simp del]

fun gated :: "ses_event \<Rightarrow> bool" where
  "gated (Ev_start (L_net n)) = True"
| "gated Ev_active = True"
| "gated _ = False"

fun is_let_in :: "ses_event \<Rightarrow> bool" where
  "is_let_in (Ev_let_in u) = True"
| "is_let_in _ = False"

abbreviation authorized :: "'z ppp_t_scheme \<Rightarrow> bool" where
  "authorized s \<equiv> Ev_authorized \<in> set (ses_log s)"

abbreviation let_in :: "'z ppp_t_scheme \<Rightarrow> bool" where
  "let_in s \<equiv> \<exists>e \<in> set (ses_log s). is_let_in e"

text \<open>A session counts in the counter of its state, until it is finished.\<close>

definition counted :: "'z ppp_t_scheme \<Rightarrow> bool" where
  "counted s \<longleftrightarrow> (stat_starting s, stat_active s, stat_finishing s) =
     (if ses_finish_started s then (0, 0, 0)
      else case ses_state s of AP_STATE_INIT \<Rightarrow> (0, 0, 0) | AP_STATE_STARTING \<Rightarrow> (1, 0, 0) | AP_STATE_ACTIVE \<Rightarrow> (0, 1, 0)
           | AP_STATE_FINISHING \<Rightarrow> (0, 0, 1)) \<and>
     ses_state s \<noteq> AP_STATE_INIT \<and> (ses_terminating s \<longleftrightarrow> ses_state s = AP_STATE_FINISHING)"

definition ends_once :: "'z ppp_t_scheme \<Rightarrow> bool" where
  "ends_once s \<longleftrightarrow> count_list (ses_log s) Ev_finished = (if ses_finish_started s then 1 else 0)"

text \<open>The nodes of the layers, until they are freed.\<close>

definition shaped :: "ppp_layer_data_t list list \<Rightarrow> bool" where
  "shaped ns \<longleftrightarrow> ns = [] \<or> map (map ld_layer) ns = [[L_lcp], [L_auth]] \<or>
     (\<exists>nets. map (map ld_layer) ns = [[L_lcp], [L_auth], map L_net nets])"

text \<open>The authentication layer reported that it is up, or a layer above it is starting.\<close>

definition gate_open :: "ppp_layer_data_t \<Rightarrow> bool" where
  "gate_open d \<longleftrightarrow> (case ld_layer d of L_lcp \<Rightarrow> False | L_auth \<Rightarrow> ld_started d | L_net n \<Rightarrow> ld_starting d)"

definition sess_ok :: "'z ppp_t_scheme \<Rightarrow> bool" where
  "sess_ok s \<longleftrightarrow> shaped (ppp_layers s) \<and> preceded gated (\<lambda>e. e = Ev_authorized) (ses_log s) \<and>
     preceded (\<lambda>e. e = Ev_authorized) is_let_in (ses_log s) \<and>
     (\<forall>d \<in> set (concat (ppp_layers s)). gate_open d \<longrightarrow> authorized s) \<and>
     (Post_auth_started \<in> set (ctx_calls s) \<longrightarrow> let_in s) \<and> counted s \<and> ends_once s \<and> \<not> ppp_deep s"

text \<open>The layers of a session that is finished are freed.\<close>

definition sess_gone :: "'z ppp_t_scheme \<Rightarrow> bool" where
  "sess_gone s \<longleftrightarrow> (ses_finish_started s \<longrightarrow> ppp_layers s = [])"

definition lcp_ready :: "int \<Rightarrow> 'z ppp_t_scheme \<Rightarrow> bool" where
  "lcp_ready M s \<longleftrightarrow> lcp_wf M s \<and> auth_list s \<noteq> [] \<and> 3 \<in> set (map lo_id (lcp_options s))"

text \<open>
  The invariant, with two switches: \<open>A\<close> for a session that is authorized and \<open>T\<close> for one that terminates.
\<close>

definition ppp_inv :: "int \<Rightarrow> bool \<Rightarrow> bool \<Rightarrow> 'z ppp_t_scheme \<Rightarrow> bool" where
  "ppp_inv M A T s \<longleftrightarrow> lcp_ready M s \<and> sess_ok s \<and> sess_gone s \<and> (A \<longrightarrow> authorized s) \<and> (T \<longrightarrow> ses_terminating s)"

text \<open>The part of the session that the link control protocol depends on; the rest of the session leaves it alone.\<close>

definition lcp_part :: "'z ppp_t_scheme \<Rightarrow> lcp_option_t list \<times> int \<times> auth_data_t list \<times> nat option \<times> int \<times> FSM_STATE" where
  "lcp_part s = (lcp_options s, conf_req_len s, auth_list s, auth_cur s, ppp_mtu s, fsm_state s)"

lemma lcp_ready_part: "lcp_part t = lcp_part s \<Longrightarrow> lcp_ready M t = lcp_ready M s"
  by (simp add: lcp_part_def lcp_ready_def lcp_wf_def)

lemma chosen_part: "lcp_part t = lcp_part s \<Longrightarrow> chosen t = chosen s"
  by (simp add: lcp_part_def chosen_def)

lemma state_part: "lcp_part t = lcp_part s \<Longrightarrow> fsm_state t = fsm_state s"
  by (simp add: lcp_part_def)

text \<open>A step of the session that leaves the link control protocol alone.\<close>

definition sess_step0 :: "'z ppp_t_scheme \<Rightarrow> 'z ppp_t_scheme \<Rightarrow> bool" where
  "sess_step0 s t \<longleftrightarrow> lcp_part t = lcp_part s \<and> (ses_terminating s \<longrightarrow> ses_terminating t) \<and> set (ses_log s) \<subseteq> set (ses_log t) \<and>
     (sess_ok s \<longrightarrow> sess_ok t)"

definition sess_step :: "'z ppp_t_scheme \<Rightarrow> 'z ppp_t_scheme \<Rightarrow> bool" where
  "sess_step s t \<longleftrightarrow> sess_step0 s t \<and> (sess_gone s \<longrightarrow> sess_gone t)"

lemmas sess_step_defs = sess_step_def sess_step0_def

lemma sess_step_refl [simp]: "sess_step s s"
  by (simp add: sess_step_defs)

lemma sess_step_trans [trans]: "sess_step s t \<Longrightarrow> sess_step t u \<Longrightarrow> sess_step s u"
  by (auto simp: sess_step_defs)

lemma rel_step:
  assumes "ppp_inv M A T s \<Longrightarrow> sess_step s t"
  shows "client_rel (ppp_inv M A T) chosen s t"
  using assms lcp_ready_part [of t s] chosen_part [of t s] state_part [of t s]
  by (auto simp: sess_step_defs client_rel_def client_ok_def ppp_inv_def)

lemma inv_ok: "ppp_inv M A T s \<Longrightarrow> sess_ok s" "ppp_inv M A T s \<Longrightarrow> sess_gone s"
  by (simp_all add: ppp_inv_def)

lemma rel_authorized:
  "authorized s \<Longrightarrow> client_rel (ppp_inv M True T) chosen s t \<Longrightarrow> client_rel (ppp_inv M A T) chosen s t"
  by (auto simp: client_rel_def client_ok_def ppp_inv_def)

lemma rel_terminating:
  "ses_terminating s \<Longrightarrow> client_rel (ppp_inv M A True) chosen s t \<Longrightarrow> client_rel (ppp_inv M A T) chosen s t"
  by (auto simp: client_rel_def client_ok_def ppp_inv_def)

section \<open>Operations that call nothing\<close>

lemma part_upd [simp]:
  "lcp_part (s\<lparr>ppp_layers := ls\<rparr>) = lcp_part s" "lcp_part (s\<lparr>ctx_calls := cs\<rparr>) = lcp_part s"
  "lcp_part (s\<lparr>ses_log := es\<rparr>) = lcp_part s" "lcp_part (s\<lparr>pap := p\<rparr>) = lcp_part s" "lcp_part (s\<lparr>chap := c\<rparr>) = lcp_part s"
  "lcp_part (s\<lparr>auth_opt_started := b\<rparr>) = lcp_part s" "lcp_part (s\<lparr>ses_username := u\<rparr>) = lcp_part s"
  "lcp_part (s\<lparr>ses_finish_started := b\<rparr>) = lcp_part s" "lcp_part (s\<lparr>ses_state := st\<rparr>) = lcp_part s"
  "lcp_part (s\<lparr>stat_starting := i\<rparr>) = lcp_part s" "lcp_part (s\<lparr>stat_active := i\<rparr>) = lcp_part s"
  "lcp_part (s\<lparr>stat_finishing := i\<rparr>) = lcp_part s" "lcp_part (s\<lparr>ses_stop_time := b\<rparr>) = lcp_part s"
  "lcp_part (s\<lparr>ses_terminate_cause := c'\<rparr>) = lcp_part s" "lcp_part (s\<lparr>ses_terminating := b\<rparr>) = lcp_part s"
  "lcp_part (s\<lparr>ses_down := b\<rparr>) = lcp_part s" "lcp_part (s\<lparr>ppp_fault := b\<rparr>) = lcp_part s"
  "lcp_part (s\<lparr>ppp_buf := buf\<rparr>) = lcp_part s" "lcp_part (s\<lparr>ppp_buf_size := n\<rparr>) = lcp_part s"
  by (simp_all add: lcp_part_def)

lemma part_chan_send [simp]: "lcp_part (ppp_chan_send data s) = lcp_part s"
  by (simp add: ppp_chan_send_def lcp_part_def)

lemma part_echo [simp]: "lcp_part (stop_echo s) = lcp_part s" "lcp_part (ppp_fsm_free s) = lcp_part s"
  by (simp_all add: stop_echo_def ppp_fsm_free_def stop_timer_def lcp_part_def)

lemma part_upd_layer [simp]: "lcp_part (upd_layer L f s) = lcp_part s"
  by (simp add: upd_layer_def)

lemma sess_ok_more: "ppp_lcp_t.more t = ppp_lcp_t.more s \<Longrightarrow> ses_terminating t = ses_terminating s \<Longrightarrow> sess_ok t = sess_ok s"
  by (cases s, cases t) (simp add: sess_ok_def counted_def ends_once_def)

lemma sess_ok_chan_send [simp]: "sess_ok (ppp_chan_send data s) = sess_ok s"
  by (rule sess_ok_more) (simp_all add: ppp_chan_send_def)

lemma sess_ok_upd [simp]:
  "sess_ok (s\<lparr>pap := p\<rparr>) = sess_ok s" "sess_ok (s\<lparr>chap := c\<rparr>) = sess_ok s" "sess_ok (s\<lparr>auth_opt_started := b\<rparr>) = sess_ok s"
  "sess_ok (s\<lparr>ses_username := u\<rparr>) = sess_ok s" "sess_ok (s\<lparr>ses_stop_time := b\<rparr>) = sess_ok s"
  "sess_ok (s\<lparr>ses_terminate_cause := c'\<rparr>) = sess_ok s" "sess_ok (s\<lparr>ses_down := b\<rparr>) = sess_ok s" "sess_ok (s\<lparr>ppp_fault := b\<rparr>) = sess_ok s"
  "sess_ok (s\<lparr>ppp_buf := buf\<rparr>) = sess_ok s" "sess_ok (s\<lparr>ppp_buf_size := n\<rparr>) = sess_ok s"
  by (simp_all add: sess_ok_def counted_def ends_once_def)

lemma sess_gone_upd [simp]:
  "sess_gone (s\<lparr>pap := p\<rparr>) = sess_gone s" "sess_gone (s\<lparr>chap := c\<rparr>) = sess_gone s"
  "sess_gone (s\<lparr>auth_opt_started := b\<rparr>) = sess_gone s" "sess_gone (s\<lparr>ses_username := u\<rparr>) = sess_gone s"
  "sess_gone (s\<lparr>ses_stop_time := b\<rparr>) = sess_gone s" "sess_gone (s\<lparr>ses_terminate_cause := c'\<rparr>) = sess_gone s"
  "sess_gone (s\<lparr>ses_down := b\<rparr>) = sess_gone s" "sess_gone (s\<lparr>ppp_fault := b\<rparr>) = sess_gone s"
  "sess_gone (s\<lparr>ppp_buf := buf\<rparr>) = sess_gone s" "sess_gone (s\<lparr>ppp_buf_size := n\<rparr>) = sess_gone s"
  "sess_gone (s\<lparr>ctx_calls := cs\<rparr>) = sess_gone s" "sess_gone (s\<lparr>ses_log := es\<rparr>) = sess_gone s"
  "sess_gone (s\<lparr>ses_terminating := b\<rparr>) = sess_gone s" "sess_gone (s\<lparr>ses_state := st\<rparr>) = sess_gone s"
  "sess_gone (s\<lparr>stat_starting := i\<rparr>) = sess_gone s" "sess_gone (s\<lparr>stat_active := i\<rparr>) = sess_gone s"
  "sess_gone (s\<lparr>stat_finishing := i\<rparr>) = sess_gone s" "sess_gone (ppp_chan_send data s) = sess_gone s"
  "sess_gone (upd_layer L f s) = sess_gone s" "sess_gone (stop_echo s) = sess_gone s" "sess_gone (ppp_fsm_free s) = sess_gone s"
  by (simp_all add: sess_gone_def ppp_chan_send_def upd_layer_def stop_echo_def ppp_fsm_free_def stop_timer_def)

lemma terminating_plain [simp]:
  "ses_terminating (ppp_chan_send data s) = ses_terminating s" "ses_terminating (upd_layer L f s) = ses_terminating s"
  "ses_terminating (stop_echo s) = ses_terminating s" "ses_terminating (ppp_fsm_free s) = ses_terminating s"
  by (simp_all add: ppp_chan_send_def upd_layer_def stop_echo_def ppp_fsm_free_def stop_timer_def)

lemma log_plain [simp]:
  "ses_log (ppp_chan_send data s) = ses_log s" "ses_log (upd_layer L f s) = ses_log s"
  "ses_log (stop_echo s) = ses_log s" "ses_log (ppp_fsm_free s) = ses_log s"
  by (simp_all add: ppp_chan_send_def upd_layer_def stop_echo_def ppp_fsm_free_def stop_timer_def)

lemma sess_ok_plain [simp]: "sess_ok (stop_echo s) = sess_ok s" "sess_ok (ppp_fsm_free s) = sess_ok s"
  by (rule sess_ok_more; simp add: stop_echo_def ppp_fsm_free_def stop_timer_def)+

subsection \<open>Events of the log\<close>

lemma sess_ok_log:
  assumes "sess_ok s" "gated e \<Longrightarrow> authorized s" "e = Ev_authorized \<Longrightarrow> let_in s" "e \<noteq> Ev_finished"
  shows "sess_ok (log_ev e s)"
  using assms by (auto simp: sess_ok_def counted_def ends_once_def)

subsection \<open>Layers\<close>

lemma shaped_upd_layer:
  assumes "\<And>d. ld_layer (f d) = ld_layer d"
  shows "shaped (map (map (\<lambda>d. if ld_layer d = L then f d else d)) ns) = shaped ns"
proof -
  have "map (map ld_layer) (map (map (\<lambda>d. if ld_layer d = L then f d else d)) ns) = map (map ld_layer) ns"
    using assms by (simp add: comp_def if_distrib [of ld_layer] cong: if_cong)
  then show ?thesis by (simp only: shaped_def map_is_Nil_conv)
qed

lemma sess_ok_upd_layer:
  assumes "sess_ok s" "\<And>d. ld_layer (f d) = ld_layer d" "\<And>d. ld_layer d = L \<Longrightarrow> gate_open (f d) \<Longrightarrow> gate_open d \<or> authorized s"
  shows "sess_ok (upd_layer L f s)"
proof -
  define g where "g d = (if ld_layer d = L then f d else d)" for d
  have "gate_open (g d) \<longrightarrow> authorized s" if "d \<in> set (concat (ppp_layers s))" for d
    using assms(1,3) that unfolding sess_ok_def g_def by (cases "ld_layer d = L") auto
  then have "\<forall>d \<in> set (concat (map (map g) (ppp_layers s))). gate_open d \<longrightarrow> authorized s" by auto
  moreover have "ppp_layers (upd_layer L f s) = map (map g) (ppp_layers s)"
    by (simp add: upd_layer_def g_def [abs_def])
  ultimately have "\<forall>d \<in> set (concat (ppp_layers (upd_layer L f s))). gate_open d \<longrightarrow> authorized s" by (simp only:)
  then show ?thesis using assms(1) shaped_upd_layer [of f L "ppp_layers s", OF assms(2)]
    by (simp add: sess_ok_def counted_def ends_once_def upd_layer_def)
qed

lemma step_finished: "sess_step0 s (ap_session_finished s)"
  by (cases "ses_state s")
    (auto simp: sess_step0_def ap_session_finished_def log_if_up_def Let_def sess_ok_def counted_def ends_once_def)

lemma step_auth_frees: "sess_step s (auth_finish h s)" "sess_step s (auth_data_free h s)"
  by (cases h; simp add: sess_step_defs pap_finish_def chap_finish_def pap_data_free_def chap_data_free_def)+

lemma step_fold: "(\<And>x s. sess_step s (f x s)) \<Longrightarrow> sess_step s (fold f xs s)"
proof (induction xs arbitrary: s)
  case (Cons x xs)
  have "sess_step (f x s) (fold f xs (f x s))" by (rule Cons.IH [OF Cons.prems])
  then show ?case using sess_step_trans [OF Cons.prems [of s x]] by simp
qed simp

lemma step_fields:
  "sess_step s (s\<lparr>pap := p\<rparr>)" "sess_step s (s\<lparr>chap := c\<rparr>)" "sess_step s (s\<lparr>auth_opt_started := b\<rparr>)"
  "sess_step s (s\<lparr>ses_username := u\<rparr>)" "sess_step s (s\<lparr>ses_terminate_cause := c'\<rparr>)" "sess_step s (s\<lparr>ppp_fault := b\<rparr>)"
  "sess_step s (s\<lparr>ppp_buf := buf, ppp_buf_size := n\<rparr>)" "sess_step s (ppp_chan_send data s)"
  "sess_step s (s\<lparr>ctx_calls := filter P (ctx_calls s)\<rparr>)" "sess_step s (stop_echo s)" "sess_step s (ppp_fsm_free s)"
  "sess_step s (s\<lparr>ctx_calls := ctx_calls s @ [Post_lcp_finished]\<rparr>)"
  "sess_step s (s\<lparr>ses_stop_time := b, ses_terminate_cause := c'\<rparr>)"
  by (auto simp: sess_step_defs) (auto simp: sess_ok_def counted_def ends_once_def)

lemma step_auth_free: "sess_step s (auth_free s)"
proof -
  let ?s1 = "case auth_cur s of
      Some i \<Rightarrow> if auth_opt_started s then (auth_finish (ad_h (auth_list s ! i)) s)\<lparr>auth_opt_started := False\<rparr> else s | None \<Rightarrow> s"
  have "sess_step s ?s1"
    by (auto split: option.split intro: sess_step_trans [OF step_auth_frees(1) step_fields(3)])
  then show ?thesis unfolding auth_free_def Let_def
    by (rule sess_step_trans) (rule step_fold, rule step_auth_frees)
qed

lemma step_layer_free: "sess_step s (layer_free L s)"
proof (cases L)
  case L_lcp
  have "sess_step s (ppp_fsm_free (auth_free (stop_echo s)))"
    by (rule sess_step_trans [OF sess_step_trans [OF step_fields(10) step_auth_free] step_fields(11)])
  then show ?thesis using L_lcp by (simp add: lcp_layer_free_def Let_def) (rule sess_step_trans, assumption, rule step_fields)
qed (simp_all add: auth_layer_free_def step_fields)

lemma step_free_layers: "sess_step s (free_layers s)"
proof -
  let ?s1 = "fold layer_free (map ld_layer (concat (ppp_layers s))) s"
  have "sess_step s ?s1" by (rule step_fold [OF step_layer_free])
  moreover have "sess_step ?s1 (?s1\<lparr>ppp_layers := []\<rparr>)"
    by (auto simp: sess_step_defs sess_ok_def shaped_def counted_def ends_once_def sess_gone_def)
  ultimately show ?thesis unfolding free_layers_def by (rule sess_step_trans)
qed

lemma step_destablish: "sess_step s (destablish_ppp s)"
proof -
  have "sess_gone (free_layers u)" for u :: "'a ppp_t_scheme" by (simp add: free_layers_def sess_gone_def)
  moreover have "sess_step0 s (free_layers (ap_session_finished s))"
    using step_finished [of s] step_free_layers [of "ap_session_finished s"] by (auto simp: sess_step_def sess_step0_def)
  ultimately show ?thesis by (simp add: destablish_ppp_def sess_step_def [of s "free_layers u" for u])
qed

lemma step_upd_layer:
  assumes "\<And>d. ld_layer (f d) = ld_layer d" "\<And>d. ld_layer d = L \<Longrightarrow> gate_open (f d) \<Longrightarrow> gate_open d \<or> authorized s"
  shows "sess_step s (upd_layer L f s)"
  using sess_ok_upd_layer [OF _ assms] by (simp add: sess_step_defs)

lemma step_layer_finished: "sess_step s (ppp_layer_finished L s)"
proof -
  let ?s1 = "upd_layer L (\<lambda>d. d\<lparr>ld_finished := True, ld_starting := False\<rparr>) s"
  have u: "sess_step s ?s1" by (rule step_upd_layer) (simp_all add: gate_open_def split: layer_id.splits)
  from sess_step_trans [OF u step_destablish] u show ?thesis by (simp add: ppp_layer_finished_def Let_def)
qed

section \<open>Calls that do not nest\<close>

lemma step_log:
  assumes "gated e \<Longrightarrow> authorized s" "e = Ev_authorized \<Longrightarrow> let_in s" "e \<noteq> Ev_finished"
  shows "sess_step s (log_ev e s)"
  using sess_ok_log [OF _ assms] by (auto simp: sess_step_defs)

lemma step_chap_challenge: "sess_step s (chap_send_challenge env new s)"
proof -
  define s1 where "s1 = (if new then s\<lparr>chap := (chap s)\<lparr>chap_val := e_urandom env\<rparr>\<rparr> else s)"
  define s2 where "s2 = ppp_chan_send (chap_msg 1 (chap_id (chap s1)) ([16] @ chap_val (chap s1) @ conf_challenge_name env)) s1"
  have s2: "sess_step s s2" unfolding s2_def
    by (rule sess_step_trans [OF _ step_fields(8)]) (simp add: s1_def step_fields)
  have "chap_send_challenge env new s = (if conf_auth_timeout env \<noteq> 0 \<and> \<not> chap_timeout_tpd (chap s2)
      then s2\<lparr>chap := (chap s2)\<lparr>chap_timeout_tpd := env_timer_ok (e_lcp env)\<rparr>\<rparr> else s2)"
    by (simp add: chap_send_challenge_def Let_def s1_def s2_def)
  then show ?thesis using s2 sess_step_trans [OF s2 step_fields(2)] by simp
qed

lemma step_auth_start: "sess_step s (auth_start env h s)"
  by (cases h) (simp_all add: pap_start_def chap_start_def step_fields sess_step_trans [OF step_fields(2) step_chap_challenge])

lemma step_set_starting: "(\<forall>n. L \<noteq> L_net n) \<or> authorized s \<Longrightarrow> sess_step s (upd_layer L (\<lambda>d. d\<lparr>ld_starting := True\<rparr>) s)"
  by (rule step_upd_layer) (auto simp: gate_open_def split: layer_id.splits)

lemma authorized_step: "sess_step s t \<Longrightarrow> authorized s \<Longrightarrow> authorized t"
  by (auto simp: sess_step_defs)

lemma start_auth_items: 
  assumes "chosen s"
  shows "sess_step s (start_items core env cfg [L_auth] s)"
proof -
  let ?u = "log_ev (Ev_start L_auth) (upd_layer L_auth (\<lambda>d. d\<lparr>ld_starting := True\<rparr>) s)"
  have u: "sess_step s ?u"
    by (rule sess_step_trans [OF step_set_starting step_log]) simp_all
  obtain i where "auth_cur s = Some i" using assms by (auto simp: chosen_def)
  then have "start_items core env cfg [L_auth] s =
      auth_start env (ad_h (auth_list s ! i)) (?u\<lparr>auth_opt_started := True\<rparr>)"
    by (simp add: auth_layer_start_def upd_layer_def)
  moreover have "sess_step s (auth_start env h (?u\<lparr>auth_opt_started := True\<rparr>))" for h
    by (rule sess_step_trans [OF sess_step_trans [OF u step_fields(3)] step_auth_start])
  ultimately show ?thesis by simp
qed

lemma shaped_from_lcp:
  assumes "shaped ns" "from_node L_lcp ns = n # rest"
  obtains n' rest' where "rest = n' # rest'" "map ld_layer n' = [L_auth]"
  using assms by (auto simp: shaped_def Cons_eq_map_conv map_eq_Cons_conv)

lemma shaped_from_net:
  assumes "shaped ns" "from_node (L_net k) ns = n # rest"
  shows "rest = []"
  using assms by (auto simp: shaped_def Cons_eq_map_conv map_eq_Cons_conv split: if_splits)

lemma step_started_lcp:
  assumes "sess_ok s" "chosen s"
  shows "sess_step s (ppp_layer_started core env cfg L_lcp s)"
proof -
  define u where "u = upd_layer L_lcp (\<lambda>d. d\<lparr>ld_started := True\<rparr>) s"
  have u: "sess_step s u" unfolding u_def by (rule step_upd_layer) (auto simp: gate_open_def)
  have "sess_step u (layer_node_started core env cfg L_lcp u)"
  proof (cases "from_node L_lcp (ppp_layers u)")
    case (Cons n rest)
    have "shaped (ppp_layers u)" using u assms(1) by (simp add: sess_step_defs sess_ok_def)
    from shaped_from_lcp [OF this Cons] obtain n' rest' where r: "rest = n' # rest'" "map ld_layer n' = [L_auth]" .
    have "chosen u" using u chosen_part assms(2) by (auto simp: sess_step_defs)
    from start_auth_items [OF this, of core env cfg] show ?thesis by (simp only: layer_node_started_def Cons r list.case) simp
  qed (simp add: layer_node_started_def step_fields)
  from sess_step_trans [OF u this] show ?thesis by (simp add: ppp_layer_started_def u_def)
qed

lemma step_activate:
  "authorized s \<Longrightarrow> ses_state s = AP_STATE_STARTING \<Longrightarrow> \<not> ses_finish_started s \<Longrightarrow> sess_step s (ap_session_activate env s)"
  by (auto simp: ap_session_activate_def sess_step_defs sess_ok_def counted_def ends_once_def split: if_splits)

lemma step_node_net:
  assumes "sess_ok s" "sess_gone s" "authorized s"
  shows "sess_step s (layer_node_started core env cfg (L_net k) s)"
proof (cases "from_node (L_net k) (ppp_layers s)")
  case (Cons n rest)
  have "rest = []" using shaped_from_net [OF _ Cons] assms(1) by (simp add: sess_ok_def)
  moreover have "\<not> ses_finish_started s" using assms(2) Cons by (auto simp: sess_gone_def)
  ultimately show ?thesis using Cons step_activate [OF assms(3)] by (simp add: layer_node_started_def)
qed (simp add: layer_node_started_def step_fields)

lemma step_started_net:
  assumes "sess_ok s" "sess_gone s" "authorized s"
  shows "sess_step s (ppp_layer_started core env cfg (L_net k) s)" "sess_step s (ppp_layer_passive core env cfg (L_net k) s)"
proof -
  let ?u = "upd_layer (L_net k) (\<lambda>d. d\<lparr>ld_started := True\<rparr>) s" and ?v = "upd_layer (L_net k) (\<lambda>d. d\<lparr>ld_passive := True\<rparr>) s"
  have u: "sess_step s ?u" by (rule step_upd_layer) (auto simp: gate_open_def)
  have v: "sess_step s ?v" by (rule step_upd_layer) (auto simp: gate_open_def)
  have "sess_ok ?u" "sess_ok ?v" using u v assms(1) by (simp_all add: sess_step_defs)
  then have "sess_step s (layer_node_started core env cfg (L_net k) ?u)" "sess_step s (layer_node_started core env cfg (L_net k) ?v)"
    using sess_step_trans [OF u step_node_net] sess_step_trans [OF v step_node_net] assms(2,3) by simp_all
  then show "sess_step s (ppp_layer_started core env cfg (L_net k) s)" "sess_step s (ppp_layer_passive core env cfg (L_net k) s)"
    by (simp_all add: ppp_layer_started_def ppp_layer_passive_def)
qed

text \<open>A session that terminates is not told to again, except to end at once.\<close>

lemma step_terminate_again:
  assumes "ses_terminating s"
  shows "sess_step s (ap_session_terminate core env c h s)"
proof -
  let ?u = "s\<lparr>ses_stop_time := True, ses_terminate_cause := (case ses_terminate_cause s of None \<Rightarrow> Some c | Some c \<Rightarrow> Some c)\<rparr>"
  have u: "sess_step s ?u" by (rule step_fields)
  from sess_step_trans [OF u step_destablish] u assms show ?thesis
    by (simp add: ap_session_terminate_def ppp_terminate_def Let_def)
qed

lemma step_call_ending:
  assumes "sess_ok s" "sess_gone s" "authorized s" "ses_terminating s"
  shows "sess_step s (run_call (ppp_core_of env cfg (Suc n)) (L_net k) c s)"
  using assms by (cases c) (simp_all add: step_started_net step_terminate_again step_layer_finished)

lemma step_calls_ending:
  "sess_ok s \<Longrightarrow> sess_gone s \<Longrightarrow> authorized s \<Longrightarrow> ses_terminating s \<Longrightarrow> sess_step s (run_calls (ppp_core_of env cfg (Suc n)) k calls s)"
proof (induction calls arbitrary: s)
  case (Cons c calls)
  note st = step_call_ending [OF Cons.prems, of env cfg n k c]
  then have "sess_step (run_call (ppp_core_of env cfg (Suc n)) (L_net k) c s)
      (run_calls (ppp_core_of env cfg (Suc n)) k calls (run_call (ppp_core_of env cfg (Suc n)) (L_net k) c s))"
    using Cons.prems by (intro Cons.IH) (auto simp: sess_step_defs)
  from sess_step_trans [OF st this] show ?case by (simp add: run_calls_def)
qed (simp add: run_calls_def)

section \<open>Calls that nest\<close>

lemma inv_local: "ppp_inv M A T s \<Longrightarrow> lcp_local M s t \<Longrightarrow> ppp_inv M A T t"
proof -
  assume J: "ppp_inv M A T s" and l: "lcp_local M s t"
  have f: "map ad_h (auth_list t) = map ad_h (auth_list s)" "map lo_id (lcp_options t) = map lo_id (lcp_options s)"
    "ses_terminating t = ses_terminating s" "ppp_lcp_t.more t = ppp_lcp_t.more s" "lcp_wf M t"
    using l by (simp_all add: lcp_local_def lcp_frame_def)
  have "auth_list s \<noteq> []" using J by (simp add: ppp_inv_def lcp_ready_def)
  then have "auth_list t \<noteq> []" using f(1) by (metis map_is_Nil_conv)
  then have r: "lcp_ready M t" using J f by (simp add: ppp_inv_def lcp_ready_def)
  have "ses_log t = ses_log s" "ses_finish_started t = ses_finish_started s" "ppp_layers t = ppp_layers s"
    using f(4) by (cases s; cases t; simp)+
  then show ?thesis using J r sess_ok_more [OF f(4,3)] f(3) by (simp add: ppp_inv_def sess_gone_def)
qed

lemma inv_keeps_step: "(\<And>s. ppp_inv M A T s \<Longrightarrow> sess_step s (f s)) \<Longrightarrow> client_keeps (ppp_inv M A T) chosen f"
  by (rule client_keepsI, rule rel_step)

lemma find_layer: "ppp_find_layer_data ns L = Some d \<Longrightarrow> d \<in> set (concat ns) \<and> ld_layer d = L"
  by (induction ns) (auto simp: find_Some_iff split: option.splits)

lemma starting_authorized: "sess_ok s \<Longrightarrow> layer_flag ld_starting (L_net k) s \<Longrightarrow> authorized s"
  using find_layer [of "ppp_layers s" "L_net k"]
  by (force simp: layer_flag_def sess_ok_def gate_open_def split: option.splits)

text \<open>A sensible configuration, where a peer has to authenticate.\<close>

locale ppp_config =
  fixes env :: ppp_env
    and cfg :: reg
    and M :: int
  assumes mtu: "env_mtu_ok M (e_lcp env)"
    and must_auth: "\<not> conf_noauth (e_lcp env)"
begin

lemma session_of:
  assumes "\<And>c h. client_keeps (ppp_inv M A T) chosen (core_terminate (ppp_core_of env cfg (Suc n)) c h :: 'z ppp_t_scheme \<Rightarrow> _)"
  shows "lcp_session (ppp_core_of env cfg (Suc n)) (e_lcp env) M (ppp_inv M A T :: 'z ppp_t_scheme \<Rightarrow> bool)"
proof
  fix s t :: "'z ppp_t_scheme"
  show "env_mtu_ok M (e_lcp env)" "\<not> conf_noauth (e_lcp env)" by (rule mtu must_auth)+
  show "lcp_wf M s" "auth_list s \<noteq> [] \<and> 3 \<in> set (map lo_id (lcp_options s))" if "ppp_inv M A T s"
    using that by (simp_all add: ppp_inv_def lcp_ready_def)
  show "ppp_inv M A T t" if "ppp_inv M A T s" "lcp_local M s t" using that by (rule inv_local)
  show "ppp_inv M A T (core_started (ppp_core_of env cfg (Suc n)) L_lcp s) \<and> chosen (core_started (ppp_core_of env cfg (Suc n)) L_lcp s)"
    if "ppp_inv M A T s" "chosen s"
  proof -
    have "client_ok (ppp_inv M A T) chosen s" using that by (simp add: client_ok_def)
    then show ?thesis
      using rel_step [where M = M and A = A and T = T, OF step_started_lcp [OF inv_ok(1) that(2)]] that(2)
      by (simp add: client_rel_def client_ok_def)
  qed
  show "client_keeps (ppp_inv M A T) chosen (core_finished (ppp_core_of env cfg (Suc n)) L_lcp :: 'z ppp_t_scheme \<Rightarrow> _)"
    "client_keeps (ppp_inv M A T) chosen (core_post_finished (ppp_core_of env cfg (Suc n)) :: 'z ppp_t_scheme \<Rightarrow> _)"
    by (rule inv_keeps_step; simp add: step_layer_finished step_fields)+
  show "client_keeps (ppp_inv M A T) chosen (core_terminate (ppp_core_of env cfg (Suc n)) c h :: 'z ppp_t_scheme \<Rightarrow> _)" for c h
    by (rule assms)
qed

lemma session_ending: "lcp_session (ppp_core_of env cfg (Suc n)) (e_lcp env) M (ppp_inv M A True)"
  by (rule session_of, rule inv_keeps_step) (simp add: ppp_inv_def step_terminate_again)

lemma rel_auth_finish: "client_rel (ppp_inv M A T) chosen s (auth_layer_finish (ppp_core_of env cfg (Suc n)) s)"
proof -
  let ?s1 = "case auth_cur s of Some i \<Rightarrow> auth_finish (ad_h (auth_list s ! i)) s | None \<Rightarrow> s"
  have "sess_step s ?s1" by (simp add: step_auth_frees split: option.split)
  from sess_step_trans [OF sess_step_trans [OF this step_fields(3)] step_layer_finished]
  have "sess_step s (auth_layer_finish (ppp_core_of env cfg (Suc n)) s)" by (simp add: auth_layer_finish_def)
  then show ?thesis by (rule rel_step)
qed

lemma rel_finish_ending:
  assumes "layer_flag ld_starting L s"
  shows "client_rel (ppp_inv M A True) chosen s (layer_finish (ppp_core_of env cfg (Suc n)) env L s)"
proof (cases L)
  case L_lcp
  show ?thesis using lcp_session.rel_layer_finish [OF session_ending [where A = A]] L_lcp by simp
next
  case L_auth
  show ?thesis using rel_auth_finish L_auth by simp
next
  case (L_net k)
  have "ppp_inv M A True s \<Longrightarrow> sess_step s (run_calls (ppp_core_of env cfg (Suc n)) k (net_finish env k) s)"
    using starting_authorized assms L_net by (intro step_calls_ending) (auto simp: ppp_inv_def)
  from rel_step [OF this] show ?thesis using L_net by simp
qed

lemma rel_finish_items: "client_rel (ppp_inv M A True) chosen s (snd (finish_items (ppp_core_of env cfg (Suc n)) env Ls s))"
proof (induction Ls arbitrary: s)
  case (Cons L Ls)
  show ?case
  proof (cases "layer_flag ld_starting L s")
    case True
    from client_rel_trans [OF rel_finish_ending [OF this] Cons.IH] show ?thesis using True by simp
  next
    case False
    with Cons.IH show ?thesis by simp
  qed
qed simp

lemma rel_ppp_terminate: "client_rel (ppp_inv M A True) chosen s (snd (ppp_terminate (ppp_core_of env cfg (Suc n)) env hard s))"
proof -
  obtain f s1 where f: "finish_items (ppp_core_of env cfg (Suc n)) env (map ld_layer (concat (ppp_layers s))) s = (f, s1)" by fastforce
  have s1: "client_rel (ppp_inv M A True) chosen s s1"
    using rel_finish_items [where n = n and Ls = "map ld_layer (concat (ppp_layers s))" and A = A and s = s] f by simp
  moreover have "client_rel (ppp_inv M A True) chosen s1 (destablish_ppp s1)" "client_rel (ppp_inv M A True) chosen s (destablish_ppp s)"
    by (rule rel_step, rule step_destablish)+
  ultimately show ?thesis using client_rel_trans [OF s1] unfolding ppp_terminate_def f Let_def prod.case
    by (cases f) simp_all
qed

lemma rel_terminate: "client_rel (ppp_inv M A False) chosen s (ap_session_terminate (ppp_core_of env cfg (Suc n)) env c h s)"
proof (cases "ses_finish_started s \<or> ses_terminating s")
  case True
  then show ?thesis
    using rel_step [where M = M and A = A and T = False, OF step_terminate_again [of s "ppp_core_of env cfg (Suc n)" env c h]]
    by (auto simp: ap_session_terminate_def)
next
  case False
  define s1 where "s1 = s\<lparr>ses_stop_time := True,
      ses_terminate_cause := (case ses_terminate_cause s of None \<Rightarrow> Some c | Some c \<Rightarrow> Some c)\<rparr>"
  define s2 where "s2 = (let s1' = (if ses_state s1 = AP_STATE_ACTIVE then s1\<lparr>stat_active := stat_active s1 - 1\<rparr>
      else s1\<lparr>stat_starting := stat_starting s1 - 1\<rparr>)
    in s1'\<lparr>stat_finishing := stat_finishing s1' + 1, ses_terminating := True, ses_state := AP_STATE_FINISHING\<rparr>)"
  have s2: "ses_terminating s2" by (simp add: s2_def Let_def)
  have "sess_step s s2" using False
    by (cases "ses_state s") (auto simp: s2_def s1_def sess_step_defs Let_def sess_ok_def counted_def ends_once_def)
  then have "client_rel (ppp_inv M A False) chosen s s2" by (rule rel_step)
  obtain r s3 where r: "ppp_terminate (ppp_core_of env cfg (Suc n)) env h s2 = (r, s3)" by fastforce
  have "client_rel (ppp_inv M A True) chosen s2 s3"
    using rel_ppp_terminate [where A = A and n = n and hard = h and s = s2] r by simp
  from client_rel_trans [OF \<open>client_rel _ _ s s2\<close> rel_terminating [OF s2 this]]
  have s3: "client_rel (ppp_inv M A False) chosen s s3" .
  moreover have "sess_step s3 ((log_ev Ev_down s3)\<lparr>ses_down := True\<rparr>)"
    by (rule sess_step_trans [OF step_log [of Ev_down]]) (simp_all add: sess_step_defs)
  from client_rel_trans [OF s3 rel_step [OF this]]
  have "client_rel (ppp_inv M A False) chosen s ((log_ev Ev_down s3)\<lparr>ses_down := True\<rparr>)" .
  moreover have "ap_session_terminate (ppp_core_of env cfg (Suc n)) env c h s =
      (case ppp_terminate (ppp_core_of env cfg (Suc n)) env h s2 of (r, s3) \<Rightarrow> if r then (log_ev Ev_down s3)\<lparr>ses_down := True\<rparr> else s3)"
    using False by (simp add: ap_session_terminate_def s2_def s1_def Let_def)
  ultimately show ?thesis by (simp add: r)
qed

lemma session_running: "lcp_session (ppp_core_of env cfg (Suc (Suc n))) (e_lcp env) M (ppp_inv M A False)"
  by (rule session_of, rule client_keepsI) (simp add: rel_terminate)

text \<open>Network layers start, and call the session, once it is authorized.\<close>

lemma rel_call:
  "client_rel (ppp_inv M True False) chosen s (run_call (ppp_core_of env cfg (Suc (Suc n))) (L_net k) c s)"
proof (cases c)
  case (N_terminate x h)
  then show ?thesis by (simp add: rel_terminate)
qed (simp_all, (rule rel_step, simp add: step_started_net step_layer_finished ppp_inv_def)+)

lemma rel_calls:
  "client_rel (ppp_inv M True False) chosen s (run_calls (ppp_core_of env cfg (Suc (Suc n))) k calls s)"
proof (induction calls arbitrary: s)
  case (Cons c calls)
  from client_rel_trans [OF rel_call Cons.IH] show ?case by (simp add: run_calls_def)
qed (simp add: run_calls_def)

lemma rel_net_event:
  "client_rel (ppp_inv M A False) chosen s (net_event (ppp_core_of env cfg (Suc (Suc n))) k calls s)"
proof (cases "client_ok (ppp_inv M A False) chosen s \<and> Ev_start (L_net k) \<in> set (ses_log s)")
  case True
  then obtain pre post where "ses_log s = pre @ Ev_start (L_net k) # post" by (meson split_list)
  moreover have "preceded gated (\<lambda>e. e = Ev_authorized) (ses_log s)" using True by (simp add: client_ok_def ppp_inv_def sess_ok_def)
  ultimately have "authorized s" unfolding preceded_def by fastforce
  from rel_authorized [OF this rel_calls] show ?thesis by (simp add: net_event_def)
qed (auto simp: net_event_def client_rel_def)

lemma rel_start_nets:
  "client_rel (ppp_inv M True False) chosen s (start_items (ppp_core_of env cfg (Suc (Suc n))) env cfg (map L_net nets) s)"
proof (induction nets arbitrary: s)
  case (Cons k nets)
  let ?core = "ppp_core_of env cfg (Suc (Suc n))"
  let ?u = "log_ev (Ev_start (L_net k)) (upd_layer (L_net k) (\<lambda>d. d\<lparr>ld_starting := True\<rparr>) s)"
  obtain r calls where r: "net_start env k = (r, calls)" by fastforce
  have "ppp_inv M True False s \<Longrightarrow> sess_step s ?u"
    by (rule sess_step_trans [OF step_set_starting step_log]) (simp_all add: ppp_inv_def)
  from client_rel_trans [OF rel_step [OF this] rel_calls]
  have u: "client_rel (ppp_inv M True False) chosen s (run_calls ?core k calls ?u)" .
  have "client_rel (ppp_inv M True False) chosen s (core_terminate ?core TERM_NAS_ERROR False (run_calls ?core k calls ?u))"
    using client_rel_trans [OF u rel_terminate [where n = n]] by simp
  moreover note client_rel_trans [OF u Cons.IH]
  ultimately show ?case by (simp add: r)
qed simp

lemma rel_started_auth:
  "client_rel (ppp_inv M True False) chosen s (core_started (ppp_core_of env cfg (Suc (Suc (Suc n)))) L_auth s)"
proof -
  let ?core = "ppp_core_of env cfg (Suc (Suc n))"
  define u where "u = upd_layer L_auth (\<lambda>d. d\<lparr>ld_started := True\<rparr>) s"
  have u: "client_rel (ppp_inv M True False) chosen s u" unfolding u_def
    by (rule rel_step, rule step_upd_layer) (auto simp: ppp_inv_def)
  have "client_rel (ppp_inv M True False) chosen u (layer_node_started ?core env cfg L_auth u)"
  proof (cases "client_ok (ppp_inv M True False) chosen u")
    case True
    then have shaped: "shaped (ppp_layers u)" and ok: "sess_ok u" "sess_gone u" "authorized u"
      by (simp_all add: client_ok_def ppp_inv_def sess_ok_def)
    show ?thesis
    proof (cases "from_node L_auth (ppp_layers u)")
      case (Cons nd rest)
      have gone: "\<not> ses_finish_started u" using ok(2) Cons by (auto simp: sess_gone_def)
      show ?thesis
      proof (cases rest)
        case Nil
        then show ?thesis using Cons gone step_activate [OF ok(3)] by (auto simp: layer_node_started_def intro: rel_step)
      next
        case (Cons n' rest')
        then obtain nets where "map ld_layer n' = map L_net nets"
          using shaped \<open>from_node L_auth (ppp_layers u) = nd # rest\<close>
          by (auto simp: shaped_def Cons_eq_map_conv map_eq_Cons_conv split: if_splits)
        then show ?thesis using \<open>from_node L_auth (ppp_layers u) = nd # rest\<close> Cons rel_start_nets [of u n nets]
          by (simp add: layer_node_started_def)
      qed
    qed (auto simp: layer_node_started_def intro: rel_step step_fields)
  qed (simp add: client_rel_def)
  from client_rel_trans [OF u this] show ?thesis
    by (simp add: ppp_layer_started_def u_def)
qed

end

section \<open>Events\<close>

lemma ppp_core_eq: "ppp_core env cfg = ppp_core_of env cfg (Suc (Suc (Suc 0)))"
  by (simp add: ppp_core_def numeral_3_eq_3)

sublocale ppp_config \<subseteq> link: lcp_session "ppp_core env cfg" "e_lcp env" M "ppp_inv M False False"
  unfolding ppp_core_eq by (rule session_running)

context ppp_config
begin

abbreviation keeps :: "'z ppp_t_scheme \<Rightarrow> 'z ppp_t_scheme \<Rightarrow> bool" where
  "keeps \<equiv> client_rel (ppp_inv M False False) chosen"

abbreviation tcore :: "'z ppp_t_scheme ppp_core" where
  "tcore \<equiv> ppp_core env cfg"

lemma keeps_step: "keeps s t \<Longrightarrow> sess_step t u \<Longrightarrow> keeps s u"
  by (blast intro: client_rel_trans rel_step)

lemma keeps_terminate: "keeps s t \<Longrightarrow> keeps s (core_terminate tcore c h t)"
  unfolding ppp_core_eq core_of_sel by (erule client_rel_trans) (rule rel_terminate)

lemma keeps_auth_failed: "keeps s t \<Longrightarrow> keeps s (ppp_auth_failed tcore u t)"
proof -
  assume "keeps s t"
  moreover have "sess_step t (t\<lparr>ses_username := x, ses_terminate_cause := y\<rparr>)" for x y
    by (simp add: sess_step_defs)
  ultimately show ?thesis unfolding ppp_auth_failed_def Let_def
    by (auto split: option.split intro: keeps_terminate keeps_step)
qed

lemma keeps_succeeded:
  assumes "keeps s t" "ppp_auth_succeeded env name (log_ev (Ev_let_in name) t) = (r, u)"
  shows "keeps s u"
proof -
  have "sess_step t (log_ev (Ev_let_in name) t)" by (rule step_log) simp_all
  then have "sess_step t u" using assms(2)
    by (auto simp: ppp_auth_succeeded_def ap_session_set_username_def split: if_splits)
      (auto simp: sess_step_defs sess_ok_def counted_def ends_once_def)
  then show ?thesis using assms(1) by (rule keeps_step [rotated])
qed

lemma keeps_send: "keeps s t \<Longrightarrow> keeps s (ppp_chan_send data t)"
  by (erule keeps_step, rule step_fields)

lemma keeps_pap: "keeps s t \<Longrightarrow> keeps s (t\<lparr>pap := p\<rparr>)" "keeps s t \<Longrightarrow> keeps s (t\<lparr>chap := c\<rparr>)" "keeps s t \<Longrightarrow> keeps s (fault t)"
  by (erule keeps_step, rule step_fields)+

lemmas keeps_simple = keeps_send keeps_pap keeps_terminate keeps_auth_failed client_rel_refl

lemma keeps_pap_accept:
  assumes "keeps s t"
  shows "keeps s (pap_accept tcore env i name t)"
proof -
  obtain r u where r: "ppp_auth_succeeded env name (log_ev (Ev_let_in name) t) = (r, u)" by fastforce
  from keeps_succeeded [OF assms this] show ?thesis
    unfolding pap_accept_def r prod.case Let_def pap_send_nak_def pap_send_ack_def by (auto intro: keeps_simple)
qed

lemma keeps_pap_refuse: "keeps s t \<Longrightarrow> keeps s (pap_refuse tcore i name t)"
  unfolding pap_refuse_def Let_def pap_send_nak_def by (auto intro: keeps_simple)

lemma keeps_pap_result: "keeps s (pap_auth_result tcore env res s)"
  unfolding pap_auth_result_def Let_def
  by (auto split: option.split intro!: keeps_pap_accept keeps_pap_refuse intro: keeps_simple)

lemma keeps_pap_recv: "keeps s (pap_recv tcore env s)"
  unfolding pap_recv_def pap_recv_req_def Let_def pap_send_ack_def
  by (auto split: option.split pwdb_res.split intro!: keeps_pap_accept keeps_pap_refuse intro: keeps_simple)

lemma keeps_chap_accept:
  assumes "keeps s t"
  shows "keeps s (chap_accept tcore env name t)"
proof -
  obtain r u where r: "ppp_auth_succeeded env name (log_ev (Ev_let_in name) t) = (r, u)" by fastforce
  have "keeps s (log_ev (Ev_let_in name) t)" by (rule keeps_step [OF assms], rule step_log) simp_all
  with keeps_succeeded [OF assms r] show ?thesis
    unfolding chap_accept_def r prod.case Let_def chap_send_failure_def chap_send_success_def by (auto intro: keeps_simple)
qed

lemma keeps_chap_any:
  assumes "keeps s t"
  shows "keeps s (chap_any_login tcore env name t)"
proof -
  obtain r u where r: "ppp_auth_succeeded env name (log_ev (Ev_let_in name) t) = (r, u)" by fastforce
  from keeps_succeeded [OF assms this] show ?thesis
    unfolding chap_any_login_def r prod.case Let_def chap_send_failure_def chap_send_success_def chap_next_id_def
    by (auto intro: keeps_simple)
qed

lemma keeps_chap_refuse: "keeps s t \<Longrightarrow> keeps s (chap_refuse tcore c name t)"
  unfolding chap_refuse_def Let_def chap_send_failure_def by (auto intro: keeps_simple)

lemma keeps_next_id: "keeps s t \<Longrightarrow> keeps s (chap_next_id t)"
  unfolding chap_next_id_def by (rule keeps_pap)

lemmas keeps_chap = keeps_chap_accept keeps_chap_any keeps_chap_refuse keeps_next_id

lemma keeps_chap_result: "keeps s (chap_auth_result tcore env res s)"
  unfolding chap_auth_result_def Let_def
  by (auto split: option.split intro!: keeps_chap intro: keeps_simple)

lemma keeps_chap_check: "keeps s t \<Longrightarrow> keeps s (chap_check tcore env name resp t)"
  unfolding chap_check_def chap_send_failure_def
  by (auto split: option.split pwdb_res.split intro!: keeps_chap intro: keeps_simple)

lemma keeps_chap_recv: "keeps s (chap_recv tcore env s)"
  unfolding chap_recv_def chap_recv_response_def Let_def chap_send_success_def
  by (auto intro!: keeps_chap keeps_chap_check intro: keeps_simple)

lemma keeps_chap_challenge: "keeps s t \<Longrightarrow> keeps s (chap_send_challenge env new t)"
  by (erule keeps_step, rule step_chap_challenge)

lemma keeps_chap_timeout: "keeps s (chap_timeout_timer tcore env s)"
  unfolding chap_timeout_timer_def Let_def by (auto intro!: keeps_chap_challenge intro: keeps_simple)

lemma keeps_proto_rej: "keeps s (core_proto_rej tcore proto s)"
  unfolding ppp_core_eq core_of_sel ppp_recv_proto_rej_def
  by (auto split: option.split intro: client_rel_refl rel_net_event)

lemma keeps_net_event: "keeps s t \<Longrightarrow> keeps s (net_event tcore k calls t)"
  unfolding ppp_core_eq by (erule client_rel_trans) (rule rel_net_event)

lemma keeps_packet: "keeps s (ppp_packet_read env cfg buf n s)"
proof -
  define u where "u = s\<lparr>ppp_buf := buf, ppp_buf_size := n\<rparr>"
  have u: "keeps s u" unfolding u_def by (rule rel_step, rule step_fields)
  have "keeps u (lcp_recv tcore (e_lcp env) u)"
    by (rule link.rel_recv, rule client_keepsI, rule keeps_proto_rej)
  moreover have "keeps u (lcp_send_proto_rej (rd16 buf) u)" by (rule link.rel_view) (simp_all add: lcp_send_proto_rej_def lcp_view_def ppp_chan_send_def)
  ultimately show ?thesis
    using u client_rel_trans [OF u] keeps_pap_recv [of u] keeps_chap_recv [of u]
    unfolding ppp_packet_read_def Let_def u_def [symmetric] by (auto split: option.split intro: keeps_net_event)
qed

lemma keeps_posted: "keeps s (run_posted env cfg s)"
proof (cases "client_ok (ppp_inv M False False) chosen s")
  case True
  have drop: "sess_step s (s\<lparr>ctx_calls := tl (ctx_calls s)\<rparr>)"
    by (cases "ctx_calls s") (auto simp: sess_step_defs sess_ok_def counted_def ends_once_def)
  have "keeps s (ppp_auth_started tcore (s\<lparr>ctx_calls := cs\<rparr>))" if cs: "ctx_calls s = Post_auth_started # cs" for cs
  proof -
    let ?u = "log_ev Ev_authorized (s\<lparr>ctx_calls := cs\<rparr>)"
    have "let_in s" using True cs by (simp add: client_ok_def ppp_inv_def sess_ok_def)
    then have "sess_step (s\<lparr>ctx_calls := cs\<rparr>) ?u" by (intro step_log) simp_all
    then have "sess_step s ?u" using sess_step_trans [OF drop] cs by simp
    then have "keeps s ?u" by (rule rel_step)
    moreover have "keeps ?u (core_started tcore L_auth ?u)"
      unfolding ppp_core_eq by (rule rel_authorized [OF _ rel_started_auth]) simp
    ultimately have "keeps s (core_started tcore L_auth ?u)" by (rule client_rel_trans)
    then show ?thesis using rel_step [OF drop] cs by (simp add: ppp_auth_started_def)
  qed
  moreover have "keeps s (ppp_layer_finished L_lcp (s\<lparr>ctx_calls := cs\<rparr>))" if "ctx_calls s = x # cs" for x cs
    using rel_step [OF sess_step_trans [OF drop step_layer_finished]] that by simp
  ultimately show ?thesis by (auto simp: run_posted_def split: list.split posted.split)
qed (simp add: client_rel_def)

lemma keeps_handle: "keeps s (ppp_handle env cfg e s)"
proof (cases e)
  case T_restart
  then show ?thesis using link.rel_handlers(11) [of s] by simp
next
  case T_echo
  then show ?thesis using link.rel_echo_request [of s] by simp
next
  case T_chap_interval
  then show ?thesis by (simp add: chap_restart_timer_def keeps_chap_challenge)
next
  case (Terminate c h)
  then show ?thesis using rel_terminate [of False s] by (simp add: ppp_core_eq)
qed (simp_all add: keeps_packet keeps_posted keeps_pap_result keeps_chap_result keeps_net_event keeps_chap_timeout
    pap_timeout_def keeps_auth_failed)

lemma step_ok: "client_ok (ppp_inv M False False) chosen s \<Longrightarrow> client_ok (ppp_inv M False False) chosen (ppp_step cfg (env, e) s)"
  using keeps_handle [of s e] by (simp add: ppp_step_def client_rel_def)

lemma establish_ok:
  assumes cfg: "K_auth \<in> set (fst cfg)" "snd cfg \<noteq> []" and M: "0 \<le> M"
    and layers: "map snd layers = [[L_lcp], [L_auth]] \<or> map snd layers = [[L_lcp], [L_auth], map L_net nets]"
    and s: "establish_ppp env cfg layers ccp (ppp_init c rnd) = (0, s)"
  shows "client_ok (ppp_inv M False False) chosen s"
proof -
  let ?J = "ppp_inv M False False"
  define i where "i = snd (ap_session_starting env (init_layers layers ccp (ppp_init c rnd)))"
  have ns: "map (map ld_layer) (ppp_layers i) = map snd layers"
    using s by (auto simp: i_def ap_session_starting_def init_layers_def ppp_init_def ppp_fsm_init_def establish_ppp_def
        comp_def case_prod_unfold split: if_splits)
  have starts: "\<not> ld_starting d" if "d \<in> set (concat (ppp_layers i))" for d
    using that by (auto simp: i_def ap_session_starting_def init_layers_def ppp_init_def ppp_fsm_init_def split: if_splits)
  have up: "\<not> e_shutdown env" using s by (auto simp: establish_ppp_def)
  have "shaped (ppp_layers i)" using ns layers unfolding shaped_def by metis
  then have i: "sess_ok i" using starts
    by (auto simp: sess_ok_def gate_open_def i_def ap_session_starting_def up init_layers_def ppp_init_def ppp_fsm_init_def
        counted_def ends_once_def split: layer_id.splits)
  have i2: "sess_gone i" "fsm_state i = FSM_Initial" "auth_cur i = None" "ppp_mtu i = 0"
    by (simp_all add: sess_gone_def i_def ap_session_starting_def up init_layers_def ppp_init_def ppp_fsm_init_def)
  have hd: "map ld_layer (hd (ppp_layers i)) = [L_lcp]" using ns layers by (auto simp: map_eq_Cons_conv)
  define u where "u = log_ev (Ev_start L_lcp) (upd_layer L_lcp (\<lambda>d. d\<lparr>ld_starting := True\<rparr>) i)"
  have "sess_step i u" unfolding u_def
    by (rule sess_step_trans [OF step_set_starting step_log]) simp_all
  then have u: "sess_ok u" "sess_gone u" "fsm_state u = FSM_Initial" "auth_cur u = None" "ppp_mtu u = 0"
    using i i2 by (auto simp: sess_step_defs lcp_part_def)
  let ?v = "lcp_options_init (e_lcp env) (snd cfg) (fst cfg) u"
  note w = options_init_wf [OF mtu cfg(1) u(4), of "snd cfg"]
  have r: "lcp_ready M ?v" using w(1-3) cfg(2) u(5) M must_auth by (auto simp: lcp_ready_def auth_protos_def)
  have m: "ppp_lcp_t.more ?v = ppp_lcp_t.more u" "ses_terminating ?v = ses_terminating u" using w(5,6) u(5) M by simp_all
  have "ses_finish_started ?v = ses_finish_started u" "ppp_layers ?v = ppp_layers u"
    using m(1) by (cases u; cases ?v; simp)+
  then have J: "?J ?v" using r sess_ok_more [OF m] u(1,2) by (simp add: ppp_inv_def sess_gone_def)
  obtain r t where t: "lcp_layer_start tcore (e_lcp env) (snd cfg) (fst cfg) u = (r, t)" by fastforce
  have ok: "client_ok ?J chosen t"
    using link.start_ok [OF J u(3)] w(7) u(5) M t by simp
  have "client_ok ?J chosen (core_terminate tcore TERM_NAS_ERROR False t)"
    using keeps_terminate [OF client_rel_refl, of t] ok by (simp add: client_rel_def)
  moreover have "s = start_first_layer env cfg i"
    using s up by (simp add: establish_ppp_def i_def ap_session_starting_def Let_def split: if_splits)
  then have "s = (if r \<noteq> 0 then core_terminate tcore TERM_NAS_ERROR False t else t)"
    using t by (simp add: start_first_layer_def hd u_def)
  ultimately show ?thesis using ok by simp
qed

end

section \<open>Registered layers\<close>

abbreviation order_of :: "layer_id \<Rightarrow> int" where
  "order_of L \<equiv> get_layer_order (layer_name L)"

lemma order_of_simps [simp]: "order_of L_lcp = 0" "order_of L_auth = 1" "order_of (L_net n) = 2"
  by (simp_all add: get_layer_order_def, cases n, simp_all)

declare layer_name.simps [simp del]

text \<open>The order in which the modules register their layers does not matter: they end up in three nodes at most.\<close>

lemma register_layers:
  "fold ppp_register_layer Ls [] =
     filter (\<lambda>(_, items). items \<noteq> []) (map (\<lambda>ord. (ord, filter (\<lambda>L. order_of L = ord) Ls)) [0, 1, 2])"
proof (induction Ls rule: rev_induct)
  case (snoc L Ls)
  then show ?case by (cases L) (auto simp: Let_def)
qed simp

lemma registered_nodes:
  assumes "filter (\<lambda>L. L = L_lcp) Ls = [L_lcp]" "filter (\<lambda>L. L = L_auth) Ls = [L_auth]"
  obtains nets where "map snd (fold ppp_register_layer Ls []) = [[L_lcp], [L_auth]] \<or>
    map snd (fold ppp_register_layer Ls []) = [[L_lcp], [L_auth], map L_net nets]"
proof -
  have o: "order_of L = 0 \<longleftrightarrow> L = L_lcp" "order_of L = 1 \<longleftrightarrow> L = L_auth" for L by (cases L; simp)+
  have "\<exists>n. L = L_net n" if "order_of L = 2" for L using that by (cases L) auto
  then have "\<exists>nets. filter (\<lambda>L. order_of L = 2) Ls = map L_net nets"
    by (induction Ls) (auto, metis list.simps(9))
  then obtain nets where "filter (\<lambda>L. order_of L = 2) Ls = map L_net nets" by blast
  then show ?thesis using that [of nets] assms by (cases nets) (simp_all add: register_layers o)
qed

section \<open>Runs\<close>

lemma mtu_bound: "\<exists>M. 0 \<le> M \<and> (\<forall>env \<in> set envs. env_mtu_ok M env)"
proof (induction envs)
  case (Cons env envs)
  then obtain M where "0 \<le> M" "\<forall>env \<in> set envs. env_mtu_ok M env" by blast
  then have "0 \<le> max M (conf_max_mtu env) \<and> (\<forall>e \<in> set (env # envs). env_mtu_ok (max M (conf_max_mtu env)) e)"
    by (auto simp: env_mtu_ok_def)
  then show ?case by blast
qed auto

lemma ppp_run_inv:
  assumes cfg: "K_auth \<in> set (fst cfg)" "snd cfg \<noteq> []"
    and Ls: "filter (\<lambda>L. L = L_lcp) Ls = [L_lcp]" "filter (\<lambda>L. L = L_auth) Ls = [L_auth]"
    and must: "\<forall>env \<in> insert env (fst ` set evs). \<not> conf_noauth (e_lcp env)"
    and s: "establish_ppp env cfg (fold ppp_register_layer Ls []) ccp (ppp_init c rnd) = (0, s)"
  shows "\<exists>M. ppp_inv M False False (ppp_run cfg evs s)"
proof -
  obtain M where M: "0 \<le> M" "\<forall>e \<in> set (e_lcp env # map (e_lcp \<circ> fst) evs). env_mtu_ok M e" using mtu_bound by blast
  obtain nets where nets: "map snd (fold ppp_register_layer Ls []) = [[L_lcp], [L_auth]] \<or>
    map snd (fold ppp_register_layer Ls []) = [[L_lcp], [L_auth], map L_net nets]" using registered_nodes [OF Ls] .
  have "ppp_config env M" using M must by (simp add: ppp_config_def)
  from ppp_config.establish_ok [OF this cfg M(1) nets s] have "client_ok (ppp_inv M False False) chosen s" .
  then have "client_ok (ppp_inv M False False) chosen (ppp_run cfg evs s)" using M(2) must
  proof (induction evs arbitrary: s)
    case (Cons ee evs)
    have "ppp_config (fst ee) M" using Cons.prems by (simp add: ppp_config_def)
    from ppp_config.step_ok [OF this Cons.prems(1), of cfg "snd ee"] show ?case
      using Cons.prems Cons.IH [of "ppp_step cfg ee s"] by (simp add: ppp_run_def)
  qed (simp add: ppp_run_def)
  then show ?thesis by (auto simp: client_ok_def)
qed

end
