(* ===== verification/Ppp_Login.thy ===== *)
theory Ppp_Login
  imports Ppp_Session_Correct
begin

text \<open>
  What the theories of a PPP session come to: no network layer without authentication, sessions that are counted and
  end once, and the decision of the password protocols, with a session that runs from its first packet to its end.
\<close>

section \<open>A session at work\<close>

text \<open>A database that knows one name, a configuration with one network layer, and the packets of a peer that logs in and is sent away.\<close>

definition demo_pwdb :: pwdb_t where
  "demo_pwdb = \<lparr>pw_check = None, pw_get_passwd = Some (\<lambda>u. if u = [98, 111, 98] then Some [112, 119] else None)\<rparr>"

definition demo_ppp_env :: ppp_env where
  "demo_ppp_env = \<lparr>e_lcp = demo_env, conf_any_login = False, conf_auth_timeout = 5, conf_interval = 0, conf_chap_max_failure = 3,
     conf_challenge_name = [], conf_single_session = -1, conf_ignore_case = False, e_sessions = [], e_pwdb = [demo_pwdb],
     e_urandom = replicate 16 0, e_shutdown = False, net_start = \<lambda>_. (0, [N_started]), net_finish = \<lambda>_. [N_finished],
     net_packet = \<lambda>_. None, net_proto_rej = \<lambda>_. None\<rparr>"

definition demo_reg :: reg where
  "demo_reg = ([K_auth], [Auth_pap])"

definition demo_session :: "int \<times> ppp_t" where
  "demo_session = establish_ppp demo_ppp_env demo_reg (fold ppp_register_layer [L_net Ipcp, L_auth, L_lcp] []) False
     (ppp_init fsm_conf_default 0)"

definition demo_packet :: "bytes \<Rightarrow> ppp_env \<times> ppp_event" where
  "demo_packet bs = (demo_ppp_env, Packet (bs @ replicate (64 - length bs) 0) (length bs))"

definition demo_logout :: "(ppp_env \<times> ppp_event) list" where
  "demo_logout = [demo_packet [0xc0, 0x21, 1, 9, 0, 4], demo_packet [0xc0, 0x21, 2, 0, 0, 8, 3, 4, 0xc0, 0x23],
     demo_packet [0xc0, 0x23, 1, 5, 0, 11, 3, 98, 111, 98, 2, 112, 119], (demo_ppp_env, Run_posted),
     (demo_ppp_env, Terminate TERM_USER_REQUEST False), demo_packet [0xc0, 0x21, 6, 1, 0, 4]]"

interpretation demo: ppp_config demo_ppp_env demo_reg 1492
  by unfold_locales (simp_all add: demo_ppp_env_def demo_env_def env_mtu_ok_def)

lemma ppp_demo_setup:
  "K_auth \<in> set (fst demo_reg)" "snd demo_reg \<noteq> []"
  "filter (\<lambda>L. L = L_lcp) [L_net Ipcp, L_auth, L_lcp] = [L_lcp]" "filter (\<lambda>L. L = L_auth) [L_net Ipcp, L_auth, L_lcp] = [L_auth]"
  "\<forall>env \<in> insert demo_ppp_env (fst ` set demo_logout). \<not> conf_noauth (e_lcp env)"
  "establish_ppp demo_ppp_env demo_reg (fold ppp_register_layer [L_net Ipcp, L_auth, L_lcp] []) False (ppp_init fsm_conf_default 0)
     = (0, snd demo_session)"
  using demo.must_auth
  by (simp_all add: demo_reg_def demo_logout_def demo_packet_def demo_session_def establish_ppp_def ap_session_starting_def
      Let_def register_layers init_layers_def demo_ppp_env_def)

lemma demo_log:
  "ses_log (ppp_run demo_reg demo_logout (snd demo_session)) =
     [Ev_start L_lcp, Ev_start L_auth, Ev_let_in [98, 111, 98], Ev_authorized, Ev_start (L_net Ipcp), Ev_active, Ev_down, Ev_finished]"
  by code_simp

section \<open>Properties\<close>

text \<open>
  C2: Whatever packets, timers, results of the password databases and calls of the network layers a PPP session sees
  from its start on, it starts a network layer or becomes active only after it was authorized, and it is authorized
  only after a name was let in by an authentication protocol. The configuration demands authentication.
\<close>

theorem network_needs_authentication:
  assumes "K_auth \<in> set (fst cfg)" "snd cfg \<noteq> []"
    and "filter (\<lambda>L. L = L_lcp) Ls = [L_lcp]" "filter (\<lambda>L. L = L_auth) Ls = [L_auth]"
    and "\<forall>env \<in> insert env (fst ` set evs). \<not> conf_noauth (e_lcp env)"
    and "establish_ppp env cfg (fold ppp_register_layer Ls []) ccp (ppp_init c rnd) = (0, s)"
  shows "preceded gated (\<lambda>e. e = Ev_authorized) (ses_log (ppp_run cfg evs s)) \<and>
    preceded (\<lambda>e. e = Ev_authorized) is_let_in (ses_log (ppp_run cfg evs s))"
  using ppp_run_inv [OF assms] by (auto simp: ppp_inv_def sess_ok_def)

theorem network_needs_authentication_witness:
  "Ev_active \<in> set (ses_log (ppp_run demo_reg demo_logout (snd demo_session))) \<and>
   preceded gated (\<lambda>e. e = Ev_authorized) (ses_log (ppp_run demo_reg demo_logout (snd demo_session))) \<and>
   preceded (\<lambda>e. e = Ev_authorized) is_let_in (ses_log (ppp_run demo_reg demo_logout (snd demo_session)))"
  using network_needs_authentication [OF ppp_demo_setup(1-6)] by (simp add: demo_log)



subsection \<open>Passwords\<close>

text \<open>The packet of an Authenticate-Request, as RFC 1334 lays it out.\<close>

definition pap_request :: "u8 \<Rightarrow> bytes \<Rightarrow> bytes \<Rightarrow> bytes" where
  "pap_request i name passwd = put16 0xc023 @ [1, i] @ put16 (of_nat (6 + length name + length passwd)) @
     [of_nat (length name)] @ name @ [of_nat (length passwd)] @ passwd"

lemma strndup_exact: "0 \<notin> set xs \<Longrightarrow> strndup (xs @ rest) (length xs) = xs"
  by (simp add: strndup_def) (metis takeWhile_eq_all_conv)

lemma pap_request_fields:
  assumes "ppp_buf s = pap_request i name passwd @ rest" "length name < 256" "length passwd < 256"
  shows "hdr_code s = 1" "hdr_id s = i" "hdr_len s = 6 + length name + length passwd"
    "0 \<notin> set name \<Longrightarrow> 0 \<notin> set passwd \<Longrightarrow> pap_parse (ppp_buf s) = Some (name, passwd)"
proof -
  let ?n = "length name" and ?p = "length passwd"
  define w where "w = (of_nat (6 + ?n + ?p) :: u16)"
  have w: "unat w = 6 + ?n + ?p" unfolding w_def using assms(2,3) by (simp add: unsigned_of_nat take_bit_nat_eq_self del: of_nat_add of_nat_numeral)
  have u: "unat (of_nat ?n :: u8) = ?n" "unat (of_nat ?p :: u8) = ?p" using assms(2,3) by (simp_all add: unsigned_of_nat take_bit_nat_eq_self)
  have b: "ppp_buf s = 0xc0 # 0x23 # 1 # i # ucast (drop_bit 8 w) # ucast w # of_nat ?n # name @ of_nat ?p # passwd @ rest"
    using assms(1) by (simp add: pap_request_def put16_def w_def)
  show "hdr_code s = 1" "hdr_id s = i" by (simp_all add: b)
  have l: "rd16 (drop 4 (ppp_buf s)) = w" by (simp add: b get16_put16)
  then show "hdr_len s = 6 + ?n + ?p" by (simp add: w)
  have d: "drop 7 (ppp_buf s) = name @ of_nat ?p # passwd @ rest" "ppp_buf s ! 6 = of_nat ?n" "ppp_buf s ! (7 + ?n) = of_nat ?p"
    by (simp_all add: b nth_append)
  have "drop (8 + ?n) (ppp_buf s) = drop (Suc ?n) (drop 7 (ppp_buf s))" by simp
  then have d8: "drop (8 + ?n) (ppp_buf s) = passwd @ rest" by (simp only: d) simp
  have z: "size_t (int (6 + ?n + ?p) - 6 + 2 - 1) = 1 + ?n + ?p" "size_t (int (6 + ?n + ?p) - 6 + 2 - 2 - int ?n) = ?p"
    using assms(2,3) by (simp_all add: size_t_def)
  show "pap_parse (ppp_buf s) = Some (name, passwd)" if "0 \<notin> set name" "0 \<notin> set passwd"
    using strndup_exact that unfolding pap_parse_def Let_def l w d u d8 z by simp
qed

text \<open>The packet of a CHAP response, as RFC 1994 lays it out.\<close>

definition chap_response :: "u8 \<Rightarrow> bytes \<Rightarrow> bytes \<Rightarrow> bytes" where
  "chap_response i resp name = put16 0xc223 @ [2, i] @ put16 (of_nat (21 + length name)) @ [16] @ resp @ name"

lemma chap_response_fields:
  assumes "ppp_buf s = chap_response i resp name @ rest" "length name < 1024" "length resp = 16"
  shows "hdr_code s = 2" "hdr_id s = i" "hdr_len s = 21 + length name" "ppp_buf s ! 6 = 16"
    "drop 23 (ppp_buf s) = name @ rest" "take 16 (drop 7 (ppp_buf s)) = resp"
    "size_t (int (hdr_len s) - 23 + 2) = length name"
proof -
  define w where "w = (of_nat (21 + length name) :: u16)"
  have w: "unat w = 21 + length name" unfolding w_def using assms(2)
    by (simp add: unsigned_of_nat take_bit_nat_eq_self del: of_nat_add of_nat_numeral)
  have b: "ppp_buf s = 0xc2 # 0x23 # 2 # i # ucast (drop_bit 8 w) # ucast w # 16 # resp @ name @ rest"
    using assms(1) by (simp add: chap_response_def put16_def w_def)
  show "hdr_code s = 2" "hdr_id s = i" "ppp_buf s ! 6 = 16" "take 16 (drop 7 (ppp_buf s)) = resp" using assms(3) by (simp_all add: b)
  have l: "rd16 (drop 4 (ppp_buf s)) = w" by (simp add: b get16_put16)
  then show h: "hdr_len s = 21 + length name" by (simp add: w)
  show "size_t (int (hdr_len s) - 23 + 2) = length name" using assms(2) unfolding h by (simp add: size_t_def)
  have "drop 23 (ppp_buf s) = drop 16 (drop 7 (ppp_buf s))" by simp
  then show "drop 23 (ppp_buf s) = name @ rest" using assms(3) by (simp add: b del: drop_drop)
qed

text \<open>What the chain of databases answers: the first that lets the name in or wants to wait, or a refusal by any of them.\<close>

definition db_answers :: "ppp_env \<Rightarrow> bytes \<Rightarrow> auth_req \<Rightarrow> pwdb_res list" where
  "db_answers env name req = map (\<lambda>check. check name req) (List.map_filter pw_check (e_pwdb env))"

definition db_verdict :: "pwdb_res list \<Rightarrow> pwdb_res" where
  "db_verdict as = (case find (\<lambda>a. a = PWDB_SUCCESS \<or> a = PWDB_WAIT) as of
     Some a \<Rightarrow> a | None \<Rightarrow> if PWDB_DENIED \<in> set as then PWDB_DENIED else PWDB_NO_IMPL)"

lemma db_verdict_Cons:
  "db_verdict (a # as) = (if a = PWDB_SUCCESS \<or> a = PWDB_WAIT then a
     else if a = PWDB_DENIED \<and> db_verdict as = PWDB_NO_IMPL then PWDB_DENIED else db_verdict as)"
proof (cases "find (\<lambda>a. a = PWDB_SUCCESS \<or> a = PWDB_WAIT) as")
  case (Some b)
  then have "b = PWDB_SUCCESS \<or> b = PWDB_WAIT" by (auto simp: find_Some_iff)
  then show ?thesis using Some by (cases a) (auto simp: db_verdict_def)
qed (cases a; auto simp: db_verdict_def)

lemma pwdb_loop_verdict:
  "res = PWDB_NO_IMPL \<or> res = PWDB_DENIED \<Longrightarrow>
   pwdb_loop pws name req res = (let as = map (\<lambda>check. check name req) (List.map_filter pw_check pws)
     in if db_verdict as = PWDB_NO_IMPL then res else db_verdict as)"
proof (induction pws arbitrary: res)
  case (Cons pw pws)
  show ?case
  proof (cases "pw_check pw")
    case (Some check)
    then show ?thesis using Cons.IH [of res] Cons.IH [of PWDB_DENIED] Cons.prems
      by (cases "check name req") (auto simp: db_verdict_Cons Let_def map_filter_simps)
  qed (use Cons in \<open>simp add: map_filter_simps\<close>)
qed (simp add: db_verdict_def map_filter_simps)

text \<open>The verdict on a password that the peer proves to know, by \<open>req\<close> or by \<open>proves\<close> against a stored password.\<close>

definition login_verdict :: "ppp_env \<Rightarrow> bytes \<Rightarrow> auth_req \<Rightarrow> (bytes \<Rightarrow> bool) \<Rightarrow> pwdb_res" where
  "login_verdict env name req proves =
     (if ap_check_username env name then PWDB_DENIED
      else case db_verdict (db_answers env name req) of
        PWDB_NO_IMPL \<Rightarrow> (case pwdb_get_passwd env name of
            Some passwd \<Rightarrow> if proves passwd then PWDB_SUCCESS else PWDB_DENIED | None \<Rightarrow> PWDB_DENIED)
      | r \<Rightarrow> r)"

definition name_taken :: "ppp_env \<Rightarrow> bytes \<Rightarrow> 'z ppp_t_scheme \<Rightarrow> bool" where
  "name_taken env name s \<longleftrightarrow> fst (ap_session_set_username env name s) \<noteq> 0"

lemma pwdb_check_verdict: "pwdb_check env name req = (if ap_check_username env name then PWDB_DENIED else db_verdict (db_answers env name req))"
  using pwdb_loop_verdict [of PWDB_NO_IMPL "e_pwdb env" name req] by (simp add: pwdb_check_def db_answers_def Let_def)

lemma pap_verdict_eq: "pap_verdict env name passwd = login_verdict env name (Req_pap passwd) (\<lambda>p. p = passwd)"
  by (auto simp: pap_verdict_def login_verdict_def pwdb_check_verdict split: pwdb_res.split option.split)

lemma login_verdict_impl: "login_verdict env name req proves \<noteq> PWDB_NO_IMPL"
  by (auto simp: login_verdict_def split: pwdb_res.split option.split)

lemma set_username:
  "ap_session_set_username env name s = (if name_taken env name s then (-1, s) else (0, s\<lparr>ses_username := Some name\<rparr>))"
  by (simp add: name_taken_def ap_session_set_username_def)

lemma name_taken_upd [simp]:
  "name_taken env name (s\<lparr>pap := p\<rparr>) = name_taken env name s" "name_taken env name (s\<lparr>chap := c\<rparr>) = name_taken env name s"
  "name_taken env name (s\<lparr>ses_log := es\<rparr>) = name_taken env name s"
  by (simp_all add: name_taken_def ap_session_set_username_def)

lemma succeeded_eq: "ppp_auth_succeeded env name s =
    (if name_taken env name s then (-1, s) else (0, s\<lparr>ses_username := Some name, ctx_calls := ctx_calls s @ [Post_auth_started]\<rparr>))"
  by (simp add: ppp_auth_succeeded_def set_username)

lemma send_msgs:
  "ppp_chan_send (pap_msg 2 i ''Authentication succeeded'') s = s\<lparr>ppp_sent := ppp_sent s @ [pap_msg 2 i ''Authentication succeeded'']\<rparr>"
  "ppp_chan_send (pap_msg 3 i ''Authentication failed'') s = s\<lparr>ppp_sent := ppp_sent s @ [pap_msg 3 i ''Authentication failed'']\<rparr>"
  "ppp_chan_send (chap_msg 3 i (str_bytes ''Authentication succeeded'')) s =
     s\<lparr>ppp_sent := ppp_sent s @ [chap_msg 3 i (str_bytes ''Authentication succeeded'')]\<rparr>"
  "ppp_chan_send (chap_msg 4 i (str_bytes ''Authentication failed'')) s =
     s\<lparr>ppp_sent := ppp_sent s @ [chap_msg 4 i (str_bytes ''Authentication failed'')]\<rparr>"
  by (simp_all add: ppp_chan_send_def pap_msg_def chap_msg_def str_bytes_def)

text \<open>
  C16: A PAP Authenticate-Request is answered by what the password databases say of its name and password: the peer is
  acknowledged and the session authorized if they let it in and no other session has the name, refused and terminated
  if not, and nothing is sent while a database is still asking.
\<close>

theorem pap_request_decided:
  fixes s :: "'z ppp_t_scheme" and core :: "'z ppp_t_scheme ppp_core"
  assumes buf: "ppp_buf s = pap_request i name passwd @ rest" "ppp_buf_size s = length (pap_request i name passwd)"
    and len: "length name < 256" "length passwd < 256" "0 \<notin> set name" "0 \<notin> set passwd"
    and ready: "pap_active (pap s)" "\<not> pap_started (pap s)" "pap_peer_id (pap s) = None" "\<not> conf_any_login env"
  defines "v \<equiv> login_verdict env name (Req_pap passwd) (\<lambda>p. p = passwd)" and "t \<equiv> pap_recv core env s"
  shows "v = PWDB_SUCCESS \<and> \<not> name_taken env name s \<and> pap_started (pap t) \<and> ses_username t = Some name \<and>
           ppp_sent t = ppp_sent s @ [pap_msg 2 i ''Authentication succeeded''] \<and> ctx_calls t = ctx_calls s @ [Post_auth_started] \<or>
         v = PWDB_SUCCESS \<and> name_taken env name s \<and> (\<exists>u. t = core_terminate core TERM_AUTH_ERROR False u \<and>
           ppp_sent u = ppp_sent s @ [pap_msg 3 i ''Authentication failed''] \<and> ctx_calls u = ctx_calls s) \<or>
         v = PWDB_DENIED \<and> (\<exists>u. t = ppp_auth_failed core (Some name) u \<and>
           ppp_sent u = ppp_sent s @ [pap_msg 3 i ''Authentication failed''] \<and> ctx_calls u = ctx_calls s \<and> ses_log u = ses_log s) \<or>
         v = PWDB_WAIT \<and> ppp_sent t = ppp_sent s \<and> ctx_calls t = ctx_calls s \<and> ses_log t = ses_log s \<and>
           pap_peer_id (pap t) = Some name \<and> pap_req_id (pap t) = i"
proof -
  note f = pap_request_fields [OF buf(1) len(1,2)]
  define u where "u = s\<lparr>pap := (pap s)\<lparr>pap_timeout_tpd := False\<rparr>\<rparr>"
  have sz: "ppp_buf_size s = 8 + length name + length passwd" using buf(2) by (simp add: pap_request_def)
  have t: "t = (case v of PWDB_WAIT \<Rightarrow> u\<lparr>pap := (pap u)\<lparr>pap_peer_id := Some name, pap_req_id := i\<rparr>\<rparr>
      | PWDB_DENIED \<Rightarrow> pap_refuse core i name u | _ \<Rightarrow> pap_accept core env i name u)"
    using ready f(1-4) len(3,4) sz by (simp add: t_def pap_recv_def pap_recv_req_def u_def Let_def v_def pap_verdict_eq cong: pwdb_res.case_cong)
  have s: "ppp_sent u = ppp_sent s" "ctx_calls u = ctx_calls s" "ses_log u = ses_log s" "pap_started (pap u) = False"
    using ready by (simp_all add: u_def)
  have sent: "ppp_sent (pap_send_nak i u) = ppp_sent s @ [pap_msg 3 i ''Authentication failed'']" "ctx_calls (pap_send_nak i u) = ctx_calls s"
    "ses_log (pap_send_nak i u) = ses_log s" "pap_started (pap (pap_send_nak i u)) = False"
    by (simp_all add: pap_send_nak_def send_msgs s)
  show ?thesis
  proof (cases v)
    case PWDB_SUCCESS
    then show ?thesis using t
      by (auto simp: pap_accept_def succeeded_eq u_def pap_send_ack_def pap_send_nak_def send_msgs Let_def)
  next
    case PWDB_DENIED
    then show ?thesis using t sent by (auto simp: pap_refuse_def Let_def)
  next
    case PWDB_WAIT
    then show ?thesis using t s by simp
  next
    case PWDB_NO_IMPL
    then show ?thesis using login_verdict_impl v_def by simp
  qed
qed

text \<open>
  C18: A CHAP response to the challenge that is out is accepted exactly if the databases let it in, where a stored password
  counts if the response is the MD5 digest of the id, the password and the challenge: the peer gets a success, the
  session is authorized and the next challenge has a new id. Otherwise the peer gets a failure and the session is
  terminated, except that a name without a password leaves the session as it is.
\<close>

theorem chap_response_decided:
  fixes s :: "'z ppp_t_scheme" and core :: "'z ppp_t_scheme ppp_core"
  assumes buf: "ppp_buf s = chap_response i resp name @ rest" "ppp_buf_size s = length (chap_response i resp name)"
    and len: "length name < 1024" "length resp = 16" "0 \<notin> set name"
    and ready: "chap_id (chap s) = i" "\<not> chap_started (chap s)" "chap_name (chap s) = None" "\<not> conf_any_login env"
  defines "v \<equiv> login_verdict env name (Req_chap_md5 i (chap_val (chap s)) resp) (\<lambda>p. md5 ([i] @ p @ chap_val (chap s)) = resp)"
    and "t \<equiv> chap_recv core env s"
  shows "v = PWDB_SUCCESS \<and> \<not> name_taken env name s \<and> chap_started (chap t) \<and> ses_username t = Some name \<and> chap_id (chap t) = i + 1 \<and>
           ppp_sent t = ppp_sent s @ [chap_msg 3 i (str_bytes ''Authentication succeeded'')] \<and>
           ctx_calls t = ctx_calls s @ [Post_auth_started] \<or>
         v = PWDB_SUCCESS \<and> name_taken env name s \<and> (\<exists>u. t = chap_next_id (core_terminate core TERM_AUTH_ERROR False u) \<and>
           ppp_sent u = ppp_sent s @ [chap_msg 4 i (str_bytes ''Authentication failed'')] \<and> ctx_calls u = ctx_calls s) \<or>
         v = PWDB_DENIED \<and> (\<exists>u. t = (if \<not> ap_check_username env name \<and> pwdb_get_passwd env name = None \<and>
             db_verdict (db_answers env name (Req_chap_md5 i (chap_val (chap s)) resp)) = PWDB_NO_IMPL
             then u else ppp_auth_failed core (Some name) u) \<and>
           ppp_sent u = ppp_sent s @ [chap_msg 4 i (str_bytes ''Authentication failed'')] \<and> ctx_calls u = ctx_calls s \<and>
           ses_log u = ses_log s) \<or>
         v = PWDB_WAIT \<and> ppp_sent t = ppp_sent s \<and> ctx_calls t = ctx_calls s \<and> ses_log t = ses_log s \<and> chap_name (chap t) = Some name"
proof -
  note f = chap_response_fields [OF buf(1) len(1,2)]
  define u where "u = s\<lparr>chap := (chap s)\<lparr>chap_timeout_tpd := False\<rparr>\<rparr>"
  have sz: "ppp_buf_size s = 23 + length name" using buf(2) len(2) by (simp add: chap_response_def)
  have n: "strndup (name @ rest) (length name) = name" "\<not> strndup_overruns (name @ rest) (length name)"
    using strndup_exact [OF len(3)] by (simp_all add: strndup_overruns_def)
  have t: "t = chap_check core env name resp u"
    using ready f n sz by (simp add: t_def chap_recv_def chap_recv_response_def u_def Let_def)
  have u: "ppp_buf u = ppp_buf s" "chap_id (chap u) = i" "chap_val (chap u) = chap_val (chap s)" "\<not> chap_started (chap u)"
    "ppp_sent u = ppp_sent s" "ctx_calls u = ctx_calls s" "ses_log u = ses_log s" "name_taken env name u = name_taken env name s"
    using ready by (simp_all add: u_def)
  let ?fail = "chap_send_failure u" and ?req = "Req_chap_md5 i (chap_val (chap s)) resp"
  have fail: "ppp_sent ?fail = ppp_sent s @ [chap_msg 4 i (str_bytes ''Authentication failed'')]" "ctx_calls ?fail = ctx_calls s"
    "ses_log ?fail = ses_log s" "\<not> chap_started (chap ?fail)"
    by (simp_all add: chap_send_failure_def send_msgs u)
  have refuse: "chap_refuse core c (Some name) u = ppp_auth_failed core (Some name) ?fail" for c
    using fail(4) by (simp add: chap_refuse_def Let_def)
  have accept: "\<not> name_taken env name s \<Longrightarrow> chap_next_id (chap_accept core env name u) = w \<Longrightarrow>
      chap_started (chap w) \<and> ses_username w = Some name \<and> chap_id (chap w) = i + 1 \<and>
      ppp_sent w = ppp_sent s @ [chap_msg 3 i (str_bytes ''Authentication succeeded'')] \<and> ctx_calls w = ctx_calls s @ [Post_auth_started]"
    "name_taken env name s \<Longrightarrow> chap_next_id (chap_accept core env name u) = w \<Longrightarrow>
      \<exists>u. w = chap_next_id (core_terminate core TERM_AUTH_ERROR False u) \<and>
        ppp_sent u = ppp_sent s @ [chap_msg 4 i (str_bytes ''Authentication failed'')] \<and> ctx_calls u = ctx_calls s" for w
    using u by (auto simp: chap_accept_def succeeded_eq Let_def chap_send_success_def chap_send_failure_def send_msgs chap_next_id_def)
  let ?unknown = "\<not> ap_check_username env name \<and> pwdb_get_passwd env name = None \<and> db_verdict (db_answers env name ?req) = PWDB_NO_IMPL"
  have t2: "t = (case v of PWDB_SUCCESS \<Rightarrow> chap_next_id (chap_accept core env name u)
      | PWDB_WAIT \<Rightarrow> u\<lparr>chap := (chap u)\<lparr>chap_name := Some name\<rparr>\<rparr>
      | PWDB_DENIED \<Rightarrow> if ?unknown then ?fail else ppp_auth_failed core (Some name) ?fail | PWDB_NO_IMPL \<Rightarrow> t)"
    unfolding t chap_check_def pwdb_check_verdict refuse u f(2) v_def login_verdict_def chap_digest_def
    by (auto split: pwdb_res.split option.split)
  show ?thesis
  proof (cases v)
    case PWDB_SUCCESS
    then have "chap_next_id (chap_accept core env name u) = t" using t2 by simp
    then show ?thesis using accept [of t] PWDB_SUCCESS by (cases "name_taken env name s") simp_all
  next
    case PWDB_DENIED
    then have "t = (if ?unknown then ?fail else ppp_auth_failed core (Some name) ?fail)" using t2 by (simp only: pwdb_res.case)
    then show ?thesis using fail(1-3) PWDB_DENIED by blast
  next
    case PWDB_WAIT
    then show ?thesis using t2 u by simp
  next
    case PWDB_NO_IMPL
    then show ?thesis using login_verdict_impl v_def by simp
  qed
qed

text \<open>Two sessions that wait for the name and the password, and the requests in their buffers.\<close>

definition demo_pap :: ppp_t where
  "demo_pap = (let s = ppp_init fsm_conf_default 0
     in s\<lparr>ppp_buf := pap_request 5 [98, 111, 98] [112, 119], ppp_buf_size := 13, pap := (pap s)\<lparr>pap_active := True\<rparr>\<rparr>)"

definition demo_chap_response :: bytes where
  "demo_chap_response = chap_response 1 (md5 ([1] @ [112, 119] @ replicate 16 0)) [98, 111, 98]"

definition demo_chap :: ppp_t where
  "demo_chap = (let s = ppp_init fsm_conf_default 0
     in s\<lparr>ppp_buf := demo_chap_response, ppp_buf_size := length demo_chap_response, chap := (chap s)\<lparr>chap_id := 1, chap_registered := True\<rparr>\<rparr>)"

lemma demo_verdict:
  "login_verdict demo_ppp_env [98, 111, 98] req proves = (if proves [112, 119] then PWDB_SUCCESS else PWDB_DENIED)"
  "\<not> name_taken demo_ppp_env [98, 111, 98] s"
  by (simp_all add: login_verdict_def name_taken_def ap_session_set_username_def ap_check_username_def db_answers_def db_verdict_def
      demo_ppp_env_def demo_pwdb_def map_filter_simps pwdb_get_passwd_def)

lemma demo_pap_fields:
  "ppp_buf demo_pap = pap_request 5 [98, 111, 98] [112, 119] @ []" "ppp_buf_size demo_pap = length (pap_request 5 [98, 111, 98] [112, 119])"
  "pap_active (pap demo_pap)" "\<not> pap_started (pap demo_pap)" "pap_peer_id (pap demo_pap) = None" "ppp_sent demo_pap = []"
  by (simp_all add: demo_pap_def Let_def ppp_init_def ppp_fsm_init_def pap_request_def)

lemma demo_chap_fields:
  "ppp_buf demo_chap = chap_response 1 (md5 ([1] @ [112, 119] @ replicate 16 0)) [98, 111, 98] @ []"
  "ppp_buf_size demo_chap = length (chap_response 1 (md5 ([1] @ [112, 119] @ replicate 16 0)) [98, 111, 98])"
  "chap_id (chap demo_chap) = 1" "\<not> chap_started (chap demo_chap)" "chap_name (chap demo_chap) = None"
  "chap_val (chap demo_chap) = replicate 16 0" "ppp_sent demo_chap = []"
  by (simp_all add: demo_chap_def demo_chap_response_def Let_def ppp_init_def ppp_fsm_init_def)

theorem pap_request_decided_witness:
  "ppp_sent (pap_recv demo_core demo_ppp_env demo_pap) = [pap_msg 2 5 ''Authentication succeeded''] \<and>
   ses_username (pap_recv demo_core demo_ppp_env demo_pap) = Some [98, 111, 98]"
proof -
  have any: "\<not> conf_any_login demo_ppp_env" by (simp add: demo_ppp_env_def)
  show ?thesis
    using pap_request_decided [OF demo_pap_fields(1,2) _ _ _ _ demo_pap_fields(3-5) any, of demo_core]
    by (simp add: demo_pap_fields(6) demo_verdict)
qed

theorem chap_response_decided_witness:
  "ppp_sent (chap_recv demo_core demo_ppp_env demo_chap) = [chap_msg 3 1 (str_bytes ''Authentication succeeded'')] \<and>
   chap_id (chap (chap_recv demo_core demo_ppp_env demo_chap)) = 2"
proof -
  have any: "\<not> conf_any_login demo_ppp_env" by (simp add: demo_ppp_env_def)
  show ?thesis
    using chap_response_decided [OF demo_chap_fields(1,2) _ _ _ demo_chap_fields(3-5) any, of demo_core]
    by (simp add: demo_chap_fields(6,7) demo_verdict md5d.digest_length)
qed

subsection \<open>Weak spots of the password protocols\<close>

text \<open>The checks of the lengths in a PAP request wrap around: a packet with nothing behind its header passes them.\<close>

lemma pap_parse_short:
  assumes "unat (rd16 (drop 4 buf)) = 4" "unat (buf ! 6) = n" "n < 256"
  shows "pap_parse buf = Some (strndup (drop 7 buf) n, strndup (drop (8 + n) buf) (unat (buf ! (7 + n))))"
proof -
  have "(- 2 - int n) mod 2 ^ 64 = (2 ^ 64 + (- 2 - int n)) mod 2 ^ 64" by (rule mod_add_self1 [symmetric])
  also have "\<dots> = 2 ^ 64 + (- 2 - int n)" using assms(3) by (intro mod_pos_pos_trivial) simp_all
  finally have "size_t (4 - 6 + 2 - 2 - int n) = 2 ^ 64 - 2 - n" using assms(3) by (simp add: size_t_def)
  moreover have "size_t (4 - 6 + 2 - 1) = 2 ^ 64 - 1" by (simp add: size_t_def)
  moreover have "unat (buf ! (7 + n)) < 256" using unsigned_less [of "buf ! (7 + n)"] by simp
  ultimately show ?thesis using assms by (simp add: pap_parse_def Let_def)
qed

text \<open>
  Once a peer is authenticated with CHAP, a response with the id before the one that is out is answered with a success,
  whatever it holds, and the timer that waits for the answer to the challenge is stopped.
\<close>

lemma chap_old_response:
  assumes "chap_started (chap s)" "uint (hdr_id s) = uint (chap_id (chap s)) - 1"
  shows "chap_recv_response core env s = chap_send_success (hdr_id s) (s\<lparr>chap := (chap s)\<lparr>chap_timeout_tpd := False\<rparr>\<rparr>)"
  using assms by (simp add: chap_recv_response_def Let_def)

text \<open>A response with any other id stops that timer too, and nothing more happens.\<close>

lemma chap_wrong_id:
  assumes "\<not> chap_started (chap s)" "hdr_id s \<noteq> chap_id (chap s)"
  shows "chap_recv_response core env s = s\<lparr>chap := (chap s)\<lparr>chap_timeout_tpd := False\<rparr>\<rparr>"
  using assms by (simp add: chap_recv_response_def Let_def)

end
