(* ===== verification/Spec2Isabelle.thy ===== *)
theory Spec2Isabelle
  imports BNG_Prelude C_String Utils Iprange Connlimit Crypto_Hash L2tp_Avp L2tp_Packet L2tp_State L2tp_Transport
    L2tp_Tunnel L2tp_Sessions L2tp_Ident L2tp_Correct L2tp_Server Ppp_Fsm Ppp_Lcp Ppp_Lcp_Correct Ppp_Session
    Ppp_Session_Correct Ppp_Login
begin

text \<open>
  Verification of the broadband network gateway daemon \<open>micro-bngd\<close>, a concentrator that ends the PPP and L2TP sessions
  of subscribers. This theory imports the whole development; the theorems stand in the theories of their components.

  \<^bold>\<open>The program.\<close> The daemon runs an event loop (\<open>triton\<close>) that calls handlers for packets and timers. A control module
  (here L2TP, \<open>ctrl/l2tp\<close>) accepts tunnels from peers and starts a session for each call. A session runs PPP: the layers of
  \<open>ppp/ppp.c\<close> come up one after the other, first the link control protocol (\<open>ppp_lcp.c\<close> on the automaton of \<open>ppp_fsm.c\<close>),
  then authentication (\<open>ppp_auth.c\<close> with \<open>auth/\<close> and the password databases of \<open>pwdb.c\<close>), then the network protocols;
  \<open>session.c\<close> keeps the counters and ends the session. \<open>crypto/\<close> holds the hash functions, \<open>iprange.c\<close> and
  \<open>extra/connlimit.c\<close> decide which peers may connect and how often, \<open>utils.c\<close> reads addresses and numbers.

  \<^bold>\<open>How the model is made.\<close> A struct is a record, an enumeration a datatype, machine integers are words (or \<open>int\<close> where the
  code does not come near the bounds), C strings and buffers are lists of bytes. A handler is a function from the state to the
  state. What a call to the kernel, to the C library's clock and random numbers or to a module outside of the model yields is an
  argument: a field of an environment record (\<open>lcp_env\<close>, \<open>ppp_env\<close>, \<open>l2tp_io\<close>, \<open>alloc_io\<close>) that every theorem quantifies over.
  Packets that are sent are appended to a list in the state. A read or write outside of a buffer sets a fault flag.

  \<^bold>\<open>Theories.\<close>
  \<^item> \<open>BNG_Prelude\<close>: machine integers, network byte order with its round trips, optional callbacks, writing into buffers.
  \<^item> \<open>C_String\<close>, \<open>Utils\<close>: \<open>strtol\<close>, \<open>strtoul\<close>, \<open>atoi\<close>, \<open>inet_pton\<close> and the parsers of \<open>utils.c\<close>; an address that is
    printed is parsed back.
  \<^item> \<open>Iprange\<close>: \<open>iprange.c\<close>; a client address is accepted exactly if it lies in a configured network. \<open>Connlimit\<close>:
    \<open>extra/connlimit.c\<close>; a bound on the attempts of a peer that pass in a span of time.
  \<^item> \<open>Crypto_Hash\<close>: MD5, MD4 and SHA-1 of \<open>crypto/\<close>; feeding a message in pieces gives the digest of the whole.
  \<^item> \<open>L2tp_Avp\<close>, \<open>L2tp_Packet\<close>: \<open>ctrl/l2tp/packet.c\<close> and \<open>dict.c\<close>; hidden attributes are revealed again, a message that is
    built and sent is received with the same attributes, and receiving is safe for every datagram.
  \<^item> \<open>L2tp_State\<close>, \<open>L2tp_Transport\<close>: the records of \<open>l2tp.c\<close> and its reliable delivery: sequence numbers, the receive ring, the
    send window, retransmission. The invariants are \<open>rcv_inv\<close> and \<open>snd_inv\<close>, collected in \<open>l2tp_inv\<close>.
  \<^item> \<open>L2tp_Tunnel\<close>, \<open>L2tp_Sessions\<close>, \<open>L2tp_Ident\<close>: the messages of tunnels and calls with every branch of their handlers, the
    book-keeping \<open>book_ok\<close> of sessions and counters, and what never changes in a tunnel. \<open>L2tp_Correct\<close> states what follows for whole runs.
  \<^item> \<open>L2tp_Server\<close>: the configuration, the table of tunnels and the server socket of \<open>l2tp.c\<close>, which admits peers through
    \<open>Iprange\<close> and \<open>Connlimit\<close>; invariants of the whole table, admission and rate.
  \<^item> \<open>Ppp_Fsm\<close>: \<open>ppp/ppp_fsm.c\<close>; it implements the transition table of RFC 1661, and gives up after the configured number of
    requests. The locale \<open>fsm_client\<close> is what a layer has to promise so that its invariant survives every transition.
  \<^item> \<open>Ppp_Lcp\<close>, \<open>Ppp_Lcp_Correct\<close>: \<open>ppp_lcp.c\<close> with \<open>lcp_opt_mru.c\<close>, \<open>lcp_opt_magic.c\<close>, \<open>lcp_opt_pcomp.c\<close>, \<open>lcp_opt_accomp.c\<close> and
    the option of \<open>ppp_auth.c\<close>; the answer to a Configure-Request, the invariant \<open>lcp_wf\<close> of the options, and the locale
    \<open>lcp_session\<close>, a \<open>fsm_client\<close> over what the session promises to the protocol.
  \<^item> \<open>Ppp_Session\<close>, \<open>Ppp_Session_Correct\<close>, \<open>Ppp_Login\<close>: the layers of \<open>ppp.c\<close>, \<open>ppp_auth.c\<close>, \<open>auth_pap.c\<close>, \<open>auth_chap_md5.c\<close>,
    \<open>pwdb.c\<close> and \<open>session.c\<close>. \<open>ppp_config\<close> provides \<open>lcp_session\<close> for every configuration that demands authentication. The
    invariant \<open>ppp_inv\<close> gives that no network layer starts without authentication and that sessions are counted and end once;
    \<open>Ppp_Login\<close> shows what the two password protocols answer, and runs a session from its first packet to its end.

  \<^bold>\<open>Bounds.\<close> The calls between the layers of a session nest; \<open>ppp_core_of\<close> unrolls them to a depth of three and the flag
  \<open>ppp_deep\<close>, which is shown never to be set, notes a deeper call. The receive buffer has the 8192 bytes of the code. The loops
  over options and attributes recurse on the bytes that are left. The retries for a free tunnel or session id are the 65535 of
  the code. The loop that handles the messages received in a row may run for ever in principle; it is a partial function that
  is shown to return for every receive window that the daemon can have.

  \<^bold>\<open>Not modelled.\<close> Threads and locks: a handler is one step. The kernel side (drivers, netlink, sockets, interface set-up) and the
  data path. IPoE and DHCP, PPTP, SSTP and PPPoE; RADIUS; the network protocols above PPP (they appear by the calls they make
  into the session, in any order); MSCHAP; shaper, command line, logs, SNMP, Lua, backup and start-up, which are input and
  output for the most part. Printing and logging are left out everywhere. Memory is not modelled, except that running out of
  it is an outcome where the code checks for it.
\<close>

end
